(* ===== verification/Auth_Prelude.thy ===== *)
theory Auth_Prelude
  imports Main "HOL-Library.Sublist"
begin

text \<open>
  Shared ground of the development: Go's machine integers and durations, the error values
  of the program with their texts, the fact collections the component theories fill, and
  the few list lemmas several of them need.
\<close>

section \<open>Fact collections\<close>

named_theorems go_defs \<open>definitions of the straight-line operations, for unfolding\<close>
named_theorems frame \<open>which parts of the world an operation leaves alone\<close>
named_theorems keys \<open>separation of the Redis key families\<close>

section \<open>Integers, instants and durations\<close>

text \<open>
  \<open>int\<close>, \<open>int64\<close> and \<open>time.Duration\<close> are 64 bits wide and wrap around. Instants are
  nanoseconds since the Unix epoch; Go keeps them in a wider representation, so an instant
  is an unbounded integer here.
\<close>

type_synonym instant = int
type_synonym duration = int

definition wrap64 :: "int \<Rightarrow> int" where
  "wrap64 x = (x + 2 ^ 63) mod 2 ^ 64 - 2 ^ 63"

definition int64_range :: "int set" where
  "int64_range = {- (2 ^ 63) ..< 2 ^ 63}"

lemma wrap64_in_range: "wrap64 x \<in> int64_range"
proof -
  have "0 \<le> (x + 2 ^ 63) mod 2 ^ 64 \<and> (x + 2 ^ 63) mod 2 ^ 64 < (2 ^ 64 :: int)"
    by simp
  then show ?thesis by (auto simp: wrap64_def int64_range_def)
qed

lemma wrap64_id [simp]: "x \<in> int64_range \<Longrightarrow> wrap64 x = x"
  by (simp add: wrap64_def int64_range_def)

abbreviation nanosecond :: duration where "nanosecond \<equiv> 1"
abbreviation millisecond :: duration where "millisecond \<equiv> 1000000"
abbreviation second :: duration where "second \<equiv> 1000000000"
abbreviation minute :: duration where "minute \<equiv> 60 * 1000000000"
abbreviation hour :: duration where "hour \<equiv> 3600 * 1000000000"

text \<open>\<open>time.Duration(n) * unit\<close>, and \<open>Time.Sub\<close>, which saturates instead of wrapping.\<close>

definition dur_mul :: "int \<Rightarrow> duration \<Rightarrow> duration" where
  "dur_mul n unit = wrap64 (n * unit)"

definition time_sub :: "instant \<Rightarrow> instant \<Rightarrow> duration" where
  "time_sub t u = max (- (2 ^ 63)) (min (2 ^ 63 - 1) (t - u))"

lemma time_sub_pos_iff: "0 < time_sub t u \<longleftrightarrow> u < t"
  by (auto simp: time_sub_def)

lemma time_sub_nonpos_iff: "time_sub t u \<le> 0 \<longleftrightarrow> t \<le> u"
  using time_sub_pos_iff [of t u] by linarith

lemma time_sub_le: "u \<le> t \<Longrightarrow> time_sub t u \<le> t - u"
  by (auto simp: time_sub_def)

text \<open>Go's integer division truncates towards zero.\<close>

definition quot :: "int \<Rightarrow> int \<Rightarrow> int" where
  "quot a b = sgn a * sgn b * (\<bar>a\<bar> div \<bar>b\<bar>)"

lemma quot_nonneg: "0 \<le> a \<Longrightarrow> 0 < b \<Longrightarrow> quot a b = a div b"
  by (cases "a = 0") (auto simp: quot_def)

section \<open>Errors\<close>

text \<open>
  The \<open>error\<close> values that reach the program. The sentinels keep the names of the source;
  \<open>PqError\<close> is \<open>*pq.Error\<close> with its SQLSTATE code and message; \<open>OtherErr\<close> is any other
  error of a library or of the network, with its text.
\<close>

datatype err =
    ErrNoRows
  | PqError string string
  | RedisNil
  | OtherErr string
  | ErrDuplicateEmail
  | ErrRefreshTokenNotFound
  | ErrInvalidCredentials
  | ErrInvalidLoginInput
  | ErrEmailAlreadyExists
  | ErrInvalidRefreshToken
  | ErrRefreshTokenReuseDetected
  | ErrInvalidToken
  | ErrNoCookie

fun err_text :: "err \<Rightarrow> string" where
  "err_text ErrNoRows = ''sql: no rows in result set''"
| "err_text (PqError code msg) = ''pq: '' @ msg"
| "err_text RedisNil = ''redis: nil''"
| "err_text (OtherErr msg) = msg"
| "err_text ErrDuplicateEmail = ''email already exists''"
| "err_text ErrRefreshTokenNotFound = ''refresh token not found''"
| "err_text ErrInvalidCredentials = ''invalid email or password''"
| "err_text ErrInvalidLoginInput = ''email and password are required''"
| "err_text ErrEmailAlreadyExists = ''email already exists''"
| "err_text ErrInvalidRefreshToken = ''invalid or expired refresh token''"
| "err_text ErrRefreshTokenReuseDetected =
     ''refresh token reuse detected; all active sessions have been revoked''"
| "err_text ErrInvalidToken = ''invalid or expired token''"
| "err_text ErrNoCookie = ''http: named cookie not present''"

text \<open>Results: a Go pair \<open>(value, err)\<close> is \<open>Inl\<close> of the error or \<open>Inr\<close> of the value.\<close>

definition is_ok :: "'e + 'a \<Rightarrow> bool" where
  "is_ok r = (case r of Inl _ \<Rightarrow> False | Inr _ \<Rightarrow> True)"

lemma is_ok_simps [simp]: "is_ok (Inr x)" "\<not> is_ok (Inl e)"
  by (simp_all add: is_ok_def)

lemma is_ok_iff: "is_ok r \<longleftrightarrow> (\<exists>x. r = Inr x)"
  by (cases r) auto

text \<open>A call that may fail, followed by the rest of the operation: what it did, and how it went on.\<close>

lemma call_cases:
  assumes "(case f of (Inl e, w1) \<Rightarrow> g e w1 | (Inr x, w1) \<Rightarrow> h x w1) = (res, w')"
  obtains e w1 where "f = (Inl e, w1)" and "g e w1 = (res, w')" | x w1 where "f = (Inr x, w1)" and "h x w1 = (res, w')"
  using assms by (cases f; cases "fst f") auto

lemma pair_call_cases:
  assumes "(case f of (Inl e, w1) \<Rightarrow> g e w1 | (Inr (x, y), w1) \<Rightarrow> h x y w1) = (res, w')"
  obtains e w1 where "f = (Inl e, w1)" and "g e w1 = (res, w')"
    | x y w1 where "f = (Inr (x, y), w1)" and "h x y w1 = (res, w')"
  using assms by (cases f; cases "fst f") auto

section \<open>Lists\<close>

lemma append_same_prefix_inj: "p @ s = p @ t \<longleftrightarrow> s = t"
  by simp

text \<open>Two lists that differ within their common length are not prefixes of a common list.\<close>

lemma differ_append_neq: "i < length p \<Longrightarrow> i < length q \<Longrightarrow> p ! i \<noteq> q ! i \<Longrightarrow> p @ s \<noteq> q @ t"
  by (metis nth_append)

lemma filter_map_same: "(\<And>x. P (f x) = P x) \<Longrightarrow> filter P (map f xs) = map f (filter P xs)"
  by (induction xs) auto

end
