(* ===== verification/Model.thy ===== *)
theory Model
  imports Auth_Prelude
begin

text \<open>
  \<open>internal/model\<close>: the structs the layers exchange, field for field. Where two structs
  share a field name the record field carries the initials of its struct (\<open>u_ID\<close> is
  \<open>User.ID\<close>, \<open>s_ID\<close> is \<open>Session.ID\<close>). A Go pointer that may be nil is an option.
\<close>

record user =
  u_ID :: string
  u_Email :: string
  u_HashedPassword :: string
  u_IsEmailVerified :: bool
  u_CreatedAt :: instant
  u_UpdatedAt :: instant

record request_metadata =
  UserAgent :: string
  IPAddress :: string
  DeviceName :: string

record session =
  s_ID :: string
  s_UserID :: string
  s_DeviceName :: string
  s_IPAddress :: string
  s_Status :: string
  s_CreatedAt :: instant
  s_LastUsedAt :: instant

record refresh_token =
  rt_Token :: string
  rt_UserID :: string
  rt_SessionID :: string
  rt_Status :: string
  rt_ExpiresAt :: instant
  rt_CreatedAt :: instant

text \<open>The metadata of an audit entry is a JSON object with string members, in key order.\<close>

type_synonym json_object = "(string \<times> string) list"

record audit_log =
  al_ID :: string
  al_UserID :: "string option"
  al_EventType :: string
  al_IPAddress :: string
  al_UserAgent :: string
  al_Metadata :: json_object
  al_CreatedAt :: instant

record credentials =  \<comment> \<open>\<open>LoginRequest\<close> and \<open>RegisterRequest\<close>\<close>
  cr_Email :: string
  cr_Password :: string

record token_response =  \<comment> \<open>\<open>LoginResponse\<close> and \<open>RefreshTokenResponse\<close>\<close>
  tr_Message :: string
  tr_AccessToken :: string
  tr_RefreshToken :: string
  tr_TokenType :: string
  tr_ExpiresIn :: int

record register_response =
  rr_Message :: string
  rr_UserID :: string
  rr_Email :: string
  rr_IsEmailVerified :: bool

record auth_identity =
  ai_UserID :: string
  ai_Email :: string

record message_response =  \<comment> \<open>\<open>LogoutResponse\<close> and \<open>SessionDeleteResponse\<close>\<close>
  mr_Message :: string

record sessions_response =
  Sessions :: "session list"

record api_error =
  ae_Code :: string
  ae_Message :: string

section \<open>JSON\<close>

text \<open>
  The values the handlers encode. A struct is encoded by its tags: \<open>RefreshToken\<close> has the tag
  \<open>-\<close> and is left out, \<open>request_id\<close> has \<open>omitempty\<close>, a nil slice is \<open>null\<close>. Map keys are sorted.
\<close>

datatype json =
    JNull
  | JStr string
  | JNum int
  | JBool bool
  | JTime instant
  | JArr "json list"
  | JObj "(string \<times> json) list"

definition token_json :: "token_response \<Rightarrow> json" where
  "token_json r =
     JObj [(''message'', JStr (tr_Message r)), (''access_token'', JStr (tr_AccessToken r)),
           (''token_type'', JStr (tr_TokenType r)), (''expires_in'', JNum (tr_ExpiresIn r))]"

definition register_json :: "register_response \<Rightarrow> json" where
  "register_json r =
     JObj [(''message'', JStr (rr_Message r)), (''user_id'', JStr (rr_UserID r)), (''email'', JStr (rr_Email r)),
           (''is_email_verified'', JBool (rr_IsEmailVerified r))]"

definition me_json :: "auth_identity \<Rightarrow> json" where
  "me_json i = JObj [(''user_id'', JStr (ai_UserID i)), (''email'', JStr (ai_Email i))]"

definition message_json :: "message_response \<Rightarrow> json" where
  "message_json r = JObj [(''message'', JStr (mr_Message r))]"

definition session_json :: "session \<Rightarrow> json" where
  "session_json s =
     JObj [(''session_id'', JStr (s_ID s)), (''user_id'', JStr (s_UserID s)), (''device_name'', JStr (s_DeviceName s)),
           (''ip_address'', JStr (s_IPAddress s)), (''status'', JStr (s_Status s)),
           (''created_at'', JTime (s_CreatedAt s)), (''last_used_at'', JTime (s_LastUsedAt s))]"

definition sessions_json :: "sessions_response \<Rightarrow> json" where
  "sessions_json r =
     JObj [(''sessions'', if Sessions r = [] then JNull else JArr (map session_json (Sessions r)))]"

definition error_json :: "api_error \<Rightarrow> string \<Rightarrow> json" where
  "error_json e requestID =
     JObj ([(''error'', JObj [(''code'', JStr (ae_Code e)), (''message'', JStr (ae_Message e))])]
           @ (if requestID = '''' then [] else [(''request_id'', JStr requestID)]))"

text \<open>The strings a JSON value contains, its keys aside.\<close>

fun json_strings :: "json \<Rightarrow> string list" where
  "json_strings (JStr s) = [s]"
| "json_strings (JArr xs) = concat (map json_strings xs)"
| "json_strings (JObj kvs) = concat (map (\<lambda>kv. json_strings (snd kv)) kvs)"
| "json_strings _ = []"

section \<open>Cookies\<close>

datatype same_site = SameSiteLaxMode | SameSiteStrictMode | SameSiteNoneMode

record cookie =
  c_Name :: string
  c_Value :: string
  c_Path :: string
  c_Domain :: string
  c_HttpOnly :: bool
  c_Secure :: bool
  c_SameSite :: same_site
  c_MaxAge :: int
  c_Expires :: "instant option"

end
