(* ===== verification/Go_Strings.thy ===== *)
theory Go_Strings
  imports Auth_Prelude
begin

text \<open>
  The functions of Go's \<open>strings\<close> and \<open>strconv\<close> packages the program calls. A Go string
  is a byte sequence, and so is a \<^typ>\<open>string\<close> here. The white-space runes and the
  ASCII case mapping are written out; the Unicode case tables, used only for a string
  with a byte above 127, are a parameter (\<open>unicode\<close>).
\<close>

section \<open>strings.TrimSpace\<close>

text \<open>The UTF-8 encodings of the runes with the property White\_Space.\<close>

definition go_spaces :: "string list" where
  "go_spaces =
     [[CHR 0x09], [CHR 0x0A], [CHR 0x0B], [CHR 0x0C], [CHR 0x0D], [CHR 0x20],
      [CHR 0xC2, CHR 0x85], [CHR 0xC2, CHR 0xA0], [CHR 0xE1, CHR 0x9A, CHR 0x80],
      [CHR 0xE2, CHR 0x80, CHR 0x80], [CHR 0xE2, CHR 0x80, CHR 0x81],
      [CHR 0xE2, CHR 0x80, CHR 0x82], [CHR 0xE2, CHR 0x80, CHR 0x83],
      [CHR 0xE2, CHR 0x80, CHR 0x84], [CHR 0xE2, CHR 0x80, CHR 0x85],
      [CHR 0xE2, CHR 0x80, CHR 0x86], [CHR 0xE2, CHR 0x80, CHR 0x87],
      [CHR 0xE2, CHR 0x80, CHR 0x88], [CHR 0xE2, CHR 0x80, CHR 0x89],
      [CHR 0xE2, CHR 0x80, CHR 0x8A], [CHR 0xE2, CHR 0x80, CHR 0xA8],
      [CHR 0xE2, CHR 0x80, CHR 0xA9], [CHR 0xE2, CHR 0x80, CHR 0xAF],
      [CHR 0xE2, CHR 0x81, CHR 0x9F], [CHR 0xE3, CHR 0x80, CHR 0x80]]"

definition has_prefix :: "string \<Rightarrow> string \<Rightarrow> bool" where
  "has_prefix s p = (take (length p) s = p)"

definition space_len :: "string list \<Rightarrow> string \<Rightarrow> nat" where
  "space_len ps s = (case find (has_prefix s) ps of None \<Rightarrow> 0 | Some p \<Rightarrow> length p)"

function strip_front :: "string list \<Rightarrow> string \<Rightarrow> string" where
  "strip_front ps s =
     (if s = [] \<or> space_len ps s = 0 then s else strip_front ps (drop (space_len ps s) s))"
  by pat_completeness auto
termination
  by (relation "measure (\<lambda>(ps, s). length s)") auto

declare strip_front.simps [simp del]

definition trim_left :: "string \<Rightarrow> string" where
  "trim_left s = strip_front go_spaces s"

definition trim_right :: "string \<Rightarrow> string" where
  "trim_right s = rev (strip_front (map rev go_spaces) (rev s))"

definition trim_space :: "string \<Rightarrow> string" where
  "trim_space s = trim_right (trim_left s)"

subsection \<open>What stripping leaves\<close>

lemma space_len_0_iff: "[] \<notin> set ps \<Longrightarrow> space_len ps s = 0 \<longleftrightarrow> (\<forall>p \<in> set ps. \<not> has_prefix s p)"
  by (auto simp: space_len_def find_None_iff find_Some_iff split: option.splits) (metis nth_mem)

lemma strip_front_stops: "strip_front ps s = [] \<or> space_len ps (strip_front ps s) = 0"
proof (induction ps s rule: strip_front.induct)
  case (1 ps s)
  then show ?case
    by (cases "s = [] \<or> space_len ps s = 0") (auto simp: strip_front.simps [of ps s])
qed

lemma strip_front_id: "space_len ps s = 0 \<Longrightarrow> strip_front ps s = s"
  by (simp add: strip_front.simps)

lemma strip_front_Nil [simp]: "strip_front ps [] = []"
  by (simp add: strip_front.simps)

lemma strip_front_idem [simp]: "strip_front ps (strip_front ps s) = strip_front ps s"
  using strip_front_stops [of ps s] strip_front_id by fastforce

lemma strip_front_suffix: "\<exists>p. s = p @ strip_front ps s"
proof (induction ps s rule: strip_front.induct)
  case (1 ps s)
  show ?case
  proof (cases "s = [] \<or> space_len ps s = 0")
    case True
    then show ?thesis by (auto simp: strip_front.simps [of ps s])
  next
    case False
    with "1" obtain p where "drop (space_len ps s) s = p @ strip_front ps (drop (space_len ps s) s)"
      by blast
    moreover have "strip_front ps s = strip_front ps (drop (space_len ps s) s)"
      using False by (subst strip_front.simps) simp
    ultimately have "s = (take (space_len ps s) s @ p) @ strip_front ps s"
      by (metis append.assoc append_take_drop_id)
    then show ?thesis by blast
  qed
qed

lemma trim_right_prefix: "\<exists>q. s = trim_right s @ q"
proof -
  obtain p where "rev s = p @ strip_front (map rev go_spaces) (rev s)"
    using strip_front_suffix by blast
  then have "s = rev (strip_front (map rev go_spaces) (rev s)) @ rev p"
    by (metis rev_append rev_rev_ident)
  then show ?thesis by (auto simp: trim_right_def)
qed

lemma has_prefix_append: "has_prefix s p \<Longrightarrow> has_prefix (s @ t) p"
  unfolding has_prefix_def
  by (metis append.assoc append_eq_conv_conj append_take_drop_id)

lemma Nil_notin_spaces: "[] \<notin> set go_spaces" "[] \<notin> set (map rev go_spaces)"
  by (simp_all add: go_spaces_def)

lemma trim_left_kept_by_prefix:
  assumes "space_len go_spaces (s @ t) = 0"
  shows "space_len go_spaces s = 0"
  using assms has_prefix_append by (auto simp: space_len_0_iff Nil_notin_spaces)

text \<open>Trimming twice is trimming once: the service trims what the handler already trimmed.\<close>

lemma trim_space_idem [simp]: "trim_space (trim_space s) = trim_space s"
proof -
  let ?l = "trim_left s"
  obtain q where q: "?l = trim_right ?l @ q" using trim_right_prefix by blast
  have "trim_left (trim_right ?l) = trim_right ?l"
  proof (cases "?l = []")
    case True
    then show ?thesis by (simp add: trim_left_def trim_right_def)
  next
    case False
    then have "space_len go_spaces (trim_right ?l @ q) = 0"
      using strip_front_stops [of go_spaces s] q by (auto simp: trim_left_def)
    then show ?thesis
      using trim_left_kept_by_prefix strip_front_id trim_left_def by auto
  qed
  moreover have "trim_right (trim_right ?l) = trim_right ?l"
    by (simp add: trim_right_def)
  ultimately show ?thesis by (simp add: trim_space_def)
qed

lemma trim_space_Nil [simp]: "trim_space [] = []"
  by (simp add: trim_space_def trim_left_def trim_right_def)

lemma set_trim_space: "set (trim_space s) \<subseteq> set s"
proof -
  obtain p where "s = p @ trim_left s"
    using strip_front_suffix trim_left_def by metis
  moreover obtain q where "trim_left s = trim_space s @ q"
    using trim_right_prefix trim_space_def by metis
  ultimately show ?thesis by (metis Un_iff set_append subsetI)
qed

text \<open>
  A string of printable ASCII characters without blanks is not changed by trimming: a
  base64url token or a UUID survives every \<open>TrimSpace\<close> on its way.
\<close>

definition graphic :: "char \<Rightarrow> bool" where
  "graphic c = (32 < (of_char c :: nat) \<and> (of_char c :: nat) < 127)"

lemma graphic_no_space: "list_all graphic s \<Longrightarrow> s \<noteq> [] \<Longrightarrow> p \<in> set go_spaces \<Longrightarrow> \<not> has_prefix s p"
  by (cases s) (auto simp: go_spaces_def has_prefix_def graphic_def)

lemma graphic_no_rspace:
  "list_all graphic s \<Longrightarrow> s \<noteq> [] \<Longrightarrow> p \<in> set (map rev go_spaces) \<Longrightarrow> \<not> has_prefix s p"
  by (cases s) (auto simp: go_spaces_def has_prefix_def graphic_def)

lemma trim_space_graphic: "list_all graphic s \<Longrightarrow> trim_space s = s"
proof (cases "s = []")
  case False
  assume g: "list_all graphic s"
  have "space_len go_spaces s = 0"
    using graphic_no_space [OF g False] by (auto simp: space_len_0_iff Nil_notin_spaces)
  moreover have "space_len (map rev go_spaces) (rev s) = 0"
    using graphic_no_rspace [of "rev s"] g False
    by (subst space_len_0_iff) (auto simp: Nil_notin_spaces)
  ultimately show ?thesis
    by (simp add: trim_space_def trim_left_def trim_right_def strip_front_id)
qed simp

section \<open>Case mapping\<close>

text \<open>The Unicode tables of the Go library, for strings that are not ASCII.\<close>

record unicode =
  uni_lower :: "string \<Rightarrow> string"
  uni_upper :: "string \<Rightarrow> string"
  uni_equal_fold :: "string \<Rightarrow> string \<Rightarrow> bool"

definition is_ascii :: "string \<Rightarrow> bool" where
  "is_ascii s = list_all (\<lambda>c. (of_char c :: nat) < 128) s"

definition ascii_lower :: "char \<Rightarrow> char" where
  "ascii_lower c =
     (if 65 \<le> (of_char c :: nat) \<and> (of_char c :: nat) \<le> 90 then char_of ((of_char c :: nat) + 32) else c)"

definition ascii_upper :: "char \<Rightarrow> char" where
  "ascii_upper c =
     (if 97 \<le> (of_char c :: nat) \<and> (of_char c :: nat) \<le> 122 then char_of ((of_char c :: nat) - 32) else c)"

definition to_lower :: "unicode \<Rightarrow> string \<Rightarrow> string" where
  "to_lower U s = (if is_ascii s then map ascii_lower s else uni_lower U s)"

definition to_upper :: "unicode \<Rightarrow> string \<Rightarrow> string" where
  "to_upper U s = (if is_ascii s then map ascii_upper s else uni_upper U s)"

definition equal_fold :: "unicode \<Rightarrow> string \<Rightarrow> string \<Rightarrow> bool" where
  "equal_fold U s t =
     (if is_ascii s \<and> is_ascii t then map ascii_lower s = map ascii_lower t
      else uni_equal_fold U s t)"

lemma of_char_ascii_lower:
  "(of_char (ascii_lower c) :: nat) =
     (if 65 \<le> (of_char c :: nat) \<and> (of_char c :: nat) \<le> 90 then of_char c + 32 else of_char c)"
  by (simp add: ascii_lower_def)

lemma ascii_lower_idem [simp]: "ascii_lower (ascii_lower c) = ascii_lower c"
  unfolding ascii_lower_def by auto

lemma is_ascii_map_lower [simp]: "is_ascii s \<Longrightarrow> is_ascii (map ascii_lower s)"
  by (auto simp: is_ascii_def list_all_iff of_char_ascii_lower)

lemma to_lower_idem [simp]: "is_ascii s \<Longrightarrow> to_lower U (to_lower U s) = to_lower U s"
  by (simp add: to_lower_def)

lemma is_ascii_trim: "is_ascii s \<Longrightarrow> is_ascii (trim_space s)"
  using set_trim_space [of s] by (auto simp: is_ascii_def list_all_iff)

text \<open>Lowering keeps every byte that a white-space rune can start or end with, so it
  commutes with trimming on ASCII strings.\<close>

lemma ascii_lower_eq_iff:
  assumes "of_char d < (65::nat) \<or> (90 < (of_char d :: nat) \<and> of_char d < (97::nat)) \<or> 122 < (of_char d :: nat)"
  shows "ascii_lower c = d \<longleftrightarrow> c = d"
proof -
  have "ascii_lower c = d \<longleftrightarrow> (of_char (ascii_lower c) :: nat) = of_char d"
    by (metis of_char_eq_iff)
  also have "\<dots> \<longleftrightarrow> (of_char c :: nat) = of_char d"
    using assms by (auto simp: of_char_ascii_lower)
  finally show ?thesis by (metis of_char_eq_iff)
qed

definition case_free :: "string list \<Rightarrow> bool" where
  "case_free ps = list_all (list_all (\<lambda>d. ascii_lower d = d \<and> (of_char d < (65::nat) \<or> 122 < (of_char d :: nat)))) ps"

lemma case_free_rev: "case_free (map rev ps) = case_free ps"
  by (simp add: case_free_def list_all_iff)

lemma case_free_go_spaces: "case_free go_spaces"
  unfolding case_free_def go_spaces_def by (simp add: ascii_lower_def)

lemma case_free_spaces: "case_free go_spaces" "case_free (map rev go_spaces)"
  by (simp_all only: case_free_rev case_free_go_spaces)

lemma map_lower_eq_iff:
  "list_all (\<lambda>d. of_char d < (65::nat) \<or> 122 < (of_char d :: nat)) p \<Longrightarrow> map ascii_lower s = p \<longleftrightarrow> s = p"
proof (induction p arbitrary: s)
  case (Cons d p)
  have "ascii_lower c = d \<longleftrightarrow> c = d" for c
    by (rule ascii_lower_eq_iff) (use Cons.prems in auto)
  moreover have "\<And>t. map ascii_lower t = p \<longleftrightarrow> t = p" using Cons by simp
  ultimately show ?case by (cases s) simp_all
qed simp

lemma has_prefix_lower:
  assumes "case_free ps" and "p \<in> set ps"
  shows "has_prefix (map ascii_lower s) p \<longleftrightarrow> has_prefix s p"
proof -
  have "list_all (\<lambda>d. of_char d < (65::nat) \<or> 122 < (of_char d :: nat)) p"
    using assms by (auto simp: case_free_def list_all_iff)
  then show ?thesis by (simp add: has_prefix_def take_map map_lower_eq_iff)
qed

lemma space_len_lower: "case_free ps \<Longrightarrow> space_len ps (map ascii_lower s) = space_len ps s"
proof -
  assume cf: "case_free ps"
  have "find (has_prefix (map ascii_lower s)) ps = find (has_prefix s) ps"
    by (rule find_cong) (auto simp: has_prefix_lower [OF cf])
  then show ?thesis by (simp add: space_len_def)
qed

lemma strip_front_lower:
  "case_free ps \<Longrightarrow> strip_front ps (map ascii_lower s) = map ascii_lower (strip_front ps s)"
proof (induction ps s rule: strip_front.induct)
  case (1 ps s)
  then show ?case
    by (auto simp: strip_front.simps [of ps s] strip_front.simps [of ps "map ascii_lower s"]
        space_len_lower drop_map)
qed

lemma trim_space_lower: "trim_space (map ascii_lower s) = map ascii_lower (trim_space s)"
  by (simp add: trim_space_def trim_left_def trim_right_def strip_front_lower case_free_spaces
      rev_map)

text \<open>The normal form of an address: what registration stores and what login looks up.\<close>

lemma trim_to_lower: "is_ascii s \<Longrightarrow> trim_space (to_lower U s) = to_lower U (trim_space s)"
  by (simp add: to_lower_def trim_space_lower is_ascii_trim)

section \<open>Prefixes, splitting and joining\<close>

definition trim_prefix :: "string \<Rightarrow> string \<Rightarrow> string" where
  "trim_prefix s p = (if has_prefix s p then drop (length p) s else s)"

lemma has_prefix_self_append [simp]: "has_prefix (p @ s) p"
  by (simp add: has_prefix_def)

lemma trim_prefix_append [simp]: "trim_prefix (p @ s) p = s"
  by (simp add: trim_prefix_def)

text \<open>\<open>strings.Split\<close> and \<open>strings.SplitN(s, sep, 2)\<close> for a one-byte separator, \<open>strings.Join\<close>.\<close>

fun split_on :: "char \<Rightarrow> string \<Rightarrow> string list" where
  "split_on c [] = [[]]"
| "split_on c (x # xs) =
     (if x = c then [] # split_on c xs
      else (case split_on c xs of [] \<Rightarrow> [[x]] | y # ys \<Rightarrow> (x # y) # ys))"

definition split_n2 :: "char \<Rightarrow> string \<Rightarrow> string list" where
  "split_n2 c s =
     (if c \<in> set s then [takeWhile (\<lambda>x. x \<noteq> c) s, drop 1 (dropWhile (\<lambda>x. x \<noteq> c) s)] else [s])"

fun join :: "string \<Rightarrow> string list \<Rightarrow> string" where
  "join sep [] = []"
| "join sep [x] = x"
| "join sep (x # y # ys) = x @ sep @ join sep (y # ys)"

lemma split_on_not_Nil [simp]: "split_on c s \<noteq> []"
  by (induction s) (auto split: list.splits)

lemma split_on_sep_free: "t \<in> set (split_on c s) \<Longrightarrow> c \<notin> set t"
proof (induction s arbitrary: t)
  case (Cons x xs)
  then show ?case by (auto split: if_splits list.splits)
qed simp

lemma split_on_subset: "t \<in> set (split_on c s) \<Longrightarrow> set t \<subseteq> set s"
proof (induction s arbitrary: t)
  case (Cons x xs)
  then show ?case by (fastforce split: if_splits list.splits)
qed simp

lemma hd_split_on: "hd (split_on c s) = takeWhile (\<lambda>x. x \<noteq> c) s"
  by (induction s) (auto split: list.splits)

lemma split_on_free: "c \<notin> set s \<Longrightarrow> split_on c s = [s]"
  by (induction s) auto

lemma split_on_append: "c \<notin> set s \<Longrightarrow> split_on c (s @ c # t) = s # split_on c t"
  by (induction s) auto

lemma split_on_join: "xs \<noteq> [] \<Longrightarrow> \<forall>x \<in> set xs. c \<notin> set x \<Longrightarrow> split_on c (join [c] xs) = xs"
proof (induction "[c]" xs rule: join.induct)
  case (3 x y ys)
  then show ?case by (simp add: split_on_append)
qed (auto simp: split_on_free)

section \<open>strconv\<close>

definition is_digit :: "char \<Rightarrow> bool" where
  "is_digit c = (48 \<le> (of_char c :: nat) \<and> (of_char c :: nat) \<le> 57)"

definition digit_val :: "char \<Rightarrow> nat" where
  "digit_val c = of_char c - 48"

definition digit_char :: "nat \<Rightarrow> char" where
  "digit_char n = char_of (48 + n)"

definition digits_val :: "string \<Rightarrow> nat" where
  "digits_val s = foldl (\<lambda>a c. a * 10 + digit_val c) 0 s"

text \<open>\<open>strconv.Atoi\<close>: an optional sign, at least one digit, nothing else, and the range of \<open>int\<close>.\<close>

definition atoi :: "string \<Rightarrow> int option" where
  "atoi s =
     (let neg = (take 1 s = ''-'');
          ds = (if neg \<or> take 1 s = ''+'' then drop 1 s else s)
      in if ds = [] \<or> \<not> list_all is_digit ds then None
         else let v = (if neg then - int (digits_val ds) else int (digits_val ds))
              in if v \<in> int64_range then Some v else None)"

fun nat_digits :: "nat \<Rightarrow> string" where
  "nat_digits n = (if n < 10 then [digit_char n] else nat_digits (n div 10) @ [digit_char (n mod 10)])"

declare nat_digits.simps [simp del]

definition itoa :: "int \<Rightarrow> string" where
  "itoa i = (if i < 0 then ''-'' @ nat_digits (nat (- i)) else nat_digits (nat i))"

lemma is_digit_digit_char [simp]: "n < 10 \<Longrightarrow> is_digit (digit_char n)"
  by (simp add: is_digit_def digit_char_def)

lemma digit_val_digit_char [simp]: "n < 10 \<Longrightarrow> digit_val (digit_char n) = n"
  by (simp add: digit_val_def digit_char_def)

lemma digits_val_append: "digits_val (s @ [c]) = digits_val s * 10 + digit_val c"
  by (simp add: digits_val_def)

lemma nat_digits_props: "nat_digits n \<noteq> [] \<and> list_all is_digit (nat_digits n) \<and> digits_val (nat_digits n) = n"
proof (induction n rule: nat_digits.induct)
  case (1 n)
  then show ?case
    by (subst (1 2 3) nat_digits.simps) (auto simp: digits_val_append digits_val_def)
qed

lemma nat_digits_hd: "take 1 (nat_digits n) \<noteq> ''-'' \<and> take 1 (nat_digits n) \<noteq> ''+''"
  using nat_digits_props [of n] by (cases "nat_digits n") (auto simp: is_digit_def)

lemma atoi_itoa: "i \<in> int64_range \<Longrightarrow> atoi (itoa i) = Some i"
  using nat_digits_props [of "nat i"] nat_digits_props [of "nat (- i)"] nat_digits_hd [of "nat i"]
  by (auto simp: atoi_def itoa_def Let_def)

text \<open>\<open>strconv.ParseBool\<close>.\<close>

definition parse_bool :: "string \<Rightarrow> bool option" where
  "parse_bool s =
     (if s \<in> set [''1'', ''t'', ''T'', ''TRUE'', ''true'', ''True''] then Some True
      else if s \<in> set [''0'', ''f'', ''F'', ''FALSE'', ''false'', ''False''] then Some False
      else None)"

end
