(* ===== verification/Environment.thy ===== *)
theory Environment
  imports Model Go_Strings
begin

text \<open>
  What the program meets outside itself. Redis, bcrypt, the JWT library, the UUID and
  random generators, the clock, the JSON codec and the type input functions of PostgreSQL
  are parameters: fields of the record \<open>env\<close>. Everything that changes is in the record
  \<open>world\<close>: the contents of Redis (of a type of the client's choosing), the three SQL
  tables, and a counter \<open>tick\<close> that every external call advances, so that two readings
  of the clock, two UUIDs or two failures are independent of each other.

  The laws at the end of each section (\<open>redis_laws\<close>, \<open>codec_laws\<close>, \<open>clock_laws\<close>) state
  the documented behaviour the theorems rely on; \<open>mem_redis\<close> is a Redis that obeys them.
\<close>

section \<open>Redis\<close>

datatype redis_cmd =
    GET string
  | SET string string duration
  | SADD string string
  | SMEMBERS string
  | INCR string
  | EXPIRE string duration
  | TTL string

datatype redis_reply =
    ROk
  | RStr string
  | RInt int
  | RList "string list"
  | RDur duration

fun reply_str :: "redis_reply \<Rightarrow> string" where
  "reply_str (RStr s) = s"
| "reply_str _ = ''''"

fun reply_int :: "redis_reply \<Rightarrow> int" where
  "reply_int (RInt i) = i"
| "reply_int _ = 0"

fun reply_list :: "redis_reply \<Rightarrow> string list" where
  "reply_list (RList xs) = xs"
| "reply_list _ = []"

fun reply_dur :: "redis_reply \<Rightarrow> duration" where
  "reply_dur (RDur d) = d"
| "reply_dur _ = 0"

text \<open>
  The keyspace as the Redis documentation describes it: a value of one of three types
  under each key, with the instant at which the key expires, if it does.
\<close>

datatype redis_val = VStr string | VInt int | VSet "string list"

type_synonym keyspace = "string \<Rightarrow> (redis_val \<times> instant option) option"

definition live :: "instant \<Rightarrow> keyspace \<Rightarrow> string \<Rightarrow> redis_val option" where
  "live t ks k =
     (case ks k of None \<Rightarrow> None
      | Some (v, dl) \<Rightarrow> (case dl of None \<Rightarrow> Some v | Some d \<Rightarrow> if t < d then Some v else None))"

definition deadline :: "keyspace \<Rightarrow> string \<Rightarrow> instant option" where
  "deadline ks k = (case ks k of None \<Rightarrow> None | Some (v, dl) \<Rightarrow> dl)"

text \<open>The client sends a lifetime in milliseconds to SET and in seconds to EXPIRE, at least one.\<close>

definition px_ttl :: "duration \<Rightarrow> duration" where
  "px_ttl d = (if 0 < d \<and> d < millisecond then millisecond else quot d millisecond * millisecond)"

definition ex_ttl :: "duration \<Rightarrow> duration" where
  "ex_ttl d = (if 0 < d \<and> d < second then second else quot d second * second)"

fun redis_effect :: "instant \<Rightarrow> redis_cmd \<Rightarrow> keyspace \<Rightarrow> keyspace" where
  "redis_effect t (GET k) ks = ks"
| "redis_effect t (SMEMBERS k) ks = ks"
| "redis_effect t (TTL k) ks = ks"
| "redis_effect t (SET k v ttl) ks = ks(k \<mapsto> (VStr v, Some (t + px_ttl ttl)))"
| "redis_effect t (SADD k m) ks =
     (case live t ks k of
        Some (VSet ms) \<Rightarrow> ks(k \<mapsto> (VSet (if m \<in> set ms then ms else ms @ [m]), deadline ks k))
      | _ \<Rightarrow> ks(k \<mapsto> (VSet [m], None)))"
| "redis_effect t (INCR k) ks =
     (case live t ks k of
        Some (VInt n) \<Rightarrow> ks(k \<mapsto> (VInt (n + 1), deadline ks k))
      | _ \<Rightarrow> ks(k \<mapsto> (VInt 1, None)))"
| "redis_effect t (EXPIRE k d) ks =
     (case live t ks k of
        None \<Rightarrow> ks
      | Some v \<Rightarrow> if ex_ttl d \<le> 0 then ks(k := None) else ks(k \<mapsto> (v, Some (t + ex_ttl d))))"

fun redis_answers :: "instant \<Rightarrow> redis_cmd \<Rightarrow> keyspace \<Rightarrow> redis_reply \<Rightarrow> bool" where
  "redis_answers t (GET k) ks r =
     (case live t ks k of Some (VStr s) \<Rightarrow> r = RStr s | Some (VInt n) \<Rightarrow> r = RStr (itoa n) | _ \<Rightarrow> False)"
| "redis_answers t (SET k v ttl) ks r = (r = ROk)"
| "redis_answers t (SADD k m) ks r =
     (case live t ks k of
        None \<Rightarrow> r = RInt 1
      | Some (VSet ms) \<Rightarrow> r = RInt (if m \<in> set ms then 0 else 1)
      | _ \<Rightarrow> False)"
| "redis_answers t (SMEMBERS k) ks r =
     (case live t ks k of
        None \<Rightarrow> r = RList []
      | Some (VSet ms) \<Rightarrow> (case r of RList xs \<Rightarrow> set xs = set ms \<and> distinct xs | _ \<Rightarrow> False)
      | _ \<Rightarrow> False)"
| "redis_answers t (INCR k) ks r =
     (case live t ks k of None \<Rightarrow> r = RInt 1 | Some (VInt n) \<Rightarrow> r = RInt (n + 1) | _ \<Rightarrow> False)"
| "redis_answers t (EXPIRE k d) ks r = (r = RInt (if live t ks k = None then 0 else 1))"
| "redis_answers t (TTL k) ks r =
     (case live t ks k of
        None \<Rightarrow> r = RDur (- 2)
      | Some _ \<Rightarrow>
          (case deadline ks k of
             None \<Rightarrow> r = RDur (- 1)
           | Some d \<Rightarrow> (case r of RDur x \<Rightarrow> 0 \<le> x \<and> x < d - t + second \<and> d - t - second < x | _ \<Rightarrow> False)))"

text \<open>A command that Redis refuses with WRONGTYPE: SADD on a key that is not a set.\<close>

fun well_typed :: "instant \<Rightarrow> keyspace \<Rightarrow> redis_cmd \<Rightarrow> bool" where
  "well_typed t ks (SADD k m) =
     (case live t ks k of None \<Rightarrow> True | Some (VSet ms) \<Rightarrow> True | _ \<Rightarrow> False)"
| "well_typed t ks _ = True"

text \<open>
  The client: \<open>r_do\<close> runs one command, \<open>r_tx\<close> a \<open>TxPipeline\<close> (MULTI, the commands, EXEC),
  both at a given instant of the server's clock. \<open>r_keys\<close> reads the keyspace off the state;
  the program does not call it.
\<close>

record 'r redis_client =
  r_do :: "instant \<Rightarrow> redis_cmd \<Rightarrow> 'r \<Rightarrow> (err + redis_reply) \<times> 'r"
  r_tx :: "instant \<Rightarrow> redis_cmd list \<Rightarrow> 'r \<Rightarrow> (err + unit) \<times> 'r"
  r_keys :: "'r \<Rightarrow> keyspace"

text \<open>Errors of a library are never the program's own sentinels.\<close>

fun external :: "err \<Rightarrow> bool" where
  "external (OtherErr _) = True"
| "external (PqError _ _) = True"
| "external RedisNil = True"
| "external _ = False"

text \<open>
  The documented behaviour. A command that succeeds has its effect and its answer; one that
  fails was either not executed or its reply was lost; \<open>redis.Nil\<close> is the answer to a GET of
  a key that is not there. EXEC is atomic: a transaction of well-typed commands takes
  effect as a whole or not at all.
\<close>

definition redis_laws :: "'r redis_client \<Rightarrow> bool" where
  "redis_laws R \<longleftrightarrow>
     (\<forall>t c r rep r'. r_do R t c r = (Inr rep, r') \<longrightarrow>
        redis_answers t c (r_keys R r) rep \<and> r_keys R r' = redis_effect t c (r_keys R r))
   \<and> (\<forall>t c r e r'. r_do R t c r = (Inl e, r') \<longrightarrow>
        external e \<and> r_keys R r' \<in> {r_keys R r, redis_effect t c (r_keys R r)}
        \<and> (e = RedisNil \<longrightarrow> (\<exists>k. c = GET k \<and> live t (r_keys R r) k = None)))
   \<and> (\<forall>t cs r r'. r_tx R t cs r = (Inr (), r') \<longrightarrow>
        r_keys R r' = fold (redis_effect t) cs (r_keys R r))
   \<and> (\<forall>t cs r e r'. r_tx R t cs r = (Inl e, r') \<longrightarrow> list_all (well_typed t (r_keys R r)) cs \<longrightarrow>
        external e \<and> r_keys R r' \<in> {r_keys R r, fold (redis_effect t) cs (r_keys R r)})"

text \<open>A Redis in which nothing ever fails, for properties of the good case.\<close>

definition redis_up :: "'r redis_client \<Rightarrow> bool" where
  "redis_up R \<longleftrightarrow>
     (\<forall>t c r. is_ok (fst (r_do R t c r)) \<or> fst (r_do R t c r) = Inl RedisNil
        \<or> (\<nexists>rep. redis_answers t c (r_keys R r) rep))
   \<and> (\<forall>t cs r. list_all (well_typed t (r_keys R r)) cs \<longrightarrow> is_ok (fst (r_tx R t cs r)))"

subsection \<open>A reference client\<close>

fun mem_reply :: "instant \<Rightarrow> redis_cmd \<Rightarrow> keyspace \<Rightarrow> redis_reply option" where
  "mem_reply t (GET k) ks =
     (case live t ks k of Some (VStr s) \<Rightarrow> Some (RStr s) | Some (VInt n) \<Rightarrow> Some (RStr (itoa n)) | _ \<Rightarrow> None)"
| "mem_reply t (SET k v ttl) ks = Some ROk"
| "mem_reply t (SADD k m) ks =
     (case live t ks k of
        None \<Rightarrow> Some (RInt 1)
      | Some (VSet ms) \<Rightarrow> Some (RInt (if m \<in> set ms then 0 else 1))
      | _ \<Rightarrow> None)"
| "mem_reply t (SMEMBERS k) ks =
     (case live t ks k of None \<Rightarrow> Some (RList []) | Some (VSet ms) \<Rightarrow> Some (RList (remdups ms)) | _ \<Rightarrow> None)"
| "mem_reply t (INCR k) ks =
     (case live t ks k of None \<Rightarrow> Some (RInt 1) | Some (VInt n) \<Rightarrow> Some (RInt (n + 1)) | _ \<Rightarrow> None)"
| "mem_reply t (EXPIRE k d) ks = Some (RInt (if live t ks k = None then 0 else 1))"
| "mem_reply t (TTL k) ks =
     (case live t ks k of
        None \<Rightarrow> Some (RDur (- 2))
      | Some _ \<Rightarrow> (case deadline ks k of None \<Rightarrow> Some (RDur (- 1)) | Some d \<Rightarrow> Some (RDur (d - t))))"

definition mem_do :: "instant \<Rightarrow> redis_cmd \<Rightarrow> keyspace \<Rightarrow> (err + redis_reply) \<times> keyspace" where
  "mem_do t c ks =
     (case mem_reply t c ks of
        Some r \<Rightarrow> (Inr r, redis_effect t c ks)
      | None \<Rightarrow> (Inl (case c of GET k \<Rightarrow> if live t ks k = None then RedisNil else OtherErr ''WRONGTYPE''
                      | _ \<Rightarrow> OtherErr ''WRONGTYPE''), ks))"

definition mem_tx :: "instant \<Rightarrow> redis_cmd list \<Rightarrow> keyspace \<Rightarrow> (err + unit) \<times> keyspace" where
  "mem_tx t cs ks = (Inr (), fold (redis_effect t) cs ks)"

definition mem_redis :: "keyspace redis_client" where
  "mem_redis = \<lparr>r_do = mem_do, r_tx = mem_tx, r_keys = (\<lambda>ks. ks)\<rparr>"

lemma live_deadline: "live t ks k = Some v \<Longrightarrow> deadline ks k = Some d \<Longrightarrow> t < d"
  by (auto simp: live_def deadline_def split: option.splits prod.splits if_splits)

lemma mem_reply_answers: "mem_reply t c ks = Some r \<Longrightarrow> redis_answers t c ks r"
  by (cases c) (auto split: option.splits redis_val.splits dest: live_deadline)

lemma mem_reply_complete: "redis_answers t c ks rep \<Longrightarrow> \<exists>r. mem_reply t c ks = Some r"
  by (cases c) (auto split: option.splits redis_val.splits)

lemma mem_redis_laws: "redis_laws mem_redis"
  unfolding redis_laws_def mem_redis_def
  by (auto simp: mem_do_def mem_tx_def mem_reply_answers
      split: option.splits redis_cmd.splits if_splits redis_val.splits)

lemma mem_redis_up: "redis_up mem_redis"
  unfolding redis_up_def mem_redis_def mem_do_def mem_tx_def
  by (auto split: option.splits dest: mem_reply_complete)

end
