(* ===== verification/World.thy ===== *)
theory World
  imports Environment
begin

text \<open>
  The rest of the outside: the JWT library, the world the handlers share, the record of
  parameters \<open>env\<close>, and the few primitive calls (read the clock, draw a UUID, run a Redis
  command, run an SQL statement) every component is written with.
\<close>

section \<open>golang-jwt\<close>

datatype jwt_value = JString string | JInt int | JStrings "string list" | JOther

type_synonym map_claims = "string \<Rightarrow> jwt_value option"

datatype signing_method = SigningMethodHMAC string | SigningMethodOther string

fun method_alg :: "signing_method \<Rightarrow> string" where
  "method_alg (SigningMethodHMAC alg) = alg"
| "method_alg (SigningMethodOther alg) = alg"

datatype jwt_claims = MapClaims map_claims | OtherClaims

record jwt_token =
  jt_Valid :: bool
  jt_Claims :: jwt_claims

record jwt_options =
  opt_ValidMethods :: "string list"
  opt_Issuer :: string
  opt_Audience :: string
  opt_Leeway :: duration

text \<open>
  \<open>SignedString\<close> takes the method, the claims and the key; \<open>Parse\<close> the options, the key
  function (which sees the method of the token's header), the present and the token.
\<close>

record jwt_lib =
  jwt_SignedString :: "signing_method \<Rightarrow> map_claims \<Rightarrow> string \<Rightarrow> err + string"
  jwt_Parse :: "jwt_options \<Rightarrow> (signing_method \<Rightarrow> err + string) \<Rightarrow> instant \<Rightarrow> string \<Rightarrow> err + jwt_token"
  jwt_GetSubject :: "map_claims \<Rightarrow> err + string"

text \<open>
  Signing and parsing back: with a key function that yields the signing key for the
  method, an accepted method, the expected issuer and audience, and the present between
  \<open>nbf\<close> and \<open>exp\<close> up to the leeway, the claims come back, string members unchanged. As in the
  library a date of 0 counts as absent, and an empty issuer or audience is not checked. The
  claims travel as JSON: \<open>jwt_SignedString\<close> is taken to refuse members that JSON would alter
  (strings that are not UTF-8), which the program does not produce.
\<close>

definition claims_timely :: "jwt_options \<Rightarrow> map_claims \<Rightarrow> instant \<Rightarrow> bool" where
  "claims_timely opts c t \<longleftrightarrow>
     (case c ''nbf'' of Some (JInt n) \<Rightarrow> n = 0 \<or> n * second - opt_Leeway opts \<le> t | _ \<Rightarrow> True)
   \<and> (case c ''exp'' of Some (JInt n) \<Rightarrow> n = 0 \<or> t < n * second + opt_Leeway opts | _ \<Rightarrow> True)"

definition claims_addressed :: "jwt_options \<Rightarrow> map_claims \<Rightarrow> bool" where
  "claims_addressed opts c \<longleftrightarrow>
     (opt_Issuer opts = '''' \<or> c ''iss'' = Some (JString (opt_Issuer opts)))
   \<and> (opt_Audience opts = '''' \<or> (case c ''aud'' of Some (JStrings auds) \<Rightarrow> opt_Audience opts \<in> set auds
      | Some (JString aud) \<Rightarrow> aud = opt_Audience opts | _ \<Rightarrow> False))"

definition string_members_agree :: "map_claims \<Rightarrow> map_claims \<Rightarrow> bool" where
  "string_members_agree c d \<longleftrightarrow> (\<forall>k s. c k = Some (JString s) \<longleftrightarrow> d k = Some (JString s))"

definition jwt_laws :: "jwt_lib \<Rightarrow> bool" where
  "jwt_laws J \<longleftrightarrow>
     (\<forall>m c key tok opts kf t.
        jwt_SignedString J m c key = Inr tok \<longrightarrow> kf m = Inr key \<longrightarrow> method_alg m \<in> set (opt_ValidMethods opts) \<longrightarrow>
        claims_addressed opts c \<longrightarrow> claims_timely opts c t \<longrightarrow>
        (\<exists>c'. jwt_Parse J opts kf t tok = Inr \<lparr>jt_Valid = True, jt_Claims = MapClaims c'\<rparr>
              \<and> string_members_agree c c'))
   \<and> (\<forall>opts kf t tok jt.
        jwt_Parse J opts kf t tok = Inr jt \<longrightarrow> jt_Valid jt \<longrightarrow>
        (\<exists>m key. method_alg m \<in> set (opt_ValidMethods opts) \<and> kf m = Inr key)
        \<and> (\<forall>c. jt_Claims jt = MapClaims c \<longrightarrow> claims_addressed opts c \<and> claims_timely opts c t))
   \<and> (\<forall>c s. c ''sub'' = Some (JString s) \<longrightarrow> jwt_GetSubject J c = Inr s)
   \<and> (\<forall>c. c ''sub'' = None \<longrightarrow> jwt_GetSubject J c = Inr '''')"

section \<open>State\<close>

text \<open>One line of \<open>RequestLogger\<close>, without the duration.\<close>

record access_entry =
  ax_RequestID :: string
  ax_Method :: string
  ax_Path :: string
  ax_RemoteAddr :: string
  ax_StatusCode :: int

record 'r world =
  tick :: nat
  redis_db :: 'r
  users :: "user list"
  sessions :: "session list"
  audit_logs :: "audit_log list"
  access_log :: "access_entry list"

section \<open>Parameters\<close>

text \<open>The struct the refresh tokens are stored as, here because the JSON codec names it.\<close>

record refresh_token_record =
  r_UserID :: string
  r_SessionID :: string
  r_Status :: string
  r_CreatedAt :: instant
  r_ExpiresAt :: instant

datatype decode_result = DecodeEOF | DecodeError | Decoded credentials

text \<open>
  Time, identifiers and randomness are indexed by \<open>tick\<close>. \<open>pg_fault n\<close> is the failure of the
  SQL call at tick \<open>n\<close>, if it fails, and whether the statement had taken effect before the
  failure (a lost reply). \<open>pg_uuid\<close> is the input function of type UUID (the canonical
  text), \<open>pg_varchar\<close> and \<open>pg_text\<close> say why a value does not fit its column, \<open>pg_time\<close> is
  the rounding of TIMESTAMPTZ, \<open>pg_msg\<close> the server's text for an SQLSTATE. Of \<open>net/http\<close>,
  \<open>cookie_text\<close> is the header line of a cookie and \<open>redirect_text\<close> the location and the page of
  a redirect. \<open>marshal_record\<close> is \<open>json.Marshal\<close> on a stored token; it is taken to refuse a record
  with strings that are not UTF-8, which JSON would alter (the program stores identifiers and
  the three states). \<open>deadline_passes d n\<close> says that a timeout \<open>d\<close> set for a handler started at tick
  \<open>n\<close> elapses before the handler is done.
\<close>

record 'r env =
  clock :: "nat \<Rightarrow> instant"
  uuid_gen :: "nat \<Rightarrow> string"
  rand_gen :: "nat \<Rightarrow> err + string"
  redis :: "'r redis_client"
  pg_fault :: "nat \<Rightarrow> (bool \<times> err) option"
  pg_uuid :: "string \<Rightarrow> err + string"
  pg_varchar :: "nat \<Rightarrow> string \<Rightarrow> err option"
  pg_text :: "string \<Rightarrow> err option"
  pg_jsonb :: "json_object \<Rightarrow> err option"
  pg_time :: "instant \<Rightarrow> instant"
  pg_msg :: "string \<Rightarrow> string"
  bcrypt_generate :: "nat \<Rightarrow> string \<Rightarrow> err + string"
  bcrypt_compare :: "string \<Rightarrow> string \<Rightarrow> err option"
  jwt :: jwt_lib
  marshal_record :: "refresh_token_record \<Rightarrow> err + string"
  unmarshal_record :: "string \<Rightarrow> err + refresh_token_record"
  decode_credentials :: "string \<Rightarrow> decode_result"
  encode_json :: "json \<Rightarrow> err + string"
  cookie_text :: "cookie \<Rightarrow> string"
  redirect_text :: "string \<Rightarrow> string \<times> string"
  deadline_passes :: "duration \<Rightarrow> nat \<Rightarrow> bool"
  unicode_tables :: unicode

definition clock_laws :: "'r env \<Rightarrow> bool" where
  "clock_laws E \<longleftrightarrow> (\<forall>m n. m \<le> n \<longrightarrow> clock E m \<le> clock E n)"

definition codec_laws :: "'r env \<Rightarrow> bool" where
  "codec_laws E \<longleftrightarrow>
     (\<forall>r s. marshal_record E r = Inr s \<longrightarrow> unmarshal_record E s = Inr r)
   \<and> (\<forall>r e. marshal_record E r = Inl e \<longrightarrow> external e)
   \<and> (\<forall>s e. unmarshal_record E s = Inl e \<longrightarrow> external e)"

definition token_laws :: "'r env \<Rightarrow> bool" where
  "token_laws E \<longleftrightarrow> redis_laws (redis E) \<and> codec_laws E \<and> clock_laws E"

text \<open>
  PostgreSQL: a canonical UUID is read as itself; what it reports is an error of its own, and
  neither a failed call nor a value that does not fit its column looks like a violated
  unique index.
\<close>

definition pg_refusal :: "err \<Rightarrow> bool" where
  "pg_refusal e \<longleftrightarrow> external e \<and> (\<forall>msg. e \<noteq> PqError ''23505'' msg)"

lemma pg_refusal_external: "pg_refusal e \<Longrightarrow> external e"
  by (simp add: pg_refusal_def)

definition pg_laws :: "'r env \<Rightarrow> bool" where
  "pg_laws E \<longleftrightarrow>
     (\<forall>s u. pg_uuid E s = Inr u \<longrightarrow> pg_uuid E u = Inr u)
   \<and> (\<forall>s e. pg_uuid E s = Inl e \<longrightarrow> pg_refusal e)
   \<and> (\<forall>s e. pg_text E s = Some e \<longrightarrow> pg_refusal e)
   \<and> (\<forall>n s e. pg_varchar E n s = Some e \<longrightarrow> pg_refusal e)
   \<and> (\<forall>obj e. pg_jsonb E obj = Some e \<longrightarrow> pg_refusal e)
   \<and> (\<forall>n b e. pg_fault E n = Some (b, e) \<longrightarrow> pg_refusal e)"

text \<open>An identifier as PostgreSQL reads it, None if it is malformed.\<close>

definition canon_uuid :: "'r env \<Rightarrow> string \<Rightarrow> string option" where
  "canon_uuid E s = (case pg_uuid E s of Inl _ \<Rightarrow> None | Inr u \<Rightarrow> Some u)"

lemma canon_uuid_Some [simp]: "canon_uuid E s = Some u \<longleftrightarrow> pg_uuid E s = Inr u"
  by (auto simp: canon_uuid_def split: sum.splits)

text \<open>The other libraries, too, return errors of their own.\<close>

definition library_errors :: "'r env \<Rightarrow> bool" where
  "library_errors E \<longleftrightarrow>
     (\<forall>n e. rand_gen E n = Inl e \<longrightarrow> external e)
   \<and> (\<forall>n p e. bcrypt_generate E n p = Inl e \<longrightarrow> external e)
   \<and> (\<forall>m c k e. jwt_SignedString (jwt E) m c k = Inl e \<longrightarrow> external e)"

text \<open>bcrypt accepts the password a hash was made from.\<close>

definition bcrypt_laws :: "'r env \<Rightarrow> bool" where
  "bcrypt_laws E \<longleftrightarrow> (\<forall>n p h. bcrypt_generate E n p = Inr h \<longrightarrow> bcrypt_compare E h p = None)"

section \<open>Primitive calls\<close>

definition step :: "'r world \<Rightarrow> 'r world" where
  "step w = w\<lparr>tick := Suc (tick w)\<rparr>"

definition cur :: "'r env \<Rightarrow> 'r world \<Rightarrow> instant" where
  "cur E w = clock E (tick w)"

definition time_now :: "'r env \<Rightarrow> 'r world \<Rightarrow> instant \<times> 'r world" where
  "time_now E w = (cur E w, step w)"

definition uuid_new :: "'r env \<Rightarrow> 'r world \<Rightarrow> string \<times> 'r world" where
  "uuid_new E w = (uuid_gen E (tick w), step w)"

definition rand_read :: "'r env \<Rightarrow> 'r world \<Rightarrow> (err + string) \<times> 'r world" where
  "rand_read E w = (rand_gen E (tick w), step w)"

definition bcrypt_hash :: "'r env \<Rightarrow> string \<Rightarrow> 'r world \<Rightarrow> (err + string) \<times> 'r world" where
  "bcrypt_hash E password w = (bcrypt_generate E (tick w) password, step w)"

definition redis_do :: "'r env \<Rightarrow> redis_cmd \<Rightarrow> 'r world \<Rightarrow> (err + redis_reply) \<times> 'r world" where
  "redis_do E c w =
     (case r_do (redis E) (cur E w) c (redis_db w) of (res, r) \<Rightarrow> (res, (step w)\<lparr>redis_db := r\<rparr>))"

definition redis_tx :: "'r env \<Rightarrow> redis_cmd list \<Rightarrow> 'r world \<Rightarrow> (err + unit) \<times> 'r world" where
  "redis_tx E cs w =
     (case r_tx (redis E) (cur E w) cs (redis_db w) of (res, r) \<Rightarrow> (res, (step w)\<lparr>redis_db := r\<rparr>))"

definition pg_query :: "'r env \<Rightarrow> ('r world \<Rightarrow> err + 'a) \<Rightarrow> 'r world \<Rightarrow> (err + 'a) \<times> 'r world" where
  "pg_query E q w = (case pg_fault E (tick w) of Some (_, e) \<Rightarrow> (Inl e, step w) | None \<Rightarrow> (q w, step w))"

definition pg_exec :: "'r env \<Rightarrow> ('r world \<Rightarrow> err + 'a \<times> 'r world) \<Rightarrow> 'r world \<Rightarrow> (err + 'a) \<times> 'r world" where
  "pg_exec E stmt w =
     (case pg_fault E (tick w) of
        Some (applied, e) \<Rightarrow>
          (Inl e, step (if applied then (case stmt w of Inl _ \<Rightarrow> w | Inr (_, w') \<Rightarrow> w') else w))
      | None \<Rightarrow>
          (case stmt w of Inl e \<Rightarrow> (Inl e, step w) | Inr (x, w') \<Rightarrow> (Inr x, step w')))"

text \<open>An error the server reports itself, and the first complaint of several columns.\<close>

definition pg_error :: "'r env \<Rightarrow> string \<Rightarrow> err" where
  "pg_error E code = PqError code (pg_msg E code)"

fun first_err :: "err option list \<Rightarrow> err option" where
  "first_err [] = None"
| "first_err (None # xs) = first_err xs"
| "first_err (Some e # xs) = Some e"

lemma first_err_in: "first_err xs = Some e \<Longrightarrow> Some e \<in> set xs"
  by (induction xs rule: first_err.induct) auto

text \<open>The keyspace of the world's Redis.\<close>

definition kspace :: "'r env \<Rightarrow> 'r world \<Rightarrow> keyspace" where
  "kspace E w = r_keys (redis E) (redis_db w)"

lemma step_simps [simp]:
  "tick (step w) = Suc (tick w)" "redis_db (step w) = redis_db w" "users (step w) = users w"
  "sessions (step w) = sessions w" "audit_logs (step w) = audit_logs w"
  "access_log (step w) = access_log w" "kspace E (step w) = kspace E w"
  by (simp_all add: step_def kspace_def)

lemma clock_mono: "clock_laws E \<Longrightarrow> m \<le> n \<Longrightarrow> clock E m \<le> clock E n"
  by (simp add: clock_laws_def)

lemma cur_mono: "clock_laws E \<Longrightarrow> tick w \<le> tick w' \<Longrightarrow> cur E w \<le> cur E w'"
  by (simp add: cur_def clock_mono)

text \<open>The SQL tables alone, and Redis alone, of a world.\<close>

definition same_sql :: "'r world \<Rightarrow> 'r world \<Rightarrow> bool" where
  "same_sql w w' \<longleftrightarrow> users w' = users w \<and> sessions w' = sessions w"

lemma same_sql_simps [simp]: "same_sql w w" "same_sql w (step w)"
  by (simp_all add: same_sql_def)

lemma same_sql_trans: "same_sql a b \<Longrightarrow> same_sql b c \<Longrightarrow> same_sql a c"
  by (simp add: same_sql_def)

lemma redis_do_frame:
  "redis_do E c w = (res, w') \<Longrightarrow> tick w' = Suc (tick w) \<and> users w' = users w \<and> sessions w' = sessions w
     \<and> audit_logs w' = audit_logs w \<and> access_log w' = access_log w"
  by (auto simp: redis_do_def split: prod.splits)

lemma redis_tx_frame:
  "redis_tx E cs w = (res, w') \<Longrightarrow> tick w' = Suc (tick w) \<and> users w' = users w \<and> sessions w' = sessions w
     \<and> audit_logs w' = audit_logs w \<and> access_log w' = access_log w"
  by (auto simp: redis_tx_def split: prod.splits)

lemma redis_do_ok:
  assumes "redis_laws (redis E)" and "redis_do E c w = (Inr rep, w')"
  shows "redis_answers (cur E w) c (kspace E w) rep" and "kspace E w' = redis_effect (cur E w) c (kspace E w)"
  using assms unfolding redis_laws_def redis_do_def kspace_def by (auto split: prod.splits)

lemma redis_do_err:
  assumes "redis_laws (redis E)" and "redis_do E c w = (Inl e, w')"
  shows "external e" and "kspace E w' \<in> {kspace E w, redis_effect (cur E w) c (kspace E w)}"
    and "e = RedisNil \<Longrightarrow> \<exists>k. c = GET k \<and> live (cur E w) (kspace E w) k = None"
proof -
  obtain r' where r': "r_do (redis E) (cur E w) c (redis_db w) = (Inl e, r')" "r' = redis_db w'"
    using assms(2) by (auto simp: redis_do_def split: prod.splits)
  from assms(1) have "\<forall>t c r e r'. r_do (redis E) t c r = (Inl e, r') \<longrightarrow>
      external e \<and> r_keys (redis E) r' \<in> {r_keys (redis E) r, redis_effect t c (r_keys (redis E) r)}
      \<and> (e = RedisNil \<longrightarrow> (\<exists>k. c = GET k \<and> live t (r_keys (redis E) r) k = None))"
    unfolding redis_laws_def by blast
  then have "external e \<and> kspace E w' \<in> {kspace E w, redis_effect (cur E w) c (kspace E w)}
      \<and> (e = RedisNil \<longrightarrow> (\<exists>k. c = GET k \<and> live (cur E w) (kspace E w) k = None))"
    using r' unfolding kspace_def by blast
  then show "external e" and "kspace E w' \<in> {kspace E w, redis_effect (cur E w) c (kspace E w)}"
    and "e = RedisNil \<Longrightarrow> \<exists>k. c = GET k \<and> live (cur E w) (kspace E w) k = None"
    by blast+
qed

lemma redis_tx_ok:
  assumes "redis_laws (redis E)" and "redis_tx E cs w = (Inr (), w')"
  shows "kspace E w' = fold (redis_effect (cur E w)) cs (kspace E w)"
  using assms unfolding redis_laws_def redis_tx_def kspace_def by (auto split: prod.splits)

lemma redis_tx_err:
  assumes "redis_laws (redis E)" and "redis_tx E cs w = (Inl e, w')"
    and "list_all (well_typed (cur E w) (kspace E w)) cs"
  shows "external e" and "kspace E w' \<in> {kspace E w, fold (redis_effect (cur E w)) cs (kspace E w)}"
proof -
  obtain r' where r': "r_tx (redis E) (cur E w) cs (redis_db w) = (Inl e, r')" "r' = redis_db w'"
    using assms(2) by (auto simp: redis_tx_def split: prod.splits)
  from assms(1) have "\<forall>t cs r e r'. r_tx (redis E) t cs r = (Inl e, r') \<longrightarrow>
      list_all (well_typed t (r_keys (redis E) r)) cs \<longrightarrow>
      external e \<and> r_keys (redis E) r' \<in> {r_keys (redis E) r, fold (redis_effect t) cs (r_keys (redis E) r)}"
    unfolding redis_laws_def by blast
  then have "external e \<and> kspace E w' \<in> {kspace E w, fold (redis_effect (cur E w)) cs (kspace E w)}"
    using r' assms(3) unfolding kspace_def by blast
  then show "external e" and "kspace E w' \<in> {kspace E w, fold (redis_effect (cur E w)) cs (kspace E w)}"
    by blast+
qed

lemma pg_query_frame: "pg_query E q w = (res, w') \<Longrightarrow> w' = step w"
  by (auto simp: pg_query_def split: option.splits prod.splits)

lemma pg_query_ok: "pg_query E q w = (Inr x, w') \<Longrightarrow> q w = Inr x \<and> w' = step w"
  by (auto simp: pg_query_def split: option.splits prod.splits)

lemma pg_exec_ok: "pg_exec E stmt w = (Inr x, w') \<Longrightarrow> \<exists>w''. stmt w = Inr (x, w'') \<and> w' = step w''"
  by (auto simp: pg_exec_def split: option.splits prod.splits sum.splits)

lemma pg_exec_err:
  "pg_exec E stmt w = (Inl e, w') \<Longrightarrow> w' = step w \<or> (\<exists>x w''. stmt w = Inr (x, w'') \<and> w' = step w'')"
  by (auto simp: pg_exec_def split: option.splits prod.splits sum.splits if_splits)

text \<open>Whatever an SQL statement returns, the world is the one before or the one it makes.\<close>

lemma pg_exec_cases:
  assumes "pg_exec E stmt w = (res, w')"
  obtains "w' = step w" | x w'' where "stmt w = Inr (x, w'')" and "w' = step w''"
proof (cases res)
  case (Inl e)
  with assms pg_exec_err [of E stmt w e w'] that show ?thesis by blast
next
  case (Inr x)
  with assms pg_exec_ok [of E stmt w x w'] that show ?thesis by blast
qed

text \<open>Where the error of an SQL call comes from.\<close>

lemma pg_query_err: "pg_query E q w = (Inl e, w') \<Longrightarrow> q w = Inl e \<or> (\<exists>n b. pg_fault E n = Some (b, e))"
  by (auto simp: pg_query_def split: option.splits)

lemma pg_exec_Inl: "pg_exec E stmt w = (Inl e, w') \<Longrightarrow> stmt w = Inl e \<or> (\<exists>n b. pg_fault E n = Some (b, e))"
  by (auto simp: pg_exec_def split: option.splits prod.splits sum.splits)

lemma pg_refusals:
  assumes "pg_laws E"
  shows "pg_uuid E s = Inl e \<Longrightarrow> pg_refusal e" and "pg_text E s = Some e \<Longrightarrow> pg_refusal e"
    and "pg_varchar E n s = Some e \<Longrightarrow> pg_refusal e" and "pg_jsonb E obj = Some e \<Longrightarrow> pg_refusal e"
    and "pg_fault E n = Some (b, e) \<Longrightarrow> pg_refusal e"
  using assms unfolding pg_laws_def by blast+

lemmas pg_external =
  pg_refusals [THEN pg_refusal_external]

lemma pg_error_external [simp]: "external (pg_error E code)"
  by (simp add: pg_error_def)

end
