(* ===== verification/Token_Contract.thy ===== *)
theory Token_Contract
  imports World
begin

text \<open>
  The interface \<open>RefreshTokenRepository\<close> of
  \<open>internal/repository/refresh_token_repository.go\<close> and its contract, in two layers:
  \<open>token_cells\<close> is what reading and rewriting single tokens promises, and is all the
  revocation loop needs; \<open>token_store\<close> adds creation and the two mass revocations.

  Time enters through \<open>gone\<close>: a token that has expired, in Redis or by its own
  \<open>ExpiresAt\<close>, is never rewritten again. A token is \<open>retired\<close> when it is not stored, gone, or
  in a status other than ACTIVE and USED; retired tokens stay retired.
\<close>

section \<open>The interface\<close>

record 'w token_repository =
  rtr_Create :: "refresh_token \<Rightarrow> 'w \<Rightarrow> (err + unit) \<times> 'w"
  rtr_FindByToken :: "string \<Rightarrow> 'w \<Rightarrow> (err + refresh_token) \<times> 'w"
  rtr_UpdateStatus :: "string \<Rightarrow> string \<Rightarrow> 'w \<Rightarrow> (err + unit) \<times> 'w"
  rtr_RevokeByToken :: "string \<Rightarrow> 'w \<Rightarrow> (err + unit) \<times> 'w"
  rtr_RevokeAllBySession :: "string \<Rightarrow> 'w \<Rightarrow> (err + unit) \<times> 'w"
  rtr_RevokeAllByUser :: "string \<Rightarrow> 'w \<Rightarrow> (err + unit) \<times> 'w"

definition set_status :: "string \<Rightarrow> refresh_token \<Rightarrow> refresh_token" where
  "set_status st rt = rt\<lparr>rt_Status := st\<rparr>"

lemma set_status_simps [simp]:
  "rt_Status (set_status st rt) = st" "rt_Token (set_status st rt) = rt_Token rt"
  "rt_UserID (set_status st rt) = rt_UserID rt" "rt_SessionID (set_status st rt) = rt_SessionID rt"
  "rt_ExpiresAt (set_status st rt) = rt_ExpiresAt rt" "rt_CreatedAt (set_status st rt) = rt_CreatedAt rt"
  "set_status a (set_status b rt) = set_status a rt"
  by (simp_all add: set_status_def)

definition spendable :: "refresh_token \<Rightarrow> bool" where
  "spendable rt \<longleftrightarrow> rt_Status rt = ''ACTIVE'' \<or> rt_Status rt = ''USED''"

text \<open>What a revocation may do to what is kept under one token.\<close>

definition revoked_from :: "refresh_token option \<Rightarrow> refresh_token option \<Rightarrow> bool" where
  "revoked_from a b \<longleftrightarrow> b = a \<or> b = map_option (set_status ''REVOKED'') a"

lemma revoked_from_refl [simp]: "revoked_from a a"
  by (simp add: revoked_from_def)

lemma revoked_from_trans: "revoked_from a b \<Longrightarrow> revoked_from b c \<Longrightarrow> revoked_from a c"
  by (cases a) (auto simp: revoked_from_def)

definition unspendable :: "refresh_token option \<Rightarrow> bool" where
  "unspendable a \<longleftrightarrow> (case a of None \<Rightarrow> True | Some rt \<Rightarrow> \<not> spendable rt)"

lemma unspendable_simps [simp]:
  "unspendable None" "unspendable (Some rt) \<longleftrightarrow> \<not> spendable rt" "\<not> spendable (set_status ''REVOKED'' rt)"
  by (simp_all add: unspendable_def spendable_def)

lemma revoked_from_unspendable: "revoked_from a b \<Longrightarrow> unspendable a \<Longrightarrow> unspendable b"
  by (cases a) (auto simp: revoked_from_def)

text \<open>The body shared by \<open>RevokeAllBySession\<close> and \<open>RevokeAllByUser\<close>, over the two calls it makes.\<close>

fun revoke_loop ::
  "(string \<Rightarrow> 'w \<Rightarrow> (err + refresh_token) \<times> 'w) \<Rightarrow> (string \<Rightarrow> string \<Rightarrow> 'w \<Rightarrow> (err + unit) \<times> 'w)
   \<Rightarrow> string list \<Rightarrow> 'w \<Rightarrow> (err + unit) \<times> 'w" where
  "revoke_loop look upd [] w = (Inr (), w)"
| "revoke_loop look upd (token # tokens) w =
     (case look token w of
        (Inl e, w) \<Rightarrow>
          if e = ErrRefreshTokenNotFound then revoke_loop look upd tokens w else (Inl e, w)
      | (Inr refreshToken, w) \<Rightarrow>
          if rt_Status refreshToken = ''ACTIVE'' \<or> rt_Status refreshToken = ''USED'' then
            (case upd token ''REVOKED'' w of
               (Inl e, w) \<Rightarrow>
                 if e = ErrRefreshTokenNotFound then revoke_loop look upd tokens w else (Inl e, w)
             | (Inr _, w) \<Rightarrow> revoke_loop look upd tokens w)
          else revoke_loop look upd tokens w)"

section \<open>Single tokens\<close>

definition token_error :: "err \<Rightarrow> bool" where
  "token_error e \<longleftrightarrow> e = ErrRefreshTokenNotFound \<or> external e"

locale token_cells =
  fixes look :: "string \<Rightarrow> 'w \<Rightarrow> (err + refresh_token) \<times> 'w"
    and upd :: "string \<Rightarrow> string \<Rightarrow> 'w \<Rightarrow> (err + unit) \<times> 'w"
    and kept :: "'w \<Rightarrow> string \<Rightarrow> refresh_token option"
    and gone :: "'w \<Rightarrow> string \<Rightarrow> bool"
    and indexes :: "'w \<Rightarrow> (string \<Rightarrow> string set) \<times> (string \<Rightarrow> string set)"
    and inv :: "'w \<Rightarrow> bool"
  assumes find_ok: "inv w \<Longrightarrow> look t w = (Inr rt, w') \<Longrightarrow> kept w t = Some rt"
    and find_missing: "inv w \<Longrightarrow> look t w = (Inl ErrRefreshTokenNotFound, w') \<Longrightarrow> kept w t = None \<or> gone w' t"
    and find_frame: "inv w \<Longrightarrow> look t w = (fres, w') \<Longrightarrow> inv w' \<and> kept w' = kept w \<and> indexes w' = indexes w"
    and find_gone: "inv w \<Longrightarrow> look t w = (fres, w') \<Longrightarrow> gone w s \<Longrightarrow> gone w' s"
    and upd_ok: "inv w \<Longrightarrow> upd t st w = (Inr (), w') \<Longrightarrow>
      \<not> gone w t \<and> (\<exists>rt. kept w t = Some rt \<and> kept w' = (kept w)(t \<mapsto> set_status st rt))"
    and upd_err: "inv w \<Longrightarrow> upd t st w = (Inl e, w') \<Longrightarrow>
      kept w' = kept w \<or> (\<exists>rt. kept w t = Some rt \<and> kept w' = (kept w)(t \<mapsto> set_status st rt))"
    and upd_missing: "inv w \<Longrightarrow> upd t st w = (Inl ErrRefreshTokenNotFound, w') \<Longrightarrow>
      kept w' = kept w \<and> (kept w t = None \<or> gone w' t)"
    and upd_frame: "inv w \<Longrightarrow> upd t st w = (res, w') \<Longrightarrow> inv w' \<and> indexes w' = indexes w"
    and upd_gone: "inv w \<Longrightarrow> upd t st w = (res, w') \<Longrightarrow> gone w s \<Longrightarrow> gone w' s"
    and find_errors: "inv w \<Longrightarrow> look t w = (Inl e, w') \<Longrightarrow> token_error e"
    and upd_errors: "inv w \<Longrightarrow> upd t st w = (Inl e, w') \<Longrightarrow> token_error e"
begin

definition retired :: "'w \<Rightarrow> string \<Rightarrow> bool" where
  "retired w t \<longleftrightarrow> gone w t \<or> unspendable (kept w t)"

text \<open>How a revocation may change the store: some spendable tokens become REVOKED.\<close>

definition revokes :: "'w \<Rightarrow> 'w \<Rightarrow> bool" where
  "revokes w w' \<longleftrightarrow> inv w' \<and> indexes w' = indexes w \<and> (\<forall>s. gone w s \<longrightarrow> gone w' s)
     \<and> (\<forall>s. revoked_from (kept w s) (kept w' s))"

lemma revokes_refl [simp]: "inv w \<Longrightarrow> revokes w w"
  by (simp add: revokes_def)

lemma revokes_trans: "revokes a b \<Longrightarrow> revokes b c \<Longrightarrow> revokes a c"
  unfolding revokes_def using revoked_from_trans by metis

lemma revokes_retired: "revokes w w' \<Longrightarrow> retired w t \<Longrightarrow> retired w' t"
  unfolding revokes_def retired_def using revoked_from_unspendable by blast

lemma find_revokes: "inv w \<Longrightarrow> look t w = (fres, w') \<Longrightarrow> revokes w w'"
  using find_frame [of w t fres w'] find_gone [of w t fres w'] by (auto simp: revokes_def)

lemma upd_revokes: "inv w \<Longrightarrow> upd t ''REVOKED'' w = (res, w') \<Longrightarrow> revokes w w'"
proof -
  assume inv: "inv w" and call: "upd t ''REVOKED'' w = (res, w')"
  then have "kept w' = kept w \<or> (\<exists>rt. kept w t = Some rt \<and> kept w' = (kept w)(t \<mapsto> set_status ''REVOKED'' rt))"
    using upd_ok [of w t "''REVOKED''" w'] upd_err [of w t "''REVOKED''" _ w'] by (cases res) auto
  then show ?thesis using upd_frame [OF inv call] upd_gone [OF inv call] 
    by (auto simp: revokes_def revoked_from_def)
qed

lemma upd_revoked_retired: "inv w \<Longrightarrow> upd t ''REVOKED'' w = (Inr (), w') \<Longrightarrow> retired w' t"
  using upd_ok [of w t "''REVOKED''" w'] by (auto simp: retired_def)

lemma find_missing_retired: "inv w \<Longrightarrow> look t w = (Inl ErrRefreshTokenNotFound, w') \<Longrightarrow> retired w' t"
  using find_missing [of w t w'] find_frame [of w t _ w'] by (auto simp: retired_def)

lemma upd_missing_retired: "inv w \<Longrightarrow> upd t st w = (Inl ErrRefreshTokenNotFound, w') \<Longrightarrow> retired w' t"
  using upd_missing [of w t st w'] by (auto simp: retired_def)

lemma find_unspendable_retired: "inv w \<Longrightarrow> look t w = (Inr rt, w') \<Longrightarrow> \<not> spendable rt \<Longrightarrow> retired w' t"
  using find_ok [of w t rt w'] find_frame [of w t _ w'] by (auto simp: retired_def)

text \<open>The revocation loop: whatever it returns it only revokes, and a run to the end retires
  every token of the list.\<close>

lemma revoke_loop_spec:
  "inv w \<Longrightarrow> revoke_loop look upd ts w = (res, w') \<Longrightarrow>
     revokes w w' \<and> (res = Inr () \<longrightarrow> (\<forall>t \<in> set ts. retired w' t))"
proof (induction ts arbitrary: w)
  case (Cons t ts)
  obtain fres w1 where f: "look t w = (fres, w1)" by (cases "look t w")
  have inv1: "inv w1" and r1: "revokes w w1"
    using find_frame [OF Cons.prems(1) f] find_revokes [OF Cons.prems(1) f] by auto
  have go: "revokes w w' \<and> (res = Inr () \<longrightarrow> (\<forall>s \<in> set (t # ts). retired w' s))"
    if "revokes w w2" "retired w2 t" "revoke_loop look upd ts w2 = (res, w')" for w2
  proof -
    have inv2: "inv w2" using that(1) by (simp add: revokes_def)
    from Cons.IH [OF inv2 that(3)]
    have r: "revokes w2 w'" and ts: "res = Inr () \<longrightarrow> (\<forall>s \<in> set ts. retired w' s)" by blast+
    from revokes_trans [OF that(1) r] revokes_retired [OF r that(2)] ts show ?thesis by simp
  qed
  note eq = Cons.prems(2) [unfolded revoke_loop.simps f, simplified]
  show ?case
  proof (cases fres)
    case (Inl e)
    show ?thesis
    proof (cases "e = ErrRefreshTokenNotFound")
      case True
      with Inl f find_missing_retired [OF Cons.prems(1)] have "retired w1 t" by simp
      moreover from eq Inl True have "revoke_loop look upd ts w1 = (res, w')" by simp
      ultimately show ?thesis using go [OF r1] by blast
    next
      case False
      with eq Inl have "res = Inl e" "w' = w1" by simp_all
      with r1 show ?thesis by simp
    qed
  next
    case (Inr rt)
    show ?thesis
    proof (cases "spendable rt")
      case False
      with Inr f find_unspendable_retired [OF Cons.prems(1)] have "retired w1 t" by simp
      moreover from eq Inr False have "revoke_loop look upd ts w1 = (res, w')"
        by (simp add: spendable_def)
      ultimately show ?thesis using go [OF r1] by blast
    next
      case True
      obtain ures w2 where u: "upd t ''REVOKED'' w1 = (ures, w2)" by (cases "upd t ''REVOKED'' w1")
      have r2: "revokes w w2" using revokes_trans [OF r1 upd_revokes [OF inv1 u]] .
      note eq2 = eq [unfolded Inr, simplified, folded spendable_def, simplified True u, simplified]
      show ?thesis
      proof (cases "ures = Inl ErrRefreshTokenNotFound \<or> ures = Inr ()")
        case True
        with u upd_missing_retired [OF inv1] upd_revoked_retired [OF inv1] have "retired w2 t" by blast
        moreover from eq2 True have "revoke_loop look upd ts w2 = (res, w')" by auto
        ultimately show ?thesis using go [OF r2] by blast
      next
        case False
        with eq2 have "res \<noteq> Inr ()" "w' = w2" by (auto split: sum.splits)
        with r2 show ?thesis by simp
      qed
    qed
  qed
qed simp

text \<open>Tokens that are not in the list are not touched.\<close>

lemma upd_others: "inv w \<Longrightarrow> upd t st w = (res, w') \<Longrightarrow> s \<noteq> t \<Longrightarrow> kept w' s = kept w s"
  using upd_ok [of w t st w'] upd_err [of w t st _ w'] by (cases res) auto

lemma revoke_loop_others:
  "inv w \<Longrightarrow> revoke_loop look upd ts w = (res, w') \<Longrightarrow> s \<notin> set ts \<Longrightarrow> kept w' s = kept w s"
proof (induction ts arbitrary: w)
  case (Cons t ts)
  obtain fres w1 where f: "look t w = (fres, w1)" by (cases "look t w")
  have w1: "inv w1" "kept w1 s = kept w s" using find_frame [OF Cons.prems(1) f] by auto
  obtain ures w2 where u: "upd t ''REVOKED'' w1 = (ures, w2)" by (cases "upd t ''REVOKED'' w1")
  have w2: "inv w2" "kept w2 s = kept w s"
    using upd_frame [OF w1(1) u] upd_others [OF w1(1) u, of s] w1(2) Cons.prems(3) by auto
  show ?case
    using Cons.prems(2,3) f u w1 w2 Cons.IH [OF w1(1)] Cons.IH [OF w2(1)]
    by (auto split: sum.splits if_splits)
qed simp

text \<open>A token that is not found never stops the loop, so its errors are the store's own.\<close>

lemma revoke_loop_errors:
  "inv w \<Longrightarrow> revoke_loop look upd ts w = (Inl e, w') \<Longrightarrow> external e"
proof (induction ts arbitrary: w)
  case (Cons t ts)
  obtain fres w1 where f: "look t w = (fres, w1)" by (cases "look t w")
  have inv1: "inv w1" using find_frame [OF Cons.prems(1) f] by simp
  obtain ures w2 where u: "upd t ''REVOKED'' w1 = (ures, w2)" by (cases "upd t ''REVOKED'' w1")
  have inv2: "inv w2" using upd_frame [OF inv1 u] by simp
  show ?case
    using Cons.prems(2) f u Cons.IH [OF inv1] Cons.IH [OF inv2]
      find_errors [OF Cons.prems(1), of t e] upd_errors [OF inv1, of t "''REVOKED''" e]
    by (auto simp: token_error_def split: sum.splits if_splits)
qed simp

end

section \<open>The whole store\<close>

definition put_token :: "refresh_token \<Rightarrow> (string \<Rightarrow> string set) \<times> (string \<Rightarrow> string set)
    \<Rightarrow> (string \<Rightarrow> string set) \<times> (string \<Rightarrow> string set)" where
  "put_token rt ix =
     ((fst ix)(rt_UserID rt := insert (rt_Token rt) (fst ix (rt_UserID rt))),
      (snd ix)(rt_SessionID rt := insert (rt_Token rt) (snd ix (rt_SessionID rt))))"

text \<open>
  The two mass revocations are the loop over the members of an index; a failure to read
  the index revokes nothing.
\<close>

locale token_store = token_cells "rtr_FindByToken repo" "rtr_UpdateStatus repo" kept gone indexes inv
  for repo :: "'w token_repository" and kept gone indexes inv +
  assumes create_ok: "inv w \<Longrightarrow> rtr_Create repo rt w = (Inr (), w') \<Longrightarrow>
      kept w' = (kept w)(rt_Token rt \<mapsto> rt) \<and> indexes w' = put_token rt (indexes w)"
    and create_err: "inv w \<Longrightarrow> rtr_Create repo rt w = (Inl e, w') \<Longrightarrow>
      (kept w' = kept w \<and> indexes w' = indexes w)
      \<or> (kept w' = (kept w)(rt_Token rt \<mapsto> rt) \<and> indexes w' = put_token rt (indexes w))"
    and create_inv: "inv w \<Longrightarrow> rtr_Create repo rt w = (res, w') \<Longrightarrow> inv w'"
    and create_gone: "inv w \<Longrightarrow> rtr_Create repo rt w = (res, w') \<Longrightarrow> gone w s \<Longrightarrow> s \<noteq> rt_Token rt \<Longrightarrow> gone w' s"
    and revoke_by_token: "rtr_RevokeByToken repo t = rtr_UpdateStatus repo t ''REVOKED''"
    and by_session: "inv w \<Longrightarrow> rtr_RevokeAllBySession repo i w = (res, w') \<Longrightarrow>
      (\<exists>ts w1. set ts = snd (indexes w) i \<and> revokes w w1 \<and> kept w1 = kept w
        \<and> revoke_loop (rtr_FindByToken repo) (rtr_UpdateStatus repo) ts w1 = (res, w'))
      \<or> (\<exists>e. res = Inl e \<and> external e \<and> revokes w w' \<and> kept w' = kept w)"
    and by_user: "inv w \<Longrightarrow> rtr_RevokeAllByUser repo u w = (res, w') \<Longrightarrow>
      (\<exists>ts w1. set ts = fst (indexes w) u \<and> revokes w w1 \<and> kept w1 = kept w
        \<and> revoke_loop (rtr_FindByToken repo) (rtr_UpdateStatus repo) ts w1 = (res, w'))
      \<or> (\<exists>e. res = Inl e \<and> external e \<and> revokes w w' \<and> kept w' = kept w)"
    and create_errors: "inv w \<Longrightarrow> rtr_Create repo rt w = (Inl e, w') \<Longrightarrow> token_error e"
    and indexed: "inv w \<Longrightarrow> kept w t = Some rt \<Longrightarrow>
      rt_Token rt = t \<and> t \<in> fst (indexes w) (rt_UserID rt) \<and> t \<in> snd (indexes w) (rt_SessionID rt)"
begin

lemma create_kept:
  "inv w \<Longrightarrow> rtr_Create repo rt w = (res, w') \<Longrightarrow> kept w' = kept w \<or> kept w' = (kept w)(rt_Token rt \<mapsto> rt)"
  using create_ok [of w rt w'] create_err [of w rt _ w'] by (cases res) auto

lemma create_retired:
  "inv w \<Longrightarrow> rtr_Create repo rt w = (res, w') \<Longrightarrow> retired w s \<Longrightarrow> s \<noteq> rt_Token rt \<Longrightarrow> retired w' s"
  using create_kept [of w rt res w'] create_gone [of w rt res w' s] by (auto simp: retired_def)

lemma loop_over_index:
  assumes "(\<exists>ts w1. set ts = S \<and> revokes w w1 \<and> kept w1 = kept w
        \<and> revoke_loop (rtr_FindByToken repo) (rtr_UpdateStatus repo) ts w1 = (res, w'))
      \<or> (\<exists>e. res = Inl e \<and> external e \<and> revokes w w' \<and> kept w' = kept w)"
  shows "revokes w w' \<and> (res = Inr () \<longrightarrow> (\<forall>t \<in> S. retired w' t)) \<and> (\<forall>e. res = Inl e \<longrightarrow> external e)
    \<and> (\<forall>t. t \<notin> S \<longrightarrow> kept w' t = kept w t)"
  using assms
proof (elim disjE exE conjE)
  fix ts w1
  assume l: "set ts = S" "revokes w w1" "kept w1 = kept w"
    "revoke_loop (rtr_FindByToken repo) (rtr_UpdateStatus repo) ts w1 = (res, w')"
  then have inv1: "inv w1" by (simp add: revokes_def)
  have "kept w' t = kept w t" if "t \<notin> S" for t
    using revoke_loop_others [OF inv1 l(4)] l(1,3) that by simp
  then show ?thesis
    using revoke_loop_spec [OF inv1 l(4)] revoke_loop_errors [OF inv1] l(1,2,4) revokes_trans by blast
qed simp

lemma all_by_session:
  "inv w \<Longrightarrow> rtr_RevokeAllBySession repo i w = (res, w') \<Longrightarrow>
     revokes w w' \<and> (res = Inr () \<longrightarrow> (\<forall>t \<in> snd (indexes w) i. retired w' t)) \<and> (\<forall>e. res = Inl e \<longrightarrow> external e)
     \<and> (\<forall>t. t \<notin> snd (indexes w) i \<longrightarrow> kept w' t = kept w t)"
  by (rule loop_over_index) (rule by_session)

lemma all_by_user:
  "inv w \<Longrightarrow> rtr_RevokeAllByUser repo u w = (res, w') \<Longrightarrow>
     revokes w w' \<and> (res = Inr () \<longrightarrow> (\<forall>t \<in> fst (indexes w) u. retired w' t)) \<and> (\<forall>e. res = Inl e \<longrightarrow> external e)
     \<and> (\<forall>t. t \<notin> fst (indexes w) u \<longrightarrow> kept w' t = kept w t)"
  by (rule loop_over_index) (rule by_user)

text \<open>Nothing of the user is left to spend: not only the indexed tokens, every stored one.\<close>

lemma all_by_user_owned:
  assumes "inv w" and "rtr_RevokeAllByUser repo u w = (Inr (), w')"
    and "kept w' t = Some rt" and "rt_UserID rt = u"
  shows "retired w' t"
proof -
  have spec: "revokes w w'" "\<forall>t \<in> fst (indexes w) u. retired w' t"
    using all_by_user [OF assms(1,2)] by auto
  then have "inv w'" "indexes w' = indexes w" by (auto simp: revokes_def)
  then have "t \<in> fst (indexes w) u" using indexed assms(3,4) by fastforce
  then show ?thesis using spec(2) by blast
qed

lemma all_by_session_owned:
  assumes "inv w" and "rtr_RevokeAllBySession repo i w = (Inr (), w')"
    and "kept w' t = Some rt" and "rt_SessionID rt = i"
  shows "retired w' t"
proof -
  have spec: "revokes w w'" "\<forall>t \<in> snd (indexes w) i. retired w' t"
    using all_by_session [OF assms(1,2)] by auto
  then have "inv w'" "indexes w' = indexes w" by (auto simp: revokes_def)
  then have "t \<in> snd (indexes w) i" using indexed assms(3,4) by fastforce
  then show ?thesis using spec(2) by blast
qed

text \<open>The rotation of a refresh: the old token is spent, the new one stored, all others as before.\<close>

lemma rotation:
  assumes "inv w" and "rtr_UpdateStatus repo t ''USED'' w = (Inr (), w1)"
    and "inv w2" and "kept w2 = kept w1"
    and "rtr_Create repo new w2 = (Inr (), w3)" and "rt_Token new \<noteq> t"
  shows "\<exists>rt. kept w t = Some rt
    \<and> kept w3 = (kept w)(t \<mapsto> set_status ''USED'' rt, rt_Token new \<mapsto> new)"
  using upd_ok [OF assms(1,2)] create_ok [OF assms(3,5)] assms(4) by auto

end

end
