(* ===== verification/Refresh_Token_Repository.thy ===== *)
theory Refresh_Token_Repository
  imports Token_Contract
begin

text \<open>
  The Redis implementation of \<open>RefreshTokenRepository\<close>
  (\<open>internal/repository/refresh_token_repository.go\<close>): one string key per token, holding
  the JSON of its record, and one set of token values per user and per session. The theory
  gives the key families, the six operations, the invariant of the keyspace and the proof
  that the operations keep the contract \<open>token_store\<close>.
\<close>

section \<open>Keys\<close>

definition redisRefreshTokenKey :: "string \<Rightarrow> string" where
  "redisRefreshTokenKey token = ''auth:refresh_token:'' @ token"

definition redisUserRefreshTokensKey :: "string \<Rightarrow> string" where
  "redisUserRefreshTokensKey userID = ''auth:user_refresh_tokens:'' @ userID"

definition redisSessionRefreshTokensKey :: "string \<Rightarrow> string" where
  "redisSessionRefreshTokensKey sessionID = ''auth:session_refresh_tokens:'' @ sessionID"

text \<open>The families are disjoint and each is injective, whatever the identifiers contain.\<close>

lemma refresh_keys [simp, keys]:
  "redisRefreshTokenKey a = redisRefreshTokenKey b \<longleftrightarrow> a = b"
  "redisUserRefreshTokensKey a = redisUserRefreshTokensKey b \<longleftrightarrow> a = b"
  "redisSessionRefreshTokensKey a = redisSessionRefreshTokensKey b \<longleftrightarrow> a = b"
  "redisRefreshTokenKey a \<noteq> redisUserRefreshTokensKey b"
  "redisUserRefreshTokensKey b \<noteq> redisRefreshTokenKey a"
  "redisRefreshTokenKey a \<noteq> redisSessionRefreshTokensKey b"
  "redisSessionRefreshTokensKey b \<noteq> redisRefreshTokenKey a"
  "redisUserRefreshTokensKey a \<noteq> redisSessionRefreshTokensKey b"
  "redisSessionRefreshTokensKey b \<noteq> redisUserRefreshTokensKey a"
  by (simp_all add: redisRefreshTokenKey_def redisUserRefreshTokensKey_def redisSessionRefreshTokensKey_def)

section \<open>The operations\<close>

definition record_of :: "refresh_token \<Rightarrow> refresh_token_record" where
  "record_of rt =
     \<lparr>r_UserID = rt_UserID rt, r_SessionID = rt_SessionID rt, r_Status = rt_Status rt,
      r_CreatedAt = rt_CreatedAt rt, r_ExpiresAt = rt_ExpiresAt rt\<rparr>"

definition token_of :: "string \<Rightarrow> refresh_token_record \<Rightarrow> refresh_token" where
  "token_of token r =
     \<lparr>rt_Token = token, rt_UserID = r_UserID r, rt_SessionID = r_SessionID r, rt_Status = r_Status r,
      rt_ExpiresAt = r_ExpiresAt r, rt_CreatedAt = r_CreatedAt r\<rparr>"

definition rt_Create :: "'r env \<Rightarrow> refresh_token \<Rightarrow> 'r world \<Rightarrow> (err + unit) \<times> 'r world" where
  "rt_Create E refreshToken w =
     (case marshal_record E (record_of refreshToken) of
        Inl e \<Rightarrow> (Inl e, w)
      | Inr payload \<Rightarrow>
          (case time_now E w of (t, w) \<Rightarrow>
             let ttl = time_sub (rt_ExpiresAt refreshToken) t in
             if ttl \<le> 0 then (Inl ErrRefreshTokenNotFound, w)
             else redis_tx E
               [SET (redisRefreshTokenKey (rt_Token refreshToken)) payload ttl,
                SADD (redisUserRefreshTokensKey (rt_UserID refreshToken)) (rt_Token refreshToken),
                SADD (redisSessionRefreshTokensKey (rt_SessionID refreshToken)) (rt_Token refreshToken)] w))"

definition rt_FindByToken :: "'r env \<Rightarrow> string \<Rightarrow> 'r world \<Rightarrow> (err + refresh_token) \<times> 'r world" where
  "rt_FindByToken E token w =
     (case redis_do E (GET (redisRefreshTokenKey token)) w of
        (Inl e, w) \<Rightarrow> if e = RedisNil then (Inl ErrRefreshTokenNotFound, w) else (Inl e, w)
      | (Inr value, w) \<Rightarrow>
          (case unmarshal_record E (reply_str value) of
             Inl e \<Rightarrow> (Inl e, w)
           | Inr r \<Rightarrow> (Inr (token_of token r), w)))"

definition rt_UpdateStatus :: "'r env \<Rightarrow> string \<Rightarrow> string \<Rightarrow> 'r world \<Rightarrow> (err + unit) \<times> 'r world" where
  "rt_UpdateStatus E token status w =
     (case rt_FindByToken E token w of
        (Inl e, w) \<Rightarrow> (Inl e, w)
      | (Inr refreshToken, w) \<Rightarrow>
          let refreshToken = refreshToken\<lparr>rt_Status := status\<rparr> in
          (case marshal_record E (record_of refreshToken) of
             Inl e \<Rightarrow> (Inl e, w)
           | Inr payload \<Rightarrow>
               (case time_now E w of (t, w) \<Rightarrow>
                  let ttl = time_sub (rt_ExpiresAt refreshToken) t in
                  if ttl \<le> 0 then (Inl ErrRefreshTokenNotFound, w)
                  else (case redis_do E (SET (redisRefreshTokenKey token) payload ttl) w of
                          (Inl e, w) \<Rightarrow> (Inl e, w)
                        | (Inr _, w) \<Rightarrow> (Inr (), w)))))"

definition rt_RevokeByToken :: "'r env \<Rightarrow> string \<Rightarrow> 'r world \<Rightarrow> (err + unit) \<times> 'r world" where
  "rt_RevokeByToken E token = rt_UpdateStatus E token ''REVOKED''"

definition rt_RevokeAllBySession :: "'r env \<Rightarrow> string \<Rightarrow> 'r world \<Rightarrow> (err + unit) \<times> 'r world" where
  "rt_RevokeAllBySession E sessionID w =
     (case redis_do E (SMEMBERS (redisSessionRefreshTokensKey sessionID)) w of
        (Inl e, w) \<Rightarrow> (Inl e, w)
      | (Inr tokens, w) \<Rightarrow> revoke_loop (rt_FindByToken E) (rt_UpdateStatus E) (reply_list tokens) w)"

definition rt_RevokeAllByUser :: "'r env \<Rightarrow> string \<Rightarrow> 'r world \<Rightarrow> (err + unit) \<times> 'r world" where
  "rt_RevokeAllByUser E userID w =
     (case redis_do E (SMEMBERS (redisUserRefreshTokensKey userID)) w of
        (Inl e, w) \<Rightarrow> (Inl e, w)
      | (Inr tokens, w) \<Rightarrow> revoke_loop (rt_FindByToken E) (rt_UpdateStatus E) (reply_list tokens) w)"

definition RedisRefreshTokenRepository :: "'r env \<Rightarrow> ('r world) token_repository" where
  "RedisRefreshTokenRepository E =
     \<lparr>rtr_Create = rt_Create E, rtr_FindByToken = rt_FindByToken E, rtr_UpdateStatus = rt_UpdateStatus E,
      rtr_RevokeByToken = rt_RevokeByToken E, rtr_RevokeAllBySession = rt_RevokeAllBySession E,
      rtr_RevokeAllByUser = rt_RevokeAllByUser E\<rparr>"

section \<open>What the keyspace says\<close>

fun decode_entry :: "'r env \<Rightarrow> string \<Rightarrow> (redis_val \<times> instant option) option \<Rightarrow> refresh_token option" where
  "decode_entry E token (Some (VStr s, dl)) =
     (case unmarshal_record E s of Inl _ \<Rightarrow> None | Inr r \<Rightarrow> Some (token_of token r))"
| "decode_entry E token _ = None"

definition kept_tokens :: "'r env \<Rightarrow> 'r world \<Rightarrow> string \<Rightarrow> refresh_token option" where
  "kept_tokens E w token = decode_entry E token (kspace E w (redisRefreshTokenKey token))"

fun members :: "(redis_val \<times> instant option) option \<Rightarrow> string set" where
  "members (Some (VSet ms, dl)) = set ms"
| "members _ = {}"

definition token_indexes :: "'r env \<Rightarrow> 'r world \<Rightarrow> (string \<Rightarrow> string set) \<times> (string \<Rightarrow> string set)" where
  "token_indexes E w =
     ((\<lambda>u. members (kspace E w (redisUserRefreshTokensKey u))),
      (\<lambda>i. members (kspace E w (redisSessionRefreshTokensKey i))))"

text \<open>Expired: by the deadline of its key, or by the \<open>ExpiresAt\<close> of its record.\<close>

definition token_gone :: "'r env \<Rightarrow> 'r world \<Rightarrow> string \<Rightarrow> bool" where
  "token_gone E w token \<longleftrightarrow>
     (case deadline (kspace E w) (redisRefreshTokenKey token) of None \<Rightarrow> False | Some d \<Rightarrow> d \<le> cur E w)
   \<or> (case kept_tokens E w token of None \<Rightarrow> False | Some rt \<Rightarrow> rt_ExpiresAt rt \<le> cur E w)"

text \<open>
  The invariant: index keys hold sets without a deadline, token keys hold decodable records
  with a deadline, and every record is in both indexes. The laws of the environment are
  part of it, so that the contract holds without further conditions.
\<close>

fun index_entry :: "(redis_val \<times> instant option) option \<Rightarrow> bool" where
  "index_entry None = True"
| "index_entry (Some (VSet ms, None)) = True"
| "index_entry _ = False"

fun token_entry :: "'r env \<Rightarrow> keyspace \<Rightarrow> string \<Rightarrow> (redis_val \<times> instant option) option \<Rightarrow> bool" where
  "token_entry E ks token None = True"
| "token_entry E ks token (Some (VStr s, Some d)) =
     (case unmarshal_record E s of
        Inl _ \<Rightarrow> False
      | Inr r \<Rightarrow> token \<in> members (ks (redisUserRefreshTokensKey (r_UserID r)))
          \<and> token \<in> members (ks (redisSessionRefreshTokensKey (r_SessionID r))))"
| "token_entry E ks token _ = False"

definition keyspace_ok :: "'r env \<Rightarrow> keyspace \<Rightarrow> bool" where
  "keyspace_ok E ks \<longleftrightarrow>
     (\<forall>u. index_entry (ks (redisUserRefreshTokensKey u)))
   \<and> (\<forall>i. index_entry (ks (redisSessionRefreshTokensKey i)))
   \<and> (\<forall>t. token_entry E ks t (ks (redisRefreshTokenKey t)))"

definition token_inv :: "'r env \<Rightarrow> 'r world \<Rightarrow> bool" where
  "token_inv E w \<longleftrightarrow> token_laws E \<and> keyspace_ok E (kspace E w)"

lemma token_inv_laws:
  assumes "token_inv E w"
  shows "redis_laws (redis E)" and "codec_laws E" and "clock_laws E" and "keyspace_ok E (kspace E w)"
  using assms by (auto simp: token_inv_def token_laws_def)

lemma token_inv_same_space: "token_inv E w \<Longrightarrow> kspace E w' = kspace E w \<Longrightarrow> token_inv E w'"
  by (simp add: token_inv_def)

lemma kept_same_space: "kspace E w' = kspace E w \<Longrightarrow> kept_tokens E w' = kept_tokens E w"
  by (simp add: kept_tokens_def fun_eq_iff)

lemma indexes_same_space: "kspace E w' = kspace E w \<Longrightarrow> token_indexes E w' = token_indexes E w"
  by (simp add: token_indexes_def)

lemma token_gone_later:
  assumes "clock_laws E" and "tick w \<le> tick w'" and "token_gone E w t"
    and "kspace E w' (redisRefreshTokenKey t) = kspace E w (redisRefreshTokenKey t)"
  shows "token_gone E w' t"
proof -
  have "cur E w \<le> cur E w'" using assms(1,2) by (rule cur_mono)
  moreover have "deadline (kspace E w') (redisRefreshTokenKey t) = deadline (kspace E w) (redisRefreshTokenKey t)"
    "kept_tokens E w' t = kept_tokens E w t"
    using assms(4) by (simp_all add: deadline_def kept_tokens_def)
  ultimately show ?thesis using assms(3) unfolding token_gone_def by (fastforce split: option.splits)
qed

text \<open>Storing a record under a token that is in both of its indexes keeps the keyspace well formed.\<close>

lemma token_entry_members:
  "(\<And>u. members (ks (redisUserRefreshTokensKey u)) \<subseteq> members (ks' (redisUserRefreshTokensKey u))) \<Longrightarrow>
   (\<And>i. members (ks (redisSessionRefreshTokensKey i)) \<subseteq> members (ks' (redisSessionRefreshTokensKey i))) \<Longrightarrow>
   token_entry E ks t x \<Longrightarrow> token_entry E ks' t x"
  by (cases "(E, ks, t, x)" rule: token_entry.cases) (auto split: sum.splits)

lemma keyspace_ok_put:
  assumes "keyspace_ok E ks" and "unmarshal_record E s = Inr r"
    and "t \<in> members (ks (redisUserRefreshTokensKey (r_UserID r)))"
    and "t \<in> members (ks (redisSessionRefreshTokensKey (r_SessionID r)))"
  shows "keyspace_ok E (ks(redisRefreshTokenKey t \<mapsto> (VStr s, Some d)))"
  using assms
  by (auto simp: keyspace_ok_def intro: token_entry_members [of ks])

section \<open>Reading and rewriting one token\<close>

lemma token_of_record_of [simp]: "rt_Token rt = t \<Longrightarrow> token_of t (record_of rt) = rt"
  by (cases rt) (simp add: token_of_def record_of_def)

lemma record_of_token_of [simp]: "record_of (token_of t r) = r"
  by (simp add: token_of_def record_of_def)

lemma token_entry_ok: "keyspace_ok E ks \<Longrightarrow> token_entry E ks t (ks (redisRefreshTokenKey t))"
  by (simp add: keyspace_ok_def)

lemma live_token:
  assumes "keyspace_ok E ks" and "live now ks (redisRefreshTokenKey t) = Some v"
  obtains s d r where "ks (redisRefreshTokenKey t) = Some (VStr s, Some d)" and "v = VStr s" and "now < d"
    and "unmarshal_record E s = Inr r"
  using assms token_entry_ok [OF assms(1), of t]
  by (cases "(E, ks, t, ks (redisRefreshTokenKey t))" rule: token_entry.cases)
    (auto simp: live_def split: if_splits sum.splits)

lemma rt_Find_frame:
  assumes "redis_laws (redis E)" and "rt_FindByToken E t w = (res, w')"
  shows "kspace E w' = kspace E w" and "tick w' = Suc (tick w)"
proof -
  obtain x where x: "redis_do E (GET (redisRefreshTokenKey t)) w = (x, w')"
    using assms(2) by (auto simp: rt_FindByToken_def split: prod.splits sum.splits if_splits)
  then show "tick w' = Suc (tick w)" using redis_do_frame by blast
  show "kspace E w' = kspace E w"
    using x redis_do_ok(2) [OF assms(1)] redis_do_err(2) [OF assms(1)] by (cases x) fastforce+
qed

lemma rt_Find_ok:
  assumes "token_inv E w" and "rt_FindByToken E t w = (Inr rt, w')"
  shows "kept_tokens E w t = Some rt" and "rt_Token rt = t"
    and "\<exists>s d r. kspace E w (redisRefreshTokenKey t) = Some (VStr s, Some d) \<and> cur E w < d
        \<and> unmarshal_record E s = Inr r \<and> rt = token_of t r"
proof -
  obtain rep r where x: "redis_do E (GET (redisRefreshTokenKey t)) w = (Inr rep, w')"
    "unmarshal_record E (reply_str rep) = Inr r" "rt = token_of t r"
    using assms(2) by (auto simp: rt_FindByToken_def split: prod.splits sum.splits if_splits)
  have ans: "redis_answers (cur E w) (GET (redisRefreshTokenKey t)) (kspace E w) rep"
    using redis_do_ok(1) [OF token_inv_laws(1) [OF assms(1)] x(1)] .
  then obtain v where lv: "live (cur E w) (kspace E w) (redisRefreshTokenKey t) = Some v"
    by (auto split: option.splits)
  obtain s d where sd: "kspace E w (redisRefreshTokenKey t) = Some (VStr s, Some d)" "cur E w < d" "v = VStr s"
    using live_token [OF token_inv_laws(4) [OF assms(1)] lv] by blast
  with ans lv have rep: "rep = RStr s" by simp
  with x sd rep show "kept_tokens E w t = Some rt" by (simp add: kept_tokens_def)
  show "rt_Token rt = t" using x(3) by (simp add: token_of_def)
  show "\<exists>s d r. kspace E w (redisRefreshTokenKey t) = Some (VStr s, Some d) \<and> cur E w < d
        \<and> unmarshal_record E s = Inr r \<and> rt = token_of t r"
    using sd x rep by auto
qed

lemma unmarshal_external:
  "codec_laws E \<Longrightarrow> unmarshal_record E s = Inl e \<Longrightarrow> external e"
  "codec_laws E \<Longrightarrow> marshal_record E r = Inl e \<Longrightarrow> external e"
  "codec_laws E \<Longrightarrow> marshal_record E r = Inr s \<Longrightarrow> unmarshal_record E s = Inr r"
  by (auto simp: codec_laws_def)

lemma not_live_gone:
  assumes "clock_laws E" and "live (cur E w) (kspace E w) (redisRefreshTokenKey t) = None"
    and "kspace E w' = kspace E w" and "tick w \<le> tick w'"
  shows "kept_tokens E w t = None \<or> token_gone E w' t"
proof (cases "kspace E w (redisRefreshTokenKey t)")
  case None
  then show ?thesis by (simp add: kept_tokens_def)
next
  case (Some x)
  then obtain v d where "kspace E w (redisRefreshTokenKey t) = Some (v, Some d)" "d \<le> cur E w"
    using assms(2) by (cases x) (auto simp: live_def split: option.splits if_splits)
  moreover have "cur E w \<le> cur E w'" using assms(1,4) by (rule cur_mono)
  ultimately show ?thesis by (simp add: token_gone_def deadline_def assms(3))
qed

lemma rt_Find_missing:
  assumes "token_inv E w" and "rt_FindByToken E t w = (Inl ErrRefreshTokenNotFound, w')"
  shows "kept_tokens E w t = None \<or> token_gone E w' t"
proof -
  note L = token_inv_laws [OF assms(1)]
  consider (nil) e where "redis_do E (GET (redisRefreshTokenKey t)) w = (Inl e, w')" "e = RedisNil \<or> e = ErrRefreshTokenNotFound"
    | (codec) s where "unmarshal_record E s = Inl ErrRefreshTokenNotFound"
    using assms(2) by (auto simp: rt_FindByToken_def split: prod.splits sum.splits if_splits)
  then show ?thesis
  proof cases
    case nil
    then have "e = RedisNil" using redis_do_err(1) [OF L(1) nil(1)] by auto
    then have "live (cur E w) (kspace E w) (redisRefreshTokenKey t) = None"
      using redis_do_err(3) [OF L(1) nil(1)] by auto
    then show ?thesis
      using not_live_gone [OF L(3)] rt_Find_frame [OF L(1) assms(2)] by simp
  next
    case codec
    then show ?thesis using unmarshal_external(1) [OF L(2) codec] by simp
  qed
qed

text \<open>
  One rewrite: either nothing is written, and \<open>not found\<close> then means unreadable, or the new
  status is stored for a token that had not expired.
\<close>

lemma rt_Update_after_find:
  "rt_FindByToken E t w = (Inr rt, w1) \<Longrightarrow> rt_UpdateStatus E t st w =
     (case marshal_record E (record_of (set_status st rt)) of
        Inl e \<Rightarrow> (Inl e, w1)
      | Inr payload \<Rightarrow>
          if time_sub (rt_ExpiresAt rt) (cur E w1) \<le> 0 then (Inl ErrRefreshTokenNotFound, step w1)
          else (case redis_do E (SET (redisRefreshTokenKey t) payload (time_sub (rt_ExpiresAt rt) (cur E w1))) (step w1) of
                  (Inl e, w) \<Rightarrow> (Inl e, w) | (Inr _, w) \<Rightarrow> (Inr (), w)))"
  by (cases "marshal_record E (record_of (set_status st rt))")
    (auto simp: rt_UpdateStatus_def time_now_def Let_def set_status_def)

lemma rt_Update_cases:
  assumes inv: "token_inv E w" and call: "rt_UpdateStatus E t st w = (res, w')"
  shows "tick w \<le> tick w' \<and>
    ((\<exists>e. res = Inl e \<and> kspace E w' = kspace E w
        \<and> (e = ErrRefreshTokenNotFound \<longrightarrow> kept_tokens E w t = None \<or> token_gone E w' t))
     \<or> (\<exists>rt s d. res \<noteq> Inl ErrRefreshTokenNotFound \<and> kept_tokens E w t = Some rt \<and> rt_Token rt = t
        \<and> \<not> token_gone E w t \<and> unmarshal_record E s = Inr (record_of (set_status st rt))
        \<and> kspace E w' = (kspace E w)(redisRefreshTokenKey t \<mapsto> (VStr s, Some d))))"
proof -
  note L = token_inv_laws [OF inv]
  obtain fres w1 where f: "rt_FindByToken E t w = (fres, w1)" by (cases "rt_FindByToken E t w")
  note fr = rt_Find_frame [OF L(1) f]
  show ?thesis
  proof (cases fres)
    case (Inl e)
    with f call have "res = Inl e" "w' = w1" by (auto simp: rt_UpdateStatus_def)
    with rt_Find_missing [OF inv] f Inl fr show ?thesis by auto
  next
    case (Inr rt)
    note ok = rt_Find_ok [OF inv f [unfolded Inr]]
    note eq = call [unfolded rt_Update_after_find [OF f [unfolded Inr]]]
    show ?thesis
    proof (cases "marshal_record E (record_of (set_status st rt))")
      case (Inl e)
      with eq have "res = Inl e" "w' = w1" by auto
      with unmarshal_external(2) [OF L(2) Inl] fr show ?thesis by auto
    next
      case (Inr payload)
      let ?ttl = "time_sub (rt_ExpiresAt rt) (cur E w1)"
      note eq2 = eq [unfolded Inr sum.case]
      show ?thesis
      proof (cases "?ttl \<le> 0")
        case True
        with eq2 have "res = Inl ErrRefreshTokenNotFound" "w' = step w1" by auto
        moreover have "rt_ExpiresAt rt \<le> cur E (step w1)"
          using True cur_mono [OF L(3), of w1 "step w1"] by (simp add: time_sub_nonpos_iff)
        ultimately show ?thesis
          using ok(1) fr kept_same_space [of E "step w1" w] by (simp add: token_gone_def)
      next
        case False
        obtain x w2 where x: "redis_do E (SET (redisRefreshTokenKey t) payload ?ttl) (step w1) = (x, w2)"
          by (cases "redis_do E (SET (redisRefreshTokenKey t) payload ?ttl) (step w1)")
        with eq2 False have res: "w' = w2" "res = (case x of Inl e \<Rightarrow> Inl e | Inr _ \<Rightarrow> Inr ())"
          by (auto split: sum.splits)
        have ticks: "tick w \<le> tick w'" using redis_do_frame [OF x] fr res by simp
        have "rt_ExpiresAt rt > cur E w1" using False by (simp add: time_sub_nonpos_iff)
        then have fresh: "\<not> token_gone E w t"
          using ok(1,3) cur_mono [OF L(3), of w w1] fr(2) by (auto simp: token_gone_def deadline_def)
        let ?ks = "(kspace E w)(redisRefreshTokenKey t \<mapsto> (VStr payload, Some (cur E (step w1) + px_ttl ?ttl)))"
        have unm: "unmarshal_record E payload = Inr (record_of (set_status st rt))"
          using unmarshal_external(3) [OF L(2) Inr] .
        have "kspace E w2 = ?ks \<or> (\<exists>e. x = Inl e \<and> external e \<and> kspace E w2 = kspace E w)"
          using redis_do_ok(2) [OF L(1)] redis_do_err(1,2) [OF L(1)] x fr(1) by (cases x) fastforce+
        moreover have "x \<noteq> Inl ErrRefreshTokenNotFound"
          using redis_do_err(1) [OF L(1)] x by fastforce
        ultimately show ?thesis using res ticks ok(1,2) fresh unm by (auto split: sum.splits)
      qed
    qed
  qed
qed

text \<open>What the repository fails with: \<open>not found\<close>, or an error of Redis or of the codec.\<close>

lemma rt_Find_errors:
  assumes "redis_laws (redis E)" and "codec_laws E" and "rt_FindByToken E t w = (Inl e, w')"
  shows "token_error e"
  using assms(3) redis_do_err(1) [OF assms(1)] unmarshal_external(1) [OF assms(2)]
  by (auto simp: rt_FindByToken_def token_error_def split: prod.splits sum.splits if_splits)

lemma rt_Update_errors:
  assumes "redis_laws (redis E)" and "codec_laws E" and "rt_UpdateStatus E t st w = (Inl e, w')"
  shows "token_error e"
  using assms(3) redis_do_err(1) [OF assms(1)] unmarshal_external(2) [OF assms(2)] rt_Find_errors [OF assms(1,2)]
  by (auto simp: rt_UpdateStatus_def token_error_def time_now_def Let_def split: prod.splits sum.splits if_splits)

section \<open>Storing a new token\<close>

fun add_member :: "string \<Rightarrow> (redis_val \<times> instant option) option \<Rightarrow> (redis_val \<times> instant option) option" where
  "add_member m (Some (VSet ms, dl)) = Some (VSet (if m \<in> set ms then ms else ms @ [m]), dl)"
| "add_member m _ = Some (VSet [m], None)"

lemma members_add [simp]: "members (add_member m x) = insert m (members x)"
  by (cases "(m, x)" rule: add_member.cases) auto

lemma index_entry_add: "index_entry x \<Longrightarrow> index_entry (add_member m x)"
  by (cases x rule: index_entry.cases) auto

lemma sadd_effect: "index_entry (ks k) \<Longrightarrow> redis_effect t (SADD k m) ks = ks(k := add_member m (ks k))"
  by (cases "ks k" rule: index_entry.cases) (auto simp: live_def deadline_def)

lemma sadd_typed: "index_entry (ks k) \<Longrightarrow> well_typed t ks (SADD k m)"
  by (cases "ks k" rule: index_entry.cases) (auto simp: live_def)

definition put_entry :: "refresh_token \<Rightarrow> string \<Rightarrow> instant \<Rightarrow> keyspace \<Rightarrow> keyspace" where
  "put_entry rt s d ks =
     (let uk = redisUserRefreshTokensKey (rt_UserID rt); sk = redisSessionRefreshTokensKey (rt_SessionID rt) in
      ks(redisRefreshTokenKey (rt_Token rt) \<mapsto> (VStr s, Some d),
         uk := add_member (rt_Token rt) (ks uk), sk := add_member (rt_Token rt) (ks sk)))"

lemma put_entry_at:
  "put_entry rt s d ks (redisRefreshTokenKey t) =
     (if t = rt_Token rt then Some (VStr s, Some d) else ks (redisRefreshTokenKey t))"
  "put_entry rt s d ks (redisUserRefreshTokensKey u) =
     (if u = rt_UserID rt then add_member (rt_Token rt) (ks (redisUserRefreshTokensKey u))
      else ks (redisUserRefreshTokensKey u))"
  "put_entry rt s d ks (redisSessionRefreshTokensKey i) =
     (if i = rt_SessionID rt then add_member (rt_Token rt) (ks (redisSessionRefreshTokensKey i))
      else ks (redisSessionRefreshTokensKey i))"
  by (simp_all add: put_entry_def Let_def)

lemma put_entry_ok:
  assumes "keyspace_ok E ks" and "unmarshal_record E s = Inr (record_of rt)"
  shows "keyspace_ok E (put_entry rt s d ks)"
proof -
  have grow: "token_entry E ks t x \<Longrightarrow> token_entry E (put_entry rt s d ks) t x" for t x
    by (rule token_entry_members [of ks]) (auto simp: put_entry_at)
  have new: "token_entry E (put_entry rt s d ks) (rt_Token rt) (Some (VStr s, Some d))"
    using assms(2) by (simp add: put_entry_at record_of_def)
  show ?thesis
    using assms(1) grow new index_entry_add by (auto simp: keyspace_ok_def put_entry_at)
qed

lemma rt_Create_cases:
  assumes inv: "token_inv E w" and call: "rt_Create E rt w = (res, w')"
  shows "tick w \<le> tick w' \<and>
    ((res \<noteq> Inr () \<and> kspace E w' = kspace E w)
     \<or> (\<exists>s d. unmarshal_record E s = Inr (record_of rt) \<and> kspace E w' = put_entry rt s d (kspace E w)))"
proof -
  note L = token_inv_laws [OF inv]
  show ?thesis
  proof (cases "marshal_record E (record_of rt)")
    case (Inl e)
    with call show ?thesis by (auto simp: rt_Create_def)
  next
    case (Inr payload)
    let ?ttl = "time_sub (rt_ExpiresAt rt) (cur E w)"
    show ?thesis
    proof (cases "?ttl \<le> 0")
      case True
      with call Inr show ?thesis by (auto simp: rt_Create_def time_now_def Let_def)
    next
      case False
      let ?uk = "redisUserRefreshTokensKey (rt_UserID rt)" and ?sk = "redisSessionRefreshTokensKey (rt_SessionID rt)"
      let ?cs = "[SET (redisRefreshTokenKey (rt_Token rt)) payload ?ttl, SADD ?uk (rt_Token rt), SADD ?sk (rt_Token rt)]"
      let ?t = "cur E (step w)"
      have tx: "redis_tx E ?cs (step w) = (res, w')"
        using call Inr False by (simp add: rt_Create_def time_now_def Let_def)
      have ix: "index_entry (kspace E w ?uk)" "index_entry (kspace E w ?sk)"
        using L(4) by (auto simp: keyspace_ok_def)
      have typed: "list_all (well_typed ?t (kspace E (step w))) ?cs"
        using sadd_typed [where ks = "kspace E w" and k = ?uk, OF ix(1)]
          sadd_typed [where ks = "kspace E w" and k = ?sk, OF ix(2)]
        by (simp del: well_typed.simps(1))
      have eff: "fold (redis_effect ?t) ?cs (kspace E (step w)) =
          put_entry rt payload (?t + px_ttl ?ttl) (kspace E w)"
        using ix by (simp add: put_entry_def Let_def sadd_effect del: redis_effect.simps(5))
      have ticks: "tick w \<le> tick w'" using redis_tx_frame [OF tx] by simp
      have unm: "unmarshal_record E payload = Inr (record_of rt)" using unmarshal_external(3) [OF L(2) Inr] .
      show ?thesis
      proof (cases res)
        case (Inl e)
        have "kspace E w' \<in> {kspace E w, put_entry rt payload (?t + px_ttl ?ttl) (kspace E w)}"
          using redis_tx_err(2) [OF L(1) tx [unfolded Inl] typed] unfolding eff by simp
        with Inl ticks unm show ?thesis by auto
      next
        case (Inr x)
        have "kspace E w' = put_entry rt payload (?t + px_ttl ?ttl) (kspace E w)"
          using redis_tx_ok [OF L(1)] tx Inr unfolding eff [symmetric] by simp
        with ticks unm show ?thesis by blast
      qed
    qed
  qed
qed

lemma rt_Create_refusals:
  assumes inv: "token_inv E w" and call: "rt_Create E rt w = (Inl e, w')"
  shows "external e \<or> e = ErrRefreshTokenNotFound \<and> rt_ExpiresAt rt \<le> cur E w \<and> w' = step w"
proof (cases "marshal_record E (record_of rt)")
  case (Inl e')
  with call have "e = e'" by (simp add: rt_Create_def)
  with unmarshal_external(2) [OF token_inv_laws(2) [OF inv] Inl] show ?thesis by simp
next
  case (Inr payload)
  note L = token_inv_laws [OF inv]
  let ?ttl = "time_sub (rt_ExpiresAt rt) (cur E w)"
  let ?cs = "[SET (redisRefreshTokenKey (rt_Token rt)) payload ?ttl, SADD (redisUserRefreshTokensKey (rt_UserID rt)) (rt_Token rt),
    SADD (redisSessionRefreshTokensKey (rt_SessionID rt)) (rt_Token rt)]"
  show ?thesis
  proof (cases "?ttl \<le> 0")
    case True
    with call Inr have "e = ErrRefreshTokenNotFound" "w' = step w" by (simp_all add: rt_Create_def time_now_def)
    then show ?thesis using True by (simp add: time_sub_nonpos_iff)
  next
    case False
    with call Inr have tx: "redis_tx E ?cs (step w) = (Inl e, w')" by (simp add: rt_Create_def time_now_def)
    have "index_entry (kspace E w (redisUserRefreshTokensKey u))" "index_entry (kspace E w (redisSessionRefreshTokensKey i))" for u i
      using L(4) by (auto simp: keyspace_ok_def)
    then have "list_all (well_typed (cur E (step w)) (kspace E (step w))) ?cs"
      by (simp add: sadd_typed del: well_typed.simps(1))
    then show ?thesis using redis_tx_err(1) [OF L(1) tx] by simp
  qed
qed

lemma rt_Create_errors: "token_inv E w \<Longrightarrow> rt_Create E rt w = (Inl e, w') \<Longrightarrow> token_error e"
  using rt_Create_refusals by (fastforce simp: token_error_def)

section \<open>The contract holds\<close>

lemma rewrite_token:
  assumes "kept_tokens E w t = Some rt" and "rt_Token rt = t"
    and "unmarshal_record E s = Inr (record_of (set_status st rt))"
    and "kspace E w' = (kspace E w)(redisRefreshTokenKey t \<mapsto> (VStr s, Some d))"
  shows "kept_tokens E w' = (kept_tokens E w)(t \<mapsto> set_status st rt)" and "token_indexes E w' = token_indexes E w"
    and "token_inv E w \<Longrightarrow> token_inv E w'"
proof -
  show "kept_tokens E w' = (kept_tokens E w)(t \<mapsto> set_status st rt)"
    using assms by (auto simp: kept_tokens_def fun_eq_iff)
  show "token_indexes E w' = token_indexes E w"
    using assms(4) by (simp add: token_indexes_def)
  assume inv: "token_inv E w"
  note ok = token_inv_laws(4) [OF inv]
  have "token_entry E (kspace E w) t (kspace E w (redisRefreshTokenKey t))" by (rule token_entry_ok [OF ok])
  then have "t \<in> members (kspace E w (redisUserRefreshTokensKey (rt_UserID rt)))"
    "t \<in> members (kspace E w (redisSessionRefreshTokensKey (rt_SessionID rt)))"
    using assms(1) unfolding kept_tokens_def
    by (cases "(E, kspace E w, t, kspace E w (redisRefreshTokenKey t))" rule: token_entry.cases;
        auto split: sum.splits simp: token_of_def)+
  with keyspace_ok_put [OF ok assms(3)] have "keyspace_ok E (kspace E w')"
    unfolding assms(4) by (simp add: record_of_def)
  with inv show "token_inv E w'" by (simp add: token_inv_def)
qed

lemma put_token_world:
  assumes "unmarshal_record E s = Inr (record_of rt)" and "kspace E w' = put_entry rt s d (kspace E w)"
  shows "kept_tokens E w' = (kept_tokens E w)(rt_Token rt \<mapsto> rt)"
    and "token_indexes E w' = put_token rt (token_indexes E w)"
    and "token_inv E w \<Longrightarrow> token_inv E w'"
proof -
  show "kept_tokens E w' = (kept_tokens E w)(rt_Token rt \<mapsto> rt)"
    using assms by (simp add: kept_tokens_def put_entry_at fun_eq_iff)
  show "token_indexes E w' = put_token rt (token_indexes E w)"
    unfolding token_indexes_def put_token_def assms(2) by (simp add: put_entry_at fun_eq_iff)
  show "token_inv E w \<Longrightarrow> token_inv E w'"
    unfolding token_inv_def assms(2) using put_entry_ok [OF _ assms(1)] by blast
qed

lemma reply_members:
  assumes "redis_laws (redis E)" and "index_entry (kspace E w k)"
    and "redis_do E (SMEMBERS k) w = (Inr rep, w')"
  shows "set (reply_list rep) = members (kspace E w k)" and "kspace E w' = kspace E w"
  using redis_do_ok [OF assms(1,3)] assms(2)
  by (cases "kspace E w k" rule: index_entry.cases; cases rep; simp add: live_def)+

lemma gone_frame:
  assumes "token_inv E w" and "tick w \<le> tick w'" and "token_gone E w s"
    and "kspace E w' (redisRefreshTokenKey s) = kspace E w (redisRefreshTokenKey s)"
  shows "token_gone E w' s"
  using token_gone_later [OF token_inv_laws(3) [OF assms(1)] assms(2,3,4)] .

interpretation redis_cells: token_cells
  "rt_FindByToken E" "rt_UpdateStatus E" "kept_tokens E" "token_gone E" "token_indexes E" "token_inv E" for E
proof unfold_locales
  fix w t rt w'
  show "token_inv E w \<Longrightarrow> rt_FindByToken E t w = (Inr rt, w') \<Longrightarrow> kept_tokens E w t = Some rt"
    by (rule rt_Find_ok(1))
next
  fix w t w'
  show "token_inv E w \<Longrightarrow> rt_FindByToken E t w = (Inl ErrRefreshTokenNotFound, w') \<Longrightarrow>
      kept_tokens E w t = None \<or> token_gone E w' t"
    by (rule rt_Find_missing)
next
  fix w t fres w'
  assume inv: "token_inv E w" and "rt_FindByToken E t w = (fres, w')"
  then have "kspace E w' = kspace E w" using rt_Find_frame token_inv_laws(1) by blast
  then show "token_inv E w' \<and> kept_tokens E w' = kept_tokens E w \<and> token_indexes E w' = token_indexes E w"
    using inv token_inv_same_space kept_same_space indexes_same_space by blast
next
  fix w t fres w' s
  assume inv: "token_inv E w" and "rt_FindByToken E t w = (fres, w')" and gone: "token_gone E w s"
  then have "kspace E w' = kspace E w" "tick w' = Suc (tick w)" using rt_Find_frame token_inv_laws(1) by blast+
  then show "token_gone E w' s" using gone_frame [OF inv _ gone] by simp
next
  fix w t st w'
  assume "token_inv E w" and "rt_UpdateStatus E t st w = (Inr (), w')"
  from rt_Update_cases [OF this] obtain rt s d where u: "kept_tokens E w t = Some rt" "rt_Token rt = t"
    "\<not> token_gone E w t" "unmarshal_record E s = Inr (record_of (set_status st rt))"
    "kspace E w' = (kspace E w)(redisRefreshTokenKey t \<mapsto> (VStr s, Some d))" by blast
  then show "\<not> token_gone E w t \<and> (\<exists>rt. kept_tokens E w t = Some rt
      \<and> kept_tokens E w' = (kept_tokens E w)(t \<mapsto> set_status st rt))"
    using rewrite_token(1) [OF u(1,2,4,5)] by blast
next
  fix w t st e w'
  assume "token_inv E w" and "rt_UpdateStatus E t st w = (Inl e, w')"
  from rt_Update_cases [OF this] show "kept_tokens E w' = kept_tokens E w
      \<or> (\<exists>rt. kept_tokens E w t = Some rt \<and> kept_tokens E w' = (kept_tokens E w)(t \<mapsto> set_status st rt))"
    using kept_same_space rewrite_token(1) by blast
next
  fix w t st w'
  assume "token_inv E w" and "rt_UpdateStatus E t st w = (Inl ErrRefreshTokenNotFound, w')"
  from rt_Update_cases [OF this] show "kept_tokens E w' = kept_tokens E w \<and> (kept_tokens E w t = None \<or> token_gone E w' t)"
    using kept_same_space by blast
next
  fix w t st res w'
  assume inv: "token_inv E w" and "rt_UpdateStatus E t st w = (res, w')"
  from rt_Update_cases [OF this] show "token_inv E w' \<and> token_indexes E w' = token_indexes E w"
    using token_inv_same_space [OF inv] indexes_same_space rewrite_token(2) rewrite_token(3) [OF _ _ _ _ inv] by blast
next
  fix w t st res w' s
  assume inv: "token_inv E w" and call: "rt_UpdateStatus E t st w = (res, w')" and gone: "token_gone E w s"
  note cases = rt_Update_cases [OF inv call]
  then have "kspace E w' (redisRefreshTokenKey s) = kspace E w (redisRefreshTokenKey s)"
    using gone by (cases "s = t") auto
  then show "token_gone E w' s" using gone_frame [OF inv _ gone] cases by blast
next
  fix w t e w'
  show "token_inv E w \<Longrightarrow> rt_FindByToken E t w = (Inl e, w') \<Longrightarrow> token_error e"
    using rt_Find_errors token_inv_laws(1,2) by blast
next
  fix w t st e w'
  show "token_inv E w \<Longrightarrow> rt_UpdateStatus E t st w = (Inl e, w') \<Longrightarrow> token_error e"
    using rt_Update_errors token_inv_laws(1,2) by blast
qed

lemmas rt_repo_defs = RedisRefreshTokenRepository_def rt_RevokeByToken_def

lemma rt_all_cases:
  assumes "token_inv E w" and "k = redisSessionRefreshTokensKey i \<or> k = redisUserRefreshTokensKey i"
    and "(case redis_do E (SMEMBERS k) w of (Inl e, w) \<Rightarrow> (Inl e, w)
          | (Inr tokens, w) \<Rightarrow> revoke_loop (rt_FindByToken E) (rt_UpdateStatus E) (reply_list tokens) w) = (res, w')"
  shows "(\<exists>ts w1. set ts = members (kspace E w k) \<and> redis_cells.revokes E w w1 \<and> kept_tokens E w1 = kept_tokens E w
        \<and> revoke_loop (rt_FindByToken E) (rt_UpdateStatus E) ts w1 = (res, w'))
      \<or> (\<exists>e. res = Inl e \<and> external e \<and> redis_cells.revokes E w w' \<and> kept_tokens E w' = kept_tokens E w)"
proof -
  note L = token_inv_laws [OF assms(1)]
  obtain x w1 where x: "redis_do E (SMEMBERS k) w = (x, w1)" by (cases "redis_do E (SMEMBERS k) w")
  have space: "kspace E w1 = kspace E w"
    using redis_do_ok(2) [OF L(1)] redis_do_err(2) [OF L(1)] x by (cases x) fastforce+
  have "tick w \<le> tick w1" using redis_do_frame [OF x] by simp
  then have "redis_cells.revokes E w w1"
    unfolding redis_cells.revokes_def
    using space gone_frame [OF assms(1)] kept_same_space [OF space] indexes_same_space [OF space]
      token_inv_same_space [OF assms(1) space] by simp
  moreover have "index_entry (kspace E w k)" using L(4) assms(2) by (auto simp: keyspace_ok_def)
  ultimately show ?thesis
    using assms(3) x reply_members(1) [OF L(1)] redis_do_err(1) [OF L(1)] kept_same_space [OF space] by (cases x) auto
qed

interpretation redis_tokens: token_store
  "RedisRefreshTokenRepository E" "kept_tokens E" "token_gone E" "token_indexes E" "token_inv E"
  rewrites "rtr_FindByToken (RedisRefreshTokenRepository E) = rt_FindByToken E"
    and "rtr_UpdateStatus (RedisRefreshTokenRepository E) = rt_UpdateStatus E"
  for E
proof -
  let ?R = "RedisRefreshTokenRepository E"
  have fu: "rtr_FindByToken ?R = rt_FindByToken E" "rtr_UpdateStatus ?R = rt_UpdateStatus E"
    by (simp_all add: rt_repo_defs)
  then show "rtr_FindByToken ?R = rt_FindByToken E" "rtr_UpdateStatus ?R = rt_UpdateStatus E" by auto
  show "token_store ?R (kept_tokens E) (token_gone E) (token_indexes E) (token_inv E)"
  proof (unfold token_store_def token_store_axioms_def fu, intro conjI allI impI)
    show "token_cells (rt_FindByToken E) (rt_UpdateStatus E) (kept_tokens E) (token_gone E) (token_indexes E) (token_inv E)"
      by (rule redis_cells.token_cells_axioms)
  next
    fix w rt w'
    assume inv: "token_inv E w" and "rtr_Create ?R rt w = (Inr (), w')"
    then have call: "rt_Create E rt w = (Inr (), w')" by (simp add: rt_repo_defs)
    then obtain s d where "unmarshal_record E s = Inr (record_of rt)" "kspace E w' = put_entry rt s d (kspace E w)"
      using rt_Create_cases [OF inv] by blast
    from put_token_world(1,2) [OF this]
    show "kept_tokens E w' = (kept_tokens E w)(rt_Token rt \<mapsto> rt)"
      "token_indexes E w' = put_token rt (token_indexes E w)" .
  next
    fix w rt e w'
    assume inv: "token_inv E w" and "rtr_Create ?R rt w = (Inl e, w')"
    then have call: "rt_Create E rt w = (Inl e, w')" by (simp add: rt_repo_defs)
    from rt_Create_cases [OF inv call] put_token_world(1) [where E = E and rt = rt and w = w and w' = w']
      put_token_world(2) [where E = E and rt = rt and w = w and w' = w']
      kept_same_space [of E w' w] indexes_same_space [of E w' w]
    show "(kept_tokens E w' = kept_tokens E w \<and> token_indexes E w' = token_indexes E w)
        \<or> (kept_tokens E w' = (kept_tokens E w)(rt_Token rt \<mapsto> rt) \<and> token_indexes E w' = put_token rt (token_indexes E w))"
      by blast
  next
    fix w rt res w'
    assume inv: "token_inv E w" and "rtr_Create ?R rt w = (res, w')"
    then have call: "rt_Create E rt w = (res, w')" by (simp add: rt_repo_defs)
    from rt_Create_cases [OF inv call] put_token_world(3) [OF _ _ inv] token_inv_same_space [OF inv]
    show "token_inv E w'" by blast
  next
    fix w rt res w' s
    assume inv: "token_inv E w" and "rtr_Create ?R rt w = (res, w')" and gone: "token_gone E w s" and s: "s \<noteq> rt_Token rt"
    then have call: "rt_Create E rt w = (res, w')" by (simp add: rt_repo_defs)
    note cases = rt_Create_cases [OF inv call]
    then have "kspace E w' (redisRefreshTokenKey s) = kspace E w (redisRefreshTokenKey s)"
      using s by (auto simp: put_entry_at)
    then show "token_gone E w' s" using gone_frame [OF inv _ gone] cases by blast
  next
    fix t
    show "rtr_RevokeByToken ?R t = rt_UpdateStatus E t ''REVOKED''" by (simp add: rt_repo_defs fun_eq_iff)
  next
    fix w i res w'
    assume inv: "token_inv E w" and "rtr_RevokeAllBySession ?R i w = (res, w')"
    then show "(\<exists>ts w1. set ts = snd (token_indexes E w) i \<and> redis_cells.revokes E w w1 \<and> kept_tokens E w1 = kept_tokens E w
        \<and> revoke_loop (rt_FindByToken E) (rt_UpdateStatus E) ts w1 = (res, w'))
        \<or> (\<exists>e. res = Inl e \<and> external e \<and> redis_cells.revokes E w w' \<and> kept_tokens E w' = kept_tokens E w)"
      using rt_all_cases [OF inv, of _ i res w']
      by (simp add: rt_repo_defs rt_RevokeAllBySession_def token_indexes_def)
  next
    fix w u res w'
    assume inv: "token_inv E w" and "rtr_RevokeAllByUser ?R u w = (res, w')"
    then show "(\<exists>ts w1. set ts = fst (token_indexes E w) u \<and> redis_cells.revokes E w w1 \<and> kept_tokens E w1 = kept_tokens E w
        \<and> revoke_loop (rt_FindByToken E) (rt_UpdateStatus E) ts w1 = (res, w'))
        \<or> (\<exists>e. res = Inl e \<and> external e \<and> redis_cells.revokes E w w' \<and> kept_tokens E w' = kept_tokens E w)"
      using rt_all_cases [OF inv, of _ u res w']
      by (simp add: rt_repo_defs rt_RevokeAllByUser_def token_indexes_def)
  next
    fix w rt e w'
    assume inv: "token_inv E w" and call: "rtr_Create ?R rt w = (Inl e, w')"
    then have "rt_Create E rt w = (Inl e, w')" by (simp add: rt_repo_defs)
    then show "token_error e" using rt_Create_errors [OF inv] by blast
  next
    fix w t rt
    assume inv: "token_inv E w" and kept: "kept_tokens E w t = Some rt"
    note ok = token_entry_ok [OF token_inv_laws(4) [OF inv], of t]
    show "rt_Token rt = t" "t \<in> fst (token_indexes E w) (rt_UserID rt)" "t \<in> snd (token_indexes E w) (rt_SessionID rt)"
      using ok kept unfolding kept_tokens_def token_indexes_def
      by (cases "(E, kspace E w, t, kspace E w (redisRefreshTokenKey t))" rule: token_entry.cases;
          auto split: sum.splits simp: token_of_def)+
  qed
qed

section \<open>What these calls leave alone\<close>

definition only_redis :: "'r world \<Rightarrow> 'r world \<Rightarrow> bool" where
  "only_redis w w' \<longleftrightarrow> tick w \<le> tick w' \<and> users w' = users w \<and> sessions w' = sessions w
     \<and> audit_logs w' = audit_logs w \<and> access_log w' = access_log w"

lemma only_redis_refl [simp]: "only_redis w w" "only_redis w (step w)"
  by (simp_all add: only_redis_def)

lemma only_redis_trans: "only_redis a b \<Longrightarrow> only_redis b c \<Longrightarrow> only_redis a c"
  by (simp add: only_redis_def)

lemma redis_only_redis: "redis_do E c w = (rep, w') \<Longrightarrow> only_redis w w'" "redis_tx E cs w = (res, w') \<Longrightarrow> only_redis w w'"
  by (auto simp: only_redis_def dest: redis_do_frame redis_tx_frame)

lemma only_redis_step: "only_redis (step w) w' \<Longrightarrow> only_redis w w'"
  by (simp add: only_redis_def)

lemma rt_Find_only_redis: "rt_FindByToken E t w = (fres, w') \<Longrightarrow> only_redis w w'"
  by (auto simp: rt_FindByToken_def split: prod.splits sum.splits if_splits dest: redis_only_redis)

lemma rt_Create_only_redis: "rt_Create E rt w = (res, w') \<Longrightarrow> only_redis w w'"
  by (auto simp: rt_Create_def time_now_def Let_def split: sum.splits if_splits
      dest!: redis_only_redis intro: only_redis_step)

lemma rt_Update_only_redis:
  assumes "rt_UpdateStatus E t st w = (res, w')"
  shows "only_redis w w'"
proof -
  obtain fres w1 where f: "rt_FindByToken E t w = (fres, w1)" by (cases "rt_FindByToken E t w")
  show ?thesis
  proof (cases fres)
    case (Inl e)
    with assms f rt_Find_only_redis show ?thesis by (auto simp: rt_UpdateStatus_def)
  next
    case (Inr rt)
    have "only_redis w1 w'"
      using assms unfolding rt_Update_after_find [OF f [unfolded Inr]]
      by (auto split: sum.splits if_splits prod.splits dest!: redis_only_redis intro: only_redis_step)
    with rt_Find_only_redis [OF f] show ?thesis by (rule only_redis_trans)
  qed
qed

lemma revoke_loop_only_redis: "revoke_loop (rt_FindByToken E) (rt_UpdateStatus E) ts w = (res, w') \<Longrightarrow> only_redis w w'"
proof (induction ts arbitrary: w)
  case (Cons t ts)
  obtain fres w1 where f: "rt_FindByToken E t w = (fres, w1)" by (cases "rt_FindByToken E t w")
  obtain ures w2 where u: "rt_UpdateStatus E t ''REVOKED'' w1 = (ures, w2)" by (cases "rt_UpdateStatus E t ''REVOKED'' w1")
  have r: "only_redis w w1" "only_redis w1 w2" using rt_Find_only_redis [OF f] rt_Update_only_redis [OF u] by auto
  have "w' = w1 \<or> w' = w2 \<or> only_redis w1 w' \<or> only_redis w2 w'"
    using Cons.prems f u Cons.IH [of w1] Cons.IH [of w2] by (auto split: sum.splits if_splits)
  with r only_redis_trans show ?case by blast
qed simp

lemma rt_all_only_redis:
  "rt_RevokeAllBySession E i w = (res, w') \<Longrightarrow> only_redis w w'" "rt_RevokeAllByUser E i w = (res, w') \<Longrightarrow> only_redis w w'"
  unfolding rt_RevokeAllBySession_def rt_RevokeAllByUser_def
  by (auto split: prod.splits sum.splits dest!: redis_only_redis revoke_loop_only_redis intro: only_redis_trans)

lemma redis_tokens_frame [frame]:
  "rtr_Create (RedisRefreshTokenRepository E) rt w = (res, w') \<Longrightarrow> only_redis w w'"
  "rt_FindByToken E t w = (fres, w') \<Longrightarrow> only_redis w w'"
  "rt_UpdateStatus E t st w = (res, w') \<Longrightarrow> only_redis w w'"
  "rtr_RevokeByToken (RedisRefreshTokenRepository E) t w = (res, w') \<Longrightarrow> only_redis w w'"
  "rtr_RevokeAllBySession (RedisRefreshTokenRepository E) i w = (res, w') \<Longrightarrow> only_redis w w'"
  "rtr_RevokeAllByUser (RedisRefreshTokenRepository E) u w = (res, w') \<Longrightarrow> only_redis w w'"
  by (auto simp: rt_repo_defs intro: rt_Create_only_redis rt_Find_only_redis rt_Update_only_redis rt_all_only_redis)

end
