(* ===== verification/User_Repository.thy ===== *)
theory User_Repository
  imports World
begin

text \<open>
  \<open>internal/repository/user_repository.go\<close>: the interface \<open>UserRepository\<close> as a record of
  functions, its contract as the locale \<open>user_directory\<close>, and the PostgreSQL
  implementation over the table \<open>users\<close> of \<open>db/schema.sql\<close> (primary key \<open>id\<close>, unique
  \<open>email\<close>, \<open>email\<close> of at most 255 characters).
\<close>

section \<open>The interface and its contract\<close>

record 'w user_repository =
  ur_FindByEmail :: "string \<Rightarrow> 'w \<Rightarrow> (err + user) \<times> 'w"
  ur_FindByID :: "string \<Rightarrow> 'w \<Rightarrow> (err + user) \<times> 'w"
  ur_CreateUser :: "user \<Rightarrow> 'w \<Rightarrow> (err + user) \<times> 'w"

text \<open>
  The contract: \<open>rows\<close> are the registered users, \<open>norm\<close> is the normal form of an address.
  Lookups change nothing and find exactly the row of the normalised address; creation
  appends a row with a fresh address, or fails and appends at most such a row.
\<close>

definition fresh_user :: "user list \<Rightarrow> user \<Rightarrow> bool" where
  "fresh_user us u \<longleftrightarrow> list_all (\<lambda>v. u_ID v \<noteq> u_ID u \<and> u_Email v \<noteq> u_Email u) us"

locale user_directory =
  fixes repo :: "'w user_repository"
    and rows :: "'w \<Rightarrow> user list"
    and norm :: "string \<Rightarrow> string"
    and key :: "string \<Rightarrow> string option"
    and ok :: bool
  assumes by_email_ok: "ur_FindByEmail repo em w = (Inr u, w') \<Longrightarrow> u \<in> set (rows w) \<and> u_Email u = norm em"
    and by_email_missing: "ok \<Longrightarrow> ur_FindByEmail repo em w = (Inl ErrNoRows, w') \<Longrightarrow> u \<in> set (rows w) \<Longrightarrow> u_Email u \<noteq> norm em"
    and by_email_frame: "ur_FindByEmail repo em w = (res, w') \<Longrightarrow> rows w' = rows w"
    and by_email_errors: "ok \<Longrightarrow> ur_FindByEmail repo em w = (Inl e, w') \<Longrightarrow> e = ErrNoRows \<or> external e"
    and by_id_ok: "ur_FindByID repo i w = (Inr u, w') \<Longrightarrow> u \<in> set (rows w) \<and> key i = Some (u_ID u)"
    and by_id_errors: "ok \<Longrightarrow> ur_FindByID repo i w = (Inl e, w') \<Longrightarrow> e = ErrNoRows \<or> external e"
    and by_id_frame: "ur_FindByID repo i w = (res, w') \<Longrightarrow> rows w' = rows w"
    and create_ok: "ur_CreateUser repo u w = (Inr u', w') \<Longrightarrow>
      rows w' = rows w @ [u'] \<and> fresh_user (rows w) u' \<and> u_Email u' = norm (u_Email u)
      \<and> u_HashedPassword u' = u_HashedPassword u"
    and create_errors: "ok \<Longrightarrow> ur_CreateUser repo u w = (Inl e, w') \<Longrightarrow>
      external e \<or> (e = ErrDuplicateEmail \<and> \<not> (\<forall>v \<in> set (rows w). u_Email v \<noteq> norm (u_Email u) \<and> key (u_ID u) \<noteq> Some (u_ID v)))"
    and create_err: "ur_CreateUser repo u w = (Inl e, w') \<Longrightarrow>
      rows w' = rows w \<or> (\<exists>u'. rows w' = rows w @ [u'] \<and> fresh_user (rows w) u' \<and> u_Email u' = norm (u_Email u))"
begin

definition well_formed :: "'w \<Rightarrow> bool" where
  "well_formed w \<longleftrightarrow> distinct (map u_ID (rows w)) \<and> distinct (map u_Email (rows w))
     \<and> (\<forall>u \<in> set (rows w). u_Email u \<in> range norm)"

lemma fresh_append:
  "well_formed w \<Longrightarrow> rows w' = rows w @ [u'] \<Longrightarrow> fresh_user (rows w) u' \<Longrightarrow> u_Email u' = norm e \<Longrightarrow> well_formed w'"
  by (auto simp: well_formed_def fresh_user_def list_all_iff)

lemma same_rows: "well_formed w \<Longrightarrow> rows w' = rows w \<Longrightarrow> well_formed w'"
  by (simp add: well_formed_def)

lemma create_well_formed:
  assumes "well_formed w" and "ur_CreateUser repo u w = (res, w')"
  shows "well_formed w'"
proof (cases res)
  case (Inl e)
  with assms(2) have "rows w' = rows w
      \<or> (\<exists>u'. rows w' = rows w @ [u'] \<and> fresh_user (rows w) u' \<and> u_Email u' = norm (u_Email u))"
    using create_err by blast
  then show ?thesis using assms(1) fresh_append same_rows by blast
next
  case (Inr u')
  with assms(2) create_ok have "rows w' = rows w @ [u']" "fresh_user (rows w) u'" "u_Email u' = norm (u_Email u)"
    by blast+
  with assms(1) show ?thesis by (rule fresh_append)
qed

text \<open>The row of an address is unique, so finding it after creating it finds that row.\<close>

lemma email_unique: "well_formed w \<Longrightarrow> u \<in> set (rows w) \<Longrightarrow> v \<in> set (rows w) \<Longrightarrow> u_Email u = u_Email v \<Longrightarrow> u = v"
  unfolding well_formed_def by (meson distinct_map inj_onD)

lemma find_created:
  assumes "well_formed w" and "ur_CreateUser repo u w = (Inr u', w1)" and "rows w2 = rows w1"
    and "norm e = norm (u_Email u)" and "ur_FindByEmail repo e w2 = (Inr v, w3)"
  shows "v = u'"
proof -
  have "well_formed w2"
    using create_well_formed [OF assms(1,2)] assms(3) by (simp add: well_formed_def)
  moreover have "u' \<in> set (rows w2)" "u_Email u' = norm (u_Email u)"
    using create_ok [OF assms(2)] assms(3) by auto
  moreover have "v \<in> set (rows w2)" "u_Email v = norm e"
    using by_email_ok [OF assms(5)] by auto
  ultimately show ?thesis using assms(4) email_unique by metis
qed

lemma created_is_found:
  assumes "ok" and "ur_CreateUser repo u w = (Inr u', w1)" and "rows w2 = rows w1"
    and "norm e = norm (u_Email u)"
  shows "ur_FindByEmail repo e w2 \<noteq> (Inl ErrNoRows, w3)"
proof
  assume "ur_FindByEmail repo e w2 = (Inl ErrNoRows, w3)"
  then have "\<forall>v \<in> set (rows w2). u_Email v \<noteq> norm e" using by_email_missing assms(1) by blast
  with create_ok [OF assms(2)] assms(3,4) show False by auto
qed

end

section \<open>The PostgreSQL implementation\<close>

definition normal_email :: "'r env \<Rightarrow> string \<Rightarrow> string" where
  "normal_email E email = to_lower (unicode_tables E) (trim_space email)"

definition first_row :: "'a list \<Rightarrow> err + 'a" where
  "first_row rows = (case rows of [] \<Rightarrow> Inl ErrNoRows | r # _ \<Rightarrow> Inr r)"

definition pg_FindByEmail :: "'r env \<Rightarrow> string \<Rightarrow> 'r world \<Rightarrow> (err + user) \<times> 'r world" where
  "pg_FindByEmail E email =
     pg_query E (\<lambda>w.
       let key = normal_email E email in
       case pg_text E key of
         Some e \<Rightarrow> Inl e
       | None \<Rightarrow> first_row (filter (\<lambda>u. u_Email u = key) (users w)))"

definition pg_FindUserByID :: "'r env \<Rightarrow> string \<Rightarrow> 'r world \<Rightarrow> (err + user) \<times> 'r world" where
  "pg_FindUserByID E i =
     pg_query E (\<lambda>w.
       case pg_uuid E i of
         Inl e \<Rightarrow> Inl e
       | Inr key \<Rightarrow> first_row (filter (\<lambda>u. u_ID u = key) (users w)))"

text \<open>The INSERT: the columns are converted, then the two unique indexes are consulted.\<close>

definition insert_user :: "'r env \<Rightarrow> user \<Rightarrow> 'r world \<Rightarrow> err + user \<times> 'r world" where
  "insert_user E u w =
     (case pg_uuid E (u_ID u) of
        Inl e \<Rightarrow> Inl e
      | Inr i \<Rightarrow>
          (case first_err [pg_text E (u_Email u), pg_text E (u_HashedPassword u), pg_varchar E 255 (u_Email u)] of
             Some e \<Rightarrow> Inl e
           | None \<Rightarrow>
               (let row = u\<lparr>u_ID := i, u_CreatedAt := pg_time E (u_CreatedAt u),
                            u_UpdatedAt := pg_time E (u_UpdatedAt u)\<rparr> in
                if fresh_user (users w) row then Inr (row, w\<lparr>users := users w @ [row]\<rparr>)
                else Inl (pg_error E ''23505''))))"

fun is_unique_violation :: "err \<Rightarrow> bool" where
  "is_unique_violation (PqError code _) = (code = ''23505'')"
| "is_unique_violation _ = False"

definition pg_CreateUser :: "'r env \<Rightarrow> user \<Rightarrow> 'r world \<Rightarrow> (err + user) \<times> 'r world" where
  "pg_CreateUser E u w =
     (case pg_exec E (insert_user E (u\<lparr>u_Email := normal_email E (u_Email u)\<rparr>)) w of
        (Inl e, w) \<Rightarrow> (if is_unique_violation e then (Inl ErrDuplicateEmail, w) else (Inl e, w))
      | (Inr createdUser, w) \<Rightarrow> (Inr createdUser, w))"

definition PostgresUserRepository :: "'r env \<Rightarrow> ('r world) user_repository" where
  "PostgresUserRepository E =
     \<lparr>ur_FindByEmail = pg_FindByEmail E, ur_FindByID = pg_FindUserByID E, ur_CreateUser = pg_CreateUser E\<rparr>"

section \<open>The implementation keeps the contract\<close>

lemma first_row_Inr: "first_row rows = Inr r \<Longrightarrow> r \<in> set rows"
  by (auto simp: first_row_def split: list.splits)

lemma first_row_missing [simp]: "first_row rows = Inl e \<longleftrightarrow> rows = [] \<and> e = ErrNoRows"
  by (auto simp: first_row_def split: list.splits)

lemma insert_user_cases:
  "insert_user E u w = Inr (row, w') \<Longrightarrow>
     fresh_user (users w) row \<and> w' = w\<lparr>users := users w @ [row]\<rparr> \<and> u_Email row = u_Email u
     \<and> u_HashedPassword row = u_HashedPassword u"
  by (auto simp: insert_user_def Let_def split: sum.splits option.splits if_splits)

lemma pg_CreateUser_exec:
  "pg_CreateUser E u w = (res, w') \<Longrightarrow>
     \<exists>res'. pg_exec E (insert_user E (u\<lparr>u_Email := normal_email E (u_Email u)\<rparr>)) w = (res', w')
       \<and> (\<forall>v. res = Inr v \<longleftrightarrow> res' = Inr v)
       \<and> (\<forall>e. res = Inl e \<longrightarrow> (\<exists>e'. res' = Inl e' \<and> e = (if is_unique_violation e' then ErrDuplicateEmail else e')))"
  by (auto simp: pg_CreateUser_def split: prod.splits sum.splits if_splits)

text \<open>What the INSERT refuses, and when it is the unique indexes that refuse it.\<close>

lemma is_unique_violation_refusal: "pg_refusal e \<Longrightarrow> \<not> is_unique_violation e"
  by (cases e) (auto simp: pg_refusal_def)

lemma insert_user_Inl:
  assumes "pg_laws E" and "insert_user E u w = Inl e"
  shows "pg_refusal e \<or> (e = pg_error E ''23505''
    \<and> \<not> (\<forall>v \<in> set (users w). u_Email v \<noteq> u_Email u \<and> canon_uuid E (u_ID u) \<noteq> Some (u_ID v)))"
proof (cases "pg_uuid E (u_ID u)")
  case (Inl e')
  with assms show ?thesis by (auto simp: insert_user_def pg_refusals)
next
  case (Inr i)
  show ?thesis
  proof (cases "first_err [pg_text E (u_Email u), pg_text E (u_HashedPassword u), pg_varchar E 255 (u_Email u)]")
    case None
    with Inr assms(2) show ?thesis
      by (auto simp: insert_user_def Let_def fresh_user_def list_all_iff split: if_splits)
  next
    case (Some e')
    then have "pg_refusal e'" using first_err_in [OF Some] pg_refusals(2,3) [OF assms(1)] by auto
    with Inr Some assms(2) show ?thesis by (simp add: insert_user_def)
  qed
qed

lemma pg_CreateUser_Inl:
  assumes "pg_laws E" and "pg_CreateUser E u w = (Inl e, w')"
  shows "external e \<or> (e = ErrDuplicateEmail
    \<and> \<not> (\<forall>v \<in> set (users w). u_Email v \<noteq> normal_email E (u_Email u) \<and> canon_uuid E (u_ID u) \<noteq> Some (u_ID v)))"
proof -
  let ?u = "u\<lparr>u_Email := normal_email E (u_Email u)\<rparr>"
  obtain e' where x: "pg_exec E (insert_user E ?u) w = (Inl e', w')"
    and e: "e = (if is_unique_violation e' then ErrDuplicateEmail else e')"
    using pg_CreateUser_exec [OF assms(2)] by auto
  consider "pg_refusal e'" | "insert_user E ?u w = Inl e'" "\<not> pg_refusal e'"
    using pg_exec_Inl [OF x] pg_refusals(5) [OF assms(1)] by blast
  then show ?thesis
  proof cases
    case 1
    with e show ?thesis by (simp add: is_unique_violation_refusal pg_refusal_external)
  next
    case 2
    with insert_user_Inl [OF assms(1) 2(1)] e show ?thesis by (simp add: pg_error_def)
  qed
qed

interpretation pg_users: user_directory "PostgresUserRepository E" users "normal_email E" "canon_uuid E" "pg_laws E" for E
proof unfold_locales
  fix e w u w'
  show "ur_FindByEmail (PostgresUserRepository E) e w = (Inr u, w') \<Longrightarrow> u \<in> set (users w) \<and> u_Email u = normal_email E e"
    by (auto simp: PostgresUserRepository_def pg_FindByEmail_def Let_def dest!: pg_query_ok first_row_Inr
        split: option.splits)
next
  fix e w w' u
  assume L: "pg_laws E" and "ur_FindByEmail (PostgresUserRepository E) e w = (Inl ErrNoRows, w')" "u \<in> set (users w)"
  moreover have "pg_text E s \<noteq> Some ErrNoRows" "pg_fault E n \<noteq> Some (b, ErrNoRows)" for s n b
    using pg_external(2,5) [OF L] by fastforce+
  ultimately show "u_Email u \<noteq> normal_email E e"
    by (auto simp: PostgresUserRepository_def pg_FindByEmail_def Let_def filter_empty_conv
        dest!: pg_query_err split: option.splits)
next
  fix e w res w'
  show "ur_FindByEmail (PostgresUserRepository E) e w = (res, w') \<Longrightarrow> users w' = users w"
    by (auto simp: PostgresUserRepository_def pg_FindByEmail_def dest: pg_query_frame)
next
  fix em w e w'
  assume L: "pg_laws E" and "ur_FindByEmail (PostgresUserRepository E) em w = (Inl e, w')"
  then show "e = ErrNoRows \<or> external e"
    by (auto simp: PostgresUserRepository_def pg_FindByEmail_def Let_def
        dest!: pg_query_err dest: pg_external(2,5) [OF L] split: option.splits)
next
  fix i w e w'
  assume L: "pg_laws E" and "ur_FindByID (PostgresUserRepository E) i w = (Inl e, w')"
  then show "e = ErrNoRows \<or> external e"
    by (auto simp: PostgresUserRepository_def pg_FindUserByID_def
        dest!: pg_query_err dest: pg_external(1,5) [OF L] split: sum.splits)
next
  fix u w e w'
  assume "pg_laws E" "ur_CreateUser (PostgresUserRepository E) u w = (Inl e, w')"
  then show "external e \<or> (e = ErrDuplicateEmail
      \<and> \<not> (\<forall>v \<in> set (users w). u_Email v \<noteq> normal_email E (u_Email u) \<and> canon_uuid E (u_ID u) \<noteq> Some (u_ID v)))"
    using pg_CreateUser_Inl by (simp add: PostgresUserRepository_def)
next
  fix i w u w'
  show "ur_FindByID (PostgresUserRepository E) i w = (Inr u, w') \<Longrightarrow> u \<in> set (users w) \<and> canon_uuid E i = Some (u_ID u)"
    by (auto simp: PostgresUserRepository_def pg_FindUserByID_def dest!: pg_query_ok first_row_Inr
        split: sum.splits)
next
  fix i w res w'
  show "ur_FindByID (PostgresUserRepository E) i w = (res, w') \<Longrightarrow> users w' = users w"
    by (auto simp: PostgresUserRepository_def pg_FindUserByID_def dest: pg_query_frame)
next
  fix u w u' w'
  assume "ur_CreateUser (PostgresUserRepository E) u w = (Inr u', w')"
  then have "pg_exec E (insert_user E (u\<lparr>u_Email := normal_email E (u_Email u)\<rparr>)) w = (Inr u', w')"
    using pg_CreateUser_exec by (fastforce simp: PostgresUserRepository_def)
  then show "users w' = users w @ [u'] \<and> fresh_user (users w) u' \<and> u_Email u' = normal_email E (u_Email u)
      \<and> u_HashedPassword u' = u_HashedPassword u"
    by (auto dest!: pg_exec_ok insert_user_cases)
next
  fix u w e w'
  assume "ur_CreateUser (PostgresUserRepository E) u w = (Inl e, w')"
  then obtain e' where "pg_exec E (insert_user E (u\<lparr>u_Email := normal_email E (u_Email u)\<rparr>)) w = (Inl e', w')"
    using pg_CreateUser_exec by (fastforce simp: PostgresUserRepository_def)
  then show "users w' = users w \<or> (\<exists>u'. users w' = users w @ [u'] \<and> fresh_user (users w) u'
      \<and> u_Email u' = normal_email E (u_Email u))"
    by (auto dest!: pg_exec_err insert_user_cases)
qed

text \<open>What these calls leave alone.\<close>

lemma pg_FindByEmail_frame [frame]: "pg_FindByEmail E email w = (res, w') \<Longrightarrow> w' = step w"
  by (auto simp: pg_FindByEmail_def dest: pg_query_frame)

lemma pg_FindUserByID_frame [frame]: "pg_FindUserByID E i w = (res, w') \<Longrightarrow> w' = step w"
  by (auto simp: pg_FindUserByID_def dest: pg_query_frame)

lemma pg_CreateUser_frame [frame]:
  "pg_CreateUser E u w = (res, w') \<Longrightarrow> tick w' = Suc (tick w) \<and> redis_db w' = redis_db w
     \<and> sessions w' = sessions w \<and> audit_logs w' = audit_logs w \<and> access_log w' = access_log w"
  by (auto dest!: pg_CreateUser_exec elim!: pg_exec_cases dest!: insert_user_cases)

end
