(* ===== verification/Session_Repository.thy ===== *)
theory Session_Repository
  imports User_Repository "HOL-Library.Multiset"
begin

text \<open>
  \<open>internal/repository/session_repository.go\<close>: the interface \<open>SessionRepository\<close>, its
  contract as the locale \<open>session_store\<close>, and the PostgreSQL implementation over the table
  \<open>sessions\<close> (primary key \<open>id\<close>, foreign key \<open>user_id\<close> into \<open>users\<close>, \<open>ip_address\<close> of at
  most 255 and \<open>status\<close> of at most 32 characters).
\<close>

section \<open>The interface and its contract\<close>

record 'w session_repository =
  sr_Create :: "session \<Rightarrow> 'w \<Rightarrow> (err + session) \<times> 'w"
  sr_ListByUserID :: "string \<Rightarrow> 'w \<Rightarrow> (err + session list) \<times> 'w"
  sr_UpdateLastUsedAt :: "string \<Rightarrow> instant option \<Rightarrow> 'w \<Rightarrow> (err + unit) \<times> 'w"
  sr_UpdateStatus :: "string \<Rightarrow> string \<Rightarrow> 'w \<Rightarrow> (err + unit) \<times> 'w"
  sr_RevokeAllByUserID :: "string \<Rightarrow> 'w \<Rightarrow> (err + unit) \<times> 'w"
  sr_FindByID :: "string \<Rightarrow> 'w \<Rightarrow> (err + session) \<times> 'w"

text \<open>\<open>UPDATE sessions SET ... WHERE P\<close>: every row that satisfies \<open>P\<close> is rewritten in place.\<close>

definition update_where :: "('a \<Rightarrow> bool) \<Rightarrow> ('a \<Rightarrow> 'a) \<Rightarrow> 'a list \<Rightarrow> 'a list" where
  "update_where P f rows = map (\<lambda>s. if P s then f s else s) rows"

lemma update_where_none [simp]: "\<forall>s \<in> set rows. \<not> P s \<Longrightarrow> update_where P f rows = rows"
  by (simp add: update_where_def map_idI)

lemma in_update_where: "s \<in> set (update_where P f rows) \<longleftrightarrow> (\<exists>r \<in> set rows. s = (if P r then f r else r))"
  by (auto simp: update_where_def)

lemma map_update_where: "(\<And>s. g (f s) = g s) \<Longrightarrow> map g (update_where P f rows) = map g rows"
  by (simp add: update_where_def)

lemma ball_update_where:
  "(\<forall>s \<in> set (update_where P f rows). Q s) \<longleftrightarrow> (\<forall>r \<in> set rows. Q (if P r then f r else r))"
  by (auto simp: update_where_def)

definition of_session_user :: "string option \<Rightarrow> session \<Rightarrow> bool" where
  "of_session_user key s \<longleftrightarrow> key = Some (s_UserID s)"

definition has_session_id :: "string option \<Rightarrow> session \<Rightarrow> bool" where
  "has_session_id key s \<longleftrightarrow> key = Some (s_ID s)"

definition fresh_session :: "session list \<Rightarrow> session \<Rightarrow> bool" where
  "fresh_session ss s \<longleftrightarrow> list_all (\<lambda>r. s_ID r \<noteq> s_ID s) ss"

definition revoke :: "session \<Rightarrow> session" where
  "revoke s = s\<lparr>s_Status := ''REVOKED''\<rparr>"

text \<open>
  The contract: \<open>rows\<close> is the table, \<open>canon\<close> reads an identifier (None if it is malformed).
  An update that fails leaves the table as it was or as the update makes it.
\<close>

locale session_store =
  fixes repo :: "'w session_repository"
    and rows :: "'w \<Rightarrow> session list"
    and canon :: "string \<Rightarrow> string option"
    and lawful :: bool
  assumes create_ok: "sr_Create repo s w = (Inr s', w') \<Longrightarrow>
      rows w' = rows w @ [s'] \<and> fresh_session (rows w) s' \<and> canon (s_ID s) = Some (s_ID s')
      \<and> canon (s_UserID s) = Some (s_UserID s') \<and> s_Status s' = s_Status s"
    and create_err: "sr_Create repo s w = (Inl e, w') \<Longrightarrow>
      rows w' = rows w \<or> (\<exists>s'. rows w' = rows w @ [s'] \<and> fresh_session (rows w) s')"
    and list_ok: "sr_ListByUserID repo u w = (Inr ss, w') \<Longrightarrow>
      mset ss = mset (filter (of_session_user (canon u)) (rows w)) \<and> sorted (map (\<lambda>s. - s_CreatedAt s) ss)"
    and list_frame: "sr_ListByUserID repo u w = (lres, w') \<Longrightarrow> rows w' = rows w"
    and touch_ok: "sr_UpdateLastUsedAt repo i (Some t) w = (Inr (), w') \<Longrightarrow>
      \<exists>t'. rows w' = update_where (has_session_id (canon i)) (\<lambda>s. s\<lparr>s_LastUsedAt := t'\<rparr>) (rows w)"
    and touch_err: "sr_UpdateLastUsedAt repo i tm w = (Inl e, w') \<Longrightarrow>
      (\<exists>t'. rows w' = update_where (has_session_id (canon i)) (\<lambda>s. s\<lparr>s_LastUsedAt := t'\<rparr>) (rows w)) \<or> rows w' = rows w"
    and status_ok: "sr_UpdateStatus repo i st w = (Inr (), w') \<Longrightarrow>
      rows w' = update_where (has_session_id (canon i)) (\<lambda>s. s\<lparr>s_Status := st\<rparr>) (rows w)"
    and status_err: "sr_UpdateStatus repo i st w = (Inl e, w') \<Longrightarrow>
      rows w' = rows w \<or> rows w' = update_where (has_session_id (canon i)) (\<lambda>s. s\<lparr>s_Status := st\<rparr>) (rows w)"
    and revoke_all_ok: "sr_RevokeAllByUserID repo u w = (Inr (), w') \<Longrightarrow>
      rows w' = update_where (\<lambda>s. of_session_user (canon u) s \<and> s_Status s = ''ACTIVE'') revoke (rows w)"
    and revoke_all_err: "sr_RevokeAllByUserID repo u w = (Inl e, w') \<Longrightarrow>
      rows w' = rows w
      \<or> rows w' = update_where (\<lambda>s. of_session_user (canon u) s \<and> s_Status s = ''ACTIVE'') revoke (rows w)"
    and find_ok: "sr_FindByID repo i w = (Inr s, w') \<Longrightarrow> s \<in> set (rows w) \<and> canon i = Some (s_ID s)"
    and find_frame: "sr_FindByID repo i w = (fres, w') \<Longrightarrow> rows w' = rows w"
    and canon_canon: "lawful \<Longrightarrow> canon i = Some j \<Longrightarrow> canon j = Some j"
    and create_errors: "lawful \<Longrightarrow> sr_Create repo s w = (Inl e, w') \<Longrightarrow> external e"
    and list_errors: "lawful \<Longrightarrow> sr_ListByUserID repo u w = (Inl e, w') \<Longrightarrow> external e"
    and touch_errors: "lawful \<Longrightarrow> sr_UpdateLastUsedAt repo i tm w = (Inl e, w') \<Longrightarrow> external e"
    and status_errors: "lawful \<Longrightarrow> sr_UpdateStatus repo i st w = (Inl e, w') \<Longrightarrow> external e"
    and revoke_all_errors: "lawful \<Longrightarrow> sr_RevokeAllByUserID repo u w = (Inl e, w') \<Longrightarrow> external e"
    and find_errors: "lawful \<Longrightarrow> sr_FindByID repo i w = (Inl e, w') \<Longrightarrow> e = ErrNoRows \<or> external e"
begin

definition no_active :: "string \<Rightarrow> 'w \<Rightarrow> bool" where
  "no_active u w \<longleftrightarrow> (\<forall>s \<in> set (rows w). of_session_user (canon u) s \<longrightarrow> s_Status s \<noteq> ''ACTIVE'')"

text \<open>After \<open>RevokeAllByUserID\<close> the user has no active session; nobody else is touched.\<close>

lemma revoke_all_no_active: "sr_RevokeAllByUserID repo u w = (Inr (), w') \<Longrightarrow> no_active u w'"
  unfolding no_active_def
  by (drule revoke_all_ok) (simp add: ball_update_where revoke_def of_session_user_def)

lemma revoke_all_others:
  "sr_RevokeAllByUserID repo u w = (res, w') \<Longrightarrow> canon v \<noteq> canon u \<Longrightarrow>
     filter (of_session_user (canon v)) (rows w') = filter (of_session_user (canon v)) (rows w)"
proof -
  assume call: "sr_RevokeAllByUserID repo u w = (res, w')" and v: "canon v \<noteq> canon u"
  let ?P = "\<lambda>s. of_session_user (canon u) s \<and> s_Status s = ''ACTIVE''"
  have upd: "filter (of_session_user (canon v)) (update_where ?P revoke ss) = filter (of_session_user (canon v)) ss" for ss
    using v by (induction ss) (auto simp: update_where_def of_session_user_def revoke_def)
  from call have "rows w' = rows w \<or> rows w' = update_where ?P revoke (rows w)"
    by (cases res) (auto dest: revoke_all_ok revoke_all_err)
  then show ?thesis using upd by auto
qed

text \<open>A revoked session stays revoked under every operation but \<open>UpdateStatus\<close> to another status.\<close>

definition revoked :: "string \<Rightarrow> 'w \<Rightarrow> bool" where
  "revoked i w \<longleftrightarrow> (\<forall>s \<in> set (rows w). has_session_id (canon i) s \<longrightarrow> s_Status s = ''REVOKED'')"

lemma status_revoked: "sr_UpdateStatus repo i ''REVOKED'' w = (Inr (), w') \<Longrightarrow> revoked i w'"
  unfolding revoked_def by (drule status_ok) (simp add: ball_update_where has_session_id_def)

lemma revoked_touch:
  "revoked i w \<Longrightarrow> sr_UpdateLastUsedAt repo j (Some t) w = (res, w') \<Longrightarrow> revoked i w'"
  by (cases res) (auto dest!: touch_ok touch_err simp: revoked_def in_update_where has_session_id_def)

lemma revoked_status:
  "revoked i w \<Longrightarrow> sr_UpdateStatus repo j ''REVOKED'' w = (res, w') \<Longrightarrow> revoked i w'"
  by (cases res) (auto dest!: status_ok status_err simp: revoked_def in_update_where has_session_id_def)

lemma revoked_revoke_all: "revoked i w \<Longrightarrow> sr_RevokeAllByUserID repo u w = (res, w') \<Longrightarrow> revoked i w'"
  by (cases res)
    (auto dest!: revoke_all_ok revoke_all_err simp: revoked_def in_update_where has_session_id_def revoke_def)

text \<open>
  A dead session is in the table and revoked. Identifiers are never given twice, so it
  stays dead under every operation of the service.
\<close>

definition dead :: "string \<Rightarrow> 'w \<Rightarrow> bool" where
  "dead i w \<longleftrightarrow> (\<exists>s \<in> set (rows w). has_session_id (canon i) s) \<and> revoked i w"

lemma dead_same_rows: "dead i w \<Longrightarrow> rows w' = rows w \<Longrightarrow> dead i w'"
  by (simp add: dead_def revoked_def)

lemma dead_create: "dead i w \<Longrightarrow> sr_Create repo s w = (res, w') \<Longrightarrow> dead i w'"
  by (cases res)
    (fastforce dest!: create_ok create_err simp: dead_def revoked_def fresh_session_def list_all_iff has_session_id_def)+

lemma dead_update:
  assumes "dead i w" and "revoked i w'" and "map s_ID (rows w') = map s_ID (rows w)"
  shows "dead i w'"
proof -
  have ids: "(\<exists>s \<in> set (rows v). has_session_id (canon i) s) \<longleftrightarrow> canon i \<in> Some ` set (map s_ID (rows v))" for v
    by (auto simp: has_session_id_def)
  show ?thesis using assms(1,2) unfolding dead_def ids assms(3) by blast
qed

lemma dead_touch:
  assumes "dead i w" and call: "sr_UpdateLastUsedAt repo j (Some t) w = (res, w')"
  shows "dead i w'"
proof (rule dead_update [OF assms(1)])
  show "revoked i w'" using assms revoked_touch unfolding dead_def by blast
  show "map s_ID (rows w') = map s_ID (rows w)"
    using call by (cases res) (auto dest!: touch_ok touch_err simp: map_update_where)
qed

lemma dead_status:
  assumes "dead i w" and call: "sr_UpdateStatus repo j ''REVOKED'' w = (res, w')"
  shows "dead i w'"
proof (rule dead_update [OF assms(1)])
  show "revoked i w'" using assms revoked_status unfolding dead_def by blast
  show "map s_ID (rows w') = map s_ID (rows w)"
    using call by (cases res) (auto dest!: status_ok status_err simp: map_update_where)
qed

lemma dead_revoke_all:
  assumes "dead i w" and call: "sr_RevokeAllByUserID repo u w = (res, w')"
  shows "dead i w'"
proof (rule dead_update [OF assms(1)])
  show "revoked i w'" using assms revoked_revoke_all unfolding dead_def by blast
  show "map s_ID (rows w') = map s_ID (rows w)"
    using call by (cases res) (auto dest!: revoke_all_ok revoke_all_err simp: map_update_where revoke_def)
qed

text \<open>Identifiers stay unique, and an update changes neither the identifiers nor the owners.\<close>

definition identified :: "'w \<Rightarrow> bool" where
  "identified w \<longleftrightarrow> distinct (map s_ID (rows w))"

lemma create_identified: "identified w \<Longrightarrow> sr_Create repo s w = (res, w') \<Longrightarrow> identified w'"
  by (cases res) (fastforce dest!: create_ok create_err simp: identified_def fresh_session_def list_all_iff)+

lemma status_owners:
  "sr_UpdateStatus repo i st w = (res, w') \<Longrightarrow> map s_ID (rows w') = map s_ID (rows w) \<and> map s_UserID (rows w') = map s_UserID (rows w)"
  by (cases res) (auto dest!: status_ok status_err simp: map_update_where)

lemma find_unique: "identified w \<Longrightarrow> sr_FindByID repo i w = (Inr s, w') \<Longrightarrow> r \<in> set (rows w) \<Longrightarrow> s_ID r = s_ID s \<Longrightarrow> r = s"
  unfolding identified_def by (metis distinct_map inj_onD find_ok)

end

section \<open>The PostgreSQL implementation\<close>

definition pg_insert_session :: "'r env \<Rightarrow> session \<Rightarrow> 'r world \<Rightarrow> err + session \<times> 'r world" where
  "pg_insert_session E s w =
     (case pg_uuid E (s_ID s) of
        Inl e \<Rightarrow> Inl e
      | Inr i \<Rightarrow>
     (case pg_uuid E (s_UserID s) of
        Inl e \<Rightarrow> Inl e
      | Inr u \<Rightarrow>
     (case first_err [pg_text E (s_DeviceName s), pg_text E (s_IPAddress s), pg_text E (s_Status s),
                      pg_varchar E 255 (s_IPAddress s), pg_varchar E 32 (s_Status s)] of
        Some e \<Rightarrow> Inl e
      | None \<Rightarrow>
          (let row = s\<lparr>s_ID := i, s_UserID := u, s_CreatedAt := pg_time E (s_CreatedAt s),
                       s_LastUsedAt := pg_time E (s_LastUsedAt s)\<rparr> in
           if \<not> fresh_session (sessions w) row then Inl (pg_error E ''23505'')
           else if \<not> list_ex (\<lambda>v. u_ID v = u) (users w) then Inl (pg_error E ''23503'')
           else Inr (row, w\<lparr>sessions := sessions w @ [row]\<rparr>)))))"

definition pg_CreateSession :: "'r env \<Rightarrow> session \<Rightarrow> 'r world \<Rightarrow> (err + session) \<times> 'r world" where
  "pg_CreateSession E s = pg_exec E (pg_insert_session E s)"

text \<open>\<open>ORDER BY created_at DESC\<close>; rows created at the same instant stay in table order.\<close>

definition pg_ListByUserID :: "'r env \<Rightarrow> string \<Rightarrow> 'r world \<Rightarrow> (err + session list) \<times> 'r world" where
  "pg_ListByUserID E userID =
     pg_query E (\<lambda>w.
       case pg_uuid E userID of
         Inl e \<Rightarrow> Inl e
       | Inr u \<Rightarrow> Inr (sort_key (\<lambda>s. - s_CreatedAt s) (filter (\<lambda>s. s_UserID s = u) (sessions w))))"

definition pg_UpdateLastUsedAt :: "'r env \<Rightarrow> string \<Rightarrow> instant option \<Rightarrow> 'r world \<Rightarrow> (err + unit) \<times> 'r world" where
  "pg_UpdateLastUsedAt E sessionID lastUsedAt =
     pg_exec E (\<lambda>w.
       case pg_uuid E sessionID of
         Inl e \<Rightarrow> Inl e
       | Inr i \<Rightarrow>
           (case lastUsedAt of
              None \<Rightarrow> if list_ex (\<lambda>s. s_ID s = i) (sessions w) then Inl (pg_error E ''23502'') else Inr ((), w)
            | Some t \<Rightarrow>
                Inr ((), w\<lparr>sessions :=
                  update_where (\<lambda>s. s_ID s = i) (\<lambda>s. s\<lparr>s_LastUsedAt := pg_time E t\<rparr>) (sessions w)\<rparr>)))"

definition pg_UpdateSessionStatus :: "'r env \<Rightarrow> string \<Rightarrow> string \<Rightarrow> 'r world \<Rightarrow> (err + unit) \<times> 'r world" where
  "pg_UpdateSessionStatus E sessionID status =
     pg_exec E (\<lambda>w.
       case pg_uuid E sessionID of
         Inl e \<Rightarrow> Inl e
       | Inr i \<Rightarrow>
           (case first_err [pg_text E status, pg_varchar E 32 status] of
              Some e \<Rightarrow> Inl e
            | None \<Rightarrow>
                Inr ((), w\<lparr>sessions := update_where (\<lambda>s. s_ID s = i) (\<lambda>s. s\<lparr>s_Status := status\<rparr>) (sessions w)\<rparr>)))"

definition pg_RevokeAllByUserID :: "'r env \<Rightarrow> string \<Rightarrow> 'r world \<Rightarrow> (err + unit) \<times> 'r world" where
  "pg_RevokeAllByUserID E userID =
     pg_exec E (\<lambda>w.
       case pg_uuid E userID of
         Inl e \<Rightarrow> Inl e
       | Inr u \<Rightarrow>
           Inr ((), w\<lparr>sessions :=
             update_where (\<lambda>s. s_UserID s = u \<and> s_Status s = ''ACTIVE'') (\<lambda>s. s\<lparr>s_Status := ''REVOKED''\<rparr>)
               (sessions w)\<rparr>))"

definition pg_FindSessionByID :: "'r env \<Rightarrow> string \<Rightarrow> 'r world \<Rightarrow> (err + session) \<times> 'r world" where
  "pg_FindSessionByID E sessionID =
     pg_query E (\<lambda>w.
       case pg_uuid E sessionID of
         Inl e \<Rightarrow> Inl e
       | Inr i \<Rightarrow> first_row (filter (\<lambda>s. s_ID s = i) (sessions w)))"

definition PostgresSessionRepository :: "'r env \<Rightarrow> ('r world) session_repository" where
  "PostgresSessionRepository E =
     \<lparr>sr_Create = pg_CreateSession E, sr_ListByUserID = pg_ListByUserID E,
      sr_UpdateLastUsedAt = pg_UpdateLastUsedAt E, sr_UpdateStatus = pg_UpdateSessionStatus E,
      sr_RevokeAllByUserID = pg_RevokeAllByUserID E, sr_FindByID = pg_FindSessionByID E\<rparr>"

section \<open>The implementation keeps the contract\<close>

lemma of_session_user_canon: "pg_uuid E s = Inr u \<Longrightarrow> of_session_user (canon_uuid E s) = (\<lambda>r. s_UserID r = u)"
  by (auto simp: of_session_user_def canon_uuid_def)

lemma has_session_id_canon: "pg_uuid E s = Inr u \<Longrightarrow> has_session_id (canon_uuid E s) = (\<lambda>r. s_ID r = u)"
  by (auto simp: has_session_id_def canon_uuid_def)

lemma pg_insert_session_cases:
  "pg_insert_session E s w = Inr (row, w') \<Longrightarrow>
     fresh_session (sessions w) row \<and> w' = w\<lparr>sessions := sessions w @ [row]\<rparr>
     \<and> pg_uuid E (s_ID s) = Inr (s_ID row) \<and> pg_uuid E (s_UserID s) = Inr (s_UserID row)
     \<and> s_Status row = s_Status s \<and> list_ex (\<lambda>v. u_ID v = s_UserID row) (users w)"
  by (auto simp: pg_insert_session_def Let_def split: sum.splits option.splits if_splits)

lemmas pg_session_defs = pg_CreateSession_def pg_ListByUserID_def pg_UpdateLastUsedAt_def
  pg_UpdateSessionStatus_def pg_RevokeAllByUserID_def pg_FindSessionByID_def PostgresSessionRepository_def

lemma revoke_fun: "(\<lambda>s. s\<lparr>s_Status := ''REVOKED''\<rparr>) = revoke"
  by (simp add: revoke_def fun_eq_iff)

text \<open>Every error of these statements is PostgreSQL's own, a missing row aside.\<close>

lemma pg_exec_errors:
  "pg_laws E \<Longrightarrow> pg_exec E stmt w = (Inl e, w') \<Longrightarrow> (\<And>e. stmt w = Inl e \<Longrightarrow> external e) \<Longrightarrow> external e"
  using pg_exec_Inl pg_external(5) by blast

lemma pg_insert_session_Inl:
  assumes "pg_laws E" and "pg_insert_session E s w = Inl e"
  shows "external e"
proof -
  let ?cs = "[pg_text E (s_DeviceName s), pg_text E (s_IPAddress s), pg_text E (s_Status s),
    pg_varchar E 255 (s_IPAddress s), pg_varchar E 32 (s_Status s)]"
  have "external e'" if "first_err ?cs = Some e'" for e'
    using first_err_in [OF that] pg_external(2,3) [OF assms(1)] by auto
  then show ?thesis
    using assms(2) pg_external(1) [OF assms(1)]
    by (auto simp: pg_insert_session_def Let_def split: sum.splits option.splits if_splits)
qed

lemma pg_status_Inl:
  assumes "pg_laws E" and "first_err [pg_text E st, pg_varchar E 32 st] = Some e"
  shows "external e"
  using first_err_in [OF assms(2)] pg_external(2,3) [OF assms(1)] by auto

interpretation pg_sessions: session_store "PostgresSessionRepository E" sessions "canon_uuid E" "pg_laws E" for E
proof unfold_locales
  fix s w s' w'
  show "sr_Create (PostgresSessionRepository E) s w = (Inr s', w') \<Longrightarrow>
      sessions w' = sessions w @ [s'] \<and> fresh_session (sessions w) s' \<and> canon_uuid E (s_ID s) = Some (s_ID s')
      \<and> canon_uuid E (s_UserID s) = Some (s_UserID s') \<and> s_Status s' = s_Status s"
    by (auto simp: pg_session_defs dest!: pg_exec_ok pg_insert_session_cases)
next
  fix s w e w'
  show "sr_Create (PostgresSessionRepository E) s w = (Inl e, w') \<Longrightarrow>
      sessions w' = sessions w \<or> (\<exists>s'. sessions w' = sessions w @ [s'] \<and> fresh_session (sessions w) s')"
    by (auto simp: pg_session_defs dest!: pg_exec_err pg_insert_session_cases)
next
  fix u w ss w'
  show "sr_ListByUserID (PostgresSessionRepository E) u w = (Inr ss, w') \<Longrightarrow>
      mset ss = mset (filter (of_session_user (canon_uuid E u)) (sessions w)) \<and> sorted (map (\<lambda>s. - s_CreatedAt s) ss)"
    by (auto simp: pg_session_defs of_session_user_canon dest!: pg_query_ok split: sum.splits)
next
  fix u w lres w'
  show "sr_ListByUserID (PostgresSessionRepository E) u w = (lres, w') \<Longrightarrow> sessions w' = sessions w"
    by (auto simp: pg_session_defs dest: pg_query_frame)
next
  fix i t w w'
  show "sr_UpdateLastUsedAt (PostgresSessionRepository E) i (Some t) w = (Inr (), w') \<Longrightarrow>
      \<exists>t'. sessions w' = update_where (has_session_id (canon_uuid E i)) (\<lambda>s. s\<lparr>s_LastUsedAt := t'\<rparr>) (sessions w)"
    by (auto simp: pg_session_defs has_session_id_canon dest!: pg_exec_ok intro!: exI [of _ "pg_time E t"]
        split: sum.splits)
next
  fix i tm w e w'
  show "sr_UpdateLastUsedAt (PostgresSessionRepository E) i tm w = (Inl e, w') \<Longrightarrow>
      (\<exists>t'. sessions w' = update_where (has_session_id (canon_uuid E i)) (\<lambda>s. s\<lparr>s_LastUsedAt := t'\<rparr>) (sessions w))
      \<or> sessions w' = sessions w"
    by (auto simp: pg_session_defs has_session_id_canon dest!: pg_exec_err intro!: exI [of _ "pg_time E (the tm)"]
        split: sum.splits option.splits if_splits)
next
  fix i st w w'
  show "sr_UpdateStatus (PostgresSessionRepository E) i st w = (Inr (), w') \<Longrightarrow>
      sessions w' = update_where (has_session_id (canon_uuid E i)) (\<lambda>s. s\<lparr>s_Status := st\<rparr>) (sessions w)"
    by (auto simp: pg_session_defs has_session_id_canon dest!: pg_exec_ok split: sum.splits option.splits)
next
  fix i st w e w'
  show "sr_UpdateStatus (PostgresSessionRepository E) i st w = (Inl e, w') \<Longrightarrow> sessions w' = sessions w
      \<or> sessions w' = update_where (has_session_id (canon_uuid E i)) (\<lambda>s. s\<lparr>s_Status := st\<rparr>) (sessions w)"
    by (auto simp: pg_session_defs has_session_id_canon dest!: pg_exec_err split: sum.splits option.splits)
next
  fix u w w'
  show "sr_RevokeAllByUserID (PostgresSessionRepository E) u w = (Inr (), w') \<Longrightarrow> sessions w' =
      update_where (\<lambda>s. of_session_user (canon_uuid E u) s \<and> s_Status s = ''ACTIVE'') revoke (sessions w)"
    by (auto simp: pg_session_defs of_session_user_canon revoke_fun dest!: pg_exec_ok split: sum.splits)
next
  fix u w e w'
  show "sr_RevokeAllByUserID (PostgresSessionRepository E) u w = (Inl e, w') \<Longrightarrow> sessions w' = sessions w
      \<or> sessions w' = update_where (\<lambda>s. of_session_user (canon_uuid E u) s \<and> s_Status s = ''ACTIVE'') revoke (sessions w)"
    by (auto simp: pg_session_defs of_session_user_canon revoke_fun dest!: pg_exec_err split: sum.splits)
next
  fix i w s w'
  show "sr_FindByID (PostgresSessionRepository E) i w = (Inr s, w') \<Longrightarrow> s \<in> set (sessions w) \<and> canon_uuid E i = Some (s_ID s)"
    by (auto simp: pg_session_defs dest!: pg_query_ok first_row_Inr split: sum.splits)
next
  fix i w fres w'
  show "sr_FindByID (PostgresSessionRepository E) i w = (fres, w') \<Longrightarrow> sessions w' = sessions w"
    by (auto simp: pg_session_defs dest: pg_query_frame)
next
  fix i j
  show "pg_laws E \<Longrightarrow> canon_uuid E i = Some j \<Longrightarrow> canon_uuid E j = Some j"
    by (simp add: pg_laws_def)
next
  fix s w e w'
  assume "pg_laws E" "sr_Create (PostgresSessionRepository E) s w = (Inl e, w')"
  then show "external e"
    using pg_exec_errors pg_insert_session_Inl by (fastforce simp: pg_session_defs)
next
  fix u w e w'
  assume L: "pg_laws E" and "sr_ListByUserID (PostgresSessionRepository E) u w = (Inl e, w')"
  then show "external e"
    by (auto simp: pg_session_defs dest!: pg_query_err dest: pg_external(1,5) [OF L] split: sum.splits)
next
  fix i tm w e w'
  assume L: "pg_laws E" and "sr_UpdateLastUsedAt (PostgresSessionRepository E) i tm w = (Inl e, w')"
  then show "external e"
    by (auto simp: pg_session_defs dest!: pg_exec_Inl dest: pg_external(1,5) [OF L]
        split: sum.splits option.splits if_splits)
next
  fix i st w e w'
  assume L: "pg_laws E" and "sr_UpdateStatus (PostgresSessionRepository E) i st w = (Inl e, w')"
  then show "external e"
    by (auto simp: pg_session_defs simp del: first_err.simps dest!: pg_exec_Inl
        dest: pg_external(1,5) [OF L] pg_status_Inl [OF L] split: sum.splits option.splits)
next
  fix u w e w'
  assume L: "pg_laws E" and "sr_RevokeAllByUserID (PostgresSessionRepository E) u w = (Inl e, w')"
  then show "external e"
    by (auto simp: pg_session_defs dest!: pg_exec_Inl dest: pg_external(1,5) [OF L] split: sum.splits)
next
  fix i w e w'
  assume L: "pg_laws E" and "sr_FindByID (PostgresSessionRepository E) i w = (Inl e, w')"
  then show "e = ErrNoRows \<or> external e"
    by (auto simp: pg_session_defs dest!: pg_query_err dest: pg_external(1,5) [OF L] split: sum.splits)
qed

text \<open>What these calls leave alone: everything but the clock and the table \<open>sessions\<close>.\<close>

definition only_sessions :: "'r world \<Rightarrow> 'r world \<Rightarrow> bool" where
  "only_sessions w w' \<longleftrightarrow> tick w' = Suc (tick w) \<and> redis_db w' = redis_db w \<and> users w' = users w
     \<and> audit_logs w' = audit_logs w \<and> access_log w' = access_log w"

lemma pg_exec_only_sessions:
  assumes "pg_exec E stmt w = (res, w')"
    and "\<And>x w''. stmt w = Inr (x, w'') \<Longrightarrow> \<exists>ss. w'' = w\<lparr>sessions := ss\<rparr>"
  shows "only_sessions w w'"
  using assms(1)
proof (cases rule: pg_exec_cases)
  case (2 x w'')
  with assms(2) obtain ss where "w'' = w\<lparr>sessions := ss\<rparr>" by blast
  with 2 show ?thesis by (simp add: only_sessions_def)
qed (simp add: only_sessions_def)

lemma pg_sessions_frame [frame]:
  "pg_CreateSession E s w = (cres, w') \<Longrightarrow> only_sessions w w'"
  "pg_UpdateLastUsedAt E i tm w = (res, w') \<Longrightarrow> only_sessions w w'"
  "pg_UpdateSessionStatus E i st w = (res, w') \<Longrightarrow> only_sessions w w'"
  "pg_RevokeAllByUserID E u w = (res, w') \<Longrightarrow> only_sessions w w'"
proof -
  show "pg_CreateSession E s w = (cres, w') \<Longrightarrow> only_sessions w w'"
    unfolding pg_CreateSession_def by (erule pg_exec_only_sessions) (auto dest: pg_insert_session_cases)
  show "pg_UpdateLastUsedAt E i tm w = (res, w') \<Longrightarrow> only_sessions w w'"
    unfolding pg_UpdateLastUsedAt_def
    by (erule pg_exec_only_sessions)
      (auto split: sum.splits option.splits if_splits intro: exI [of _ "sessions w"])
  show "pg_UpdateSessionStatus E i st w = (res, w') \<Longrightarrow> only_sessions w w'"
    unfolding pg_UpdateSessionStatus_def
    by (erule pg_exec_only_sessions) (auto split: sum.splits option.splits)
  show "pg_RevokeAllByUserID E u w = (res, w') \<Longrightarrow> only_sessions w w'"
    unfolding pg_RevokeAllByUserID_def by (erule pg_exec_only_sessions) (auto split: sum.splits)
qed

lemma pg_FindSessionByID_frame [frame]: "pg_FindSessionByID E i w = (res, w') \<Longrightarrow> w' = step w"
  by (auto simp: pg_FindSessionByID_def dest: pg_query_frame)

lemma pg_ListByUserID_frame [frame]: "pg_ListByUserID E u w = (res, w') \<Longrightarrow> w' = step w"
  by (auto simp: pg_ListByUserID_def dest: pg_query_frame)

end
