(* ===== verification/Base64.thy ===== *)
theory Base64
  imports Go_Strings
begin

text \<open>
  \<open>base64.RawURLEncoding\<close> of Go's \<open>encoding/base64\<close>: the alphabet of RFC 4648 section 5
  without padding. The decoder is there to state that the encoding loses nothing; the
  program itself never decodes.
\<close>

definition enc6 :: "nat \<Rightarrow> char" where
  "enc6 n =
     (if n < 26 then char_of (65 + n)
      else if n < 52 then char_of (97 + (n - 26))
      else if n < 62 then char_of (48 + (n - 52))
      else if n = 62 then CHR ''-'' else CHR ''_'')"

definition dec6 :: "char \<Rightarrow> nat" where
  "dec6 c =
     (let k = of_char c :: nat
      in if 65 \<le> k \<and> k \<le> 90 then k - 65
         else if 97 \<le> k \<and> k \<le> 122 then k - 97 + 26
         else if 48 \<le> k \<and> k \<le> 57 then k - 48 + 52
         else if c = CHR ''-'' then 62 else 63)"

fun raw_url_encode :: "string \<Rightarrow> string" where
  "raw_url_encode [] = []"
| "raw_url_encode [a] = [enc6 (of_char a div 4), enc6 (of_char a mod 4 * 16)]"
| "raw_url_encode [a, b] =
     [enc6 (of_char a div 4), enc6 (of_char a mod 4 * 16 + of_char b div 16),
      enc6 (of_char b mod 16 * 4)]"
| "raw_url_encode (a # b # c # rest) =
     [enc6 (of_char a div 4), enc6 (of_char a mod 4 * 16 + of_char b div 16),
      enc6 (of_char b mod 16 * 4 + of_char c div 64), enc6 (of_char c mod 64)]
     @ raw_url_encode rest"

fun raw_url_decode :: "string \<Rightarrow> string" where
  "raw_url_decode (w # x # y # z # rest) =
     [char_of (dec6 w * 4 + dec6 x div 16), char_of (dec6 x mod 16 * 16 + dec6 y div 4),
      char_of (dec6 y mod 4 * 64 + dec6 z)] @ raw_url_decode rest"
| "raw_url_decode [w, x, y] =
     [char_of (dec6 w * 4 + dec6 x div 16), char_of (dec6 x mod 16 * 16 + dec6 y div 4)]"
| "raw_url_decode [w, x] = [char_of (dec6 w * 4 + dec6 x div 16)]"
| "raw_url_decode _ = []"

lemma of_char_enc6: 
  "n < 64 \<Longrightarrow> (of_char (enc6 n) :: nat) =
     (if n < 26 then 65 + n else if n < 52 then 71 + n else if n < 62 then n - 4
      else if n = 62 then 45 else 95)"
  by (auto simp: enc6_def)

lemma dec6_enc6 [simp]: "n < 64 \<Longrightarrow> dec6 (enc6 n) = n"
  by (auto simp: dec6_def Let_def of_char_enc6 enc6_def split: if_splits)

lemma graphic_enc6: "n < 64 \<Longrightarrow> graphic (enc6 n)"
  by (auto simp: graphic_def of_char_enc6)

lemma of_char_lt [simp]: "(of_char (c :: char) :: nat) < 256"
  by (rule nat_of_char_less_256)

lemma byte_quarters:
  "(of_char (a :: char) :: nat) div 4 < 64" "(of_char a :: nat) mod 4 * 16 + of_char b div 16 < 64"
  "(of_char b :: nat) mod 16 * 4 + of_char (c :: char) div 64 < 64" "(of_char a :: nat) mod 4 * 16 < 64"
  "(of_char (b :: char) :: nat) mod 16 * 4 < 64"
  using of_char_lt [of a] of_char_lt [of b] of_char_lt [of c] by linarith+

lemma regroup:
  fixes x y :: nat
  assumes "y < 16" "z < 4" "u < 64"
  shows "(x * 16 + y) div 16 = x" "(x * 16 + y) mod 16 = y"
    "(x * 4 + z) div 4 = x" "(x * 4 + z) mod 4 = z"
  using assms by simp_all

lemma decode_encode: "raw_url_decode (raw_url_encode s) = s"
proof (induction s rule: raw_url_encode.induct)
  case (2 a)
  have "(of_char a :: nat) div 4 * 4 + of_char a mod 4 = of_char a" by simp
  then show ?case by (simp add: byte_quarters)
next
  case (3 a b)
  have "(of_char b :: nat) div 16 < 16" using of_char_lt [of b] by linarith
  then show ?case by (simp add: byte_quarters regroup)
next
  case (4 a b c rest)
  have "(of_char b :: nat) div 16 < 16" "(of_char c :: nat) div 64 < 4"
    using of_char_lt [of b] of_char_lt [of c] by linarith+
  with 4 show ?case by (simp add: byte_quarters regroup)
qed simp

lemma raw_url_encode_inj: "raw_url_encode s = raw_url_encode t \<longleftrightarrow> s = t"
  by (metis decode_encode)

lemma raw_url_encode_graphic: "list_all graphic (raw_url_encode s)"
  by (induction s rule: raw_url_encode.induct) (simp_all add: graphic_enc6 byte_quarters)

lemma raw_url_encode_length: "length (raw_url_encode s) = (4 * length s + 2) div 3"
  by (induction s rule: raw_url_encode.induct) auto

lemma raw_url_encode_trim: "trim_space (raw_url_encode s) = raw_url_encode s"
  by (rule trim_space_graphic) (rule raw_url_encode_graphic)

end
