(* ===== verification/Token_Service.thy ===== *)
theory Token_Service
  imports World Base64
begin

text \<open>
  \<open>internal/service/token_service.go\<close>: access tokens (JWT, signed with HS256) and refresh
  tokens (32 random bytes, base64url). The JWT library is the parameter \<open>jwt\<close>; its options
  and the key function are the source's.
\<close>

record token_service =
  ts_accessSecret :: string
  ts_accessTTLMinutes :: int
  ts_refreshTTLHours :: int
  ts_issuer :: string
  ts_audience :: string

definition NewTokenService :: "string \<Rightarrow> int \<Rightarrow> int \<Rightarrow> string \<Rightarrow> string \<Rightarrow> token_service" where
  "NewTokenService accessSecret accessTTLMinutes refreshTTLHours issuer audience =
     \<lparr>ts_accessSecret = accessSecret, ts_accessTTLMinutes = accessTTLMinutes,
      ts_refreshTTLHours = refreshTTLHours, ts_issuer = issuer, ts_audience = audience\<rparr>"

section \<open>Access tokens\<close>

definition access_claims :: "token_service \<Rightarrow> string \<Rightarrow> string \<Rightarrow> instant \<Rightarrow> instant \<Rightarrow> map_claims" where
  "access_claims s userID email now expiresAt =
     [''sub'' \<mapsto> JString userID, ''email'' \<mapsto> JString email, ''iat'' \<mapsto> JInt (now div second),
      ''nbf'' \<mapsto> JInt (now div second), ''exp'' \<mapsto> JInt (expiresAt div second),
      ''iss'' \<mapsto> JString (ts_issuer s), ''aud'' \<mapsto> JStrings [ts_audience s]]"

definition GenerateAccessToken ::
  "'r env \<Rightarrow> token_service \<Rightarrow> string \<Rightarrow> string \<Rightarrow> 'r world \<Rightarrow> (err + string \<times> int) \<times> 'r world" where
  "GenerateAccessToken E s userID email w =
     (case time_now E w of (now, w) \<Rightarrow>
        let expiresAt = now + dur_mul (ts_accessTTLMinutes s) minute in
        (case jwt_SignedString (jwt E) (SigningMethodHMAC ''HS256'')
            (access_claims s userID email now expiresAt) (ts_accessSecret s) of
           Inl e \<Rightarrow> (Inl e, w)
         | Inr signedToken \<Rightarrow>
             (case time_now E w of (t, w) \<Rightarrow>
                (Inr (signedToken, quot (time_sub expiresAt t) second), w))))"

definition access_keyfunc :: "token_service \<Rightarrow> signing_method \<Rightarrow> err + string" where
  "access_keyfunc s m =
     (case m of SigningMethodHMAC _ \<Rightarrow> Inr (ts_accessSecret s) | SigningMethodOther _ \<Rightarrow> Inl ErrInvalidToken)"

definition access_options :: "token_service \<Rightarrow> jwt_options" where
  "access_options s =
     \<lparr>opt_ValidMethods = [''HS256''], opt_Issuer = ts_issuer s, opt_Audience = ts_audience s,
      opt_Leeway = 30 * second\<rparr>"

definition ValidateAccessToken ::
  "'r env \<Rightarrow> token_service \<Rightarrow> string \<Rightarrow> 'r world \<Rightarrow> (err + auth_identity) \<times> 'r world" where
  "ValidateAccessToken E s accessToken w =
     (case time_now E w of (t, w) \<Rightarrow>
        (case jwt_Parse (jwt E) (access_options s) (access_keyfunc s) t accessToken of
           Inl e \<Rightarrow> Inl ErrInvalidToken
         | Inr token \<Rightarrow>
             if \<not> jt_Valid token then Inl ErrInvalidToken
             else (case jt_Claims token of
                     OtherClaims \<Rightarrow> Inl ErrInvalidToken
                   | MapClaims claims \<Rightarrow>
                       (case jwt_GetSubject (jwt E) claims of
                          Inl e \<Rightarrow> Inl ErrInvalidToken
                        | Inr subject \<Rightarrow>
                            if subject = '''' then Inl ErrInvalidToken
                            else (case claims ''email'' of
                                    Some (JString email) \<Rightarrow>
                                      if email = '''' then Inl ErrInvalidToken
                                      else Inr \<lparr>ai_UserID = subject, ai_Email = email\<rparr>
                                  | _ \<Rightarrow> Inl ErrInvalidToken))), w))"

section \<open>Refresh tokens\<close>

definition GenerateRefreshToken ::
  "'r env \<Rightarrow> token_service \<Rightarrow> string \<Rightarrow> 'r world \<Rightarrow> (err + refresh_token) \<times> 'r world" where
  "GenerateRefreshToken E s userID w =
     (case rand_read E w of
        (Inl e, w) \<Rightarrow> (Inl e, w)
      | (Inr randomBytes, w) \<Rightarrow>
          (case time_now E w of (now, w) \<Rightarrow>
             (Inr \<lparr>rt_Token = raw_url_encode randomBytes, rt_UserID = userID, rt_SessionID = '''',
                   rt_Status = ''ACTIVE'', rt_ExpiresAt = now + dur_mul (ts_refreshTTLHours s) hour,
                   rt_CreatedAt = now\<rparr>, w)))"

section \<open>Facts\<close>

definition later_only :: "'r world \<Rightarrow> 'r world \<Rightarrow> bool" where
  "later_only w w' \<longleftrightarrow> (\<exists>n. w' = w\<lparr>tick := tick w + n\<rparr>)"

lemma later_only_step: "later_only w w" "later_only w (step w)" "later_only w (step (step w))"
  unfolding later_only_def step_def
  by (rule exI [of _ 0], simp, rule exI [of _ 1], simp, rule exI [of _ 2], simp)

lemma later_only_simps:
  assumes "later_only w w'"
  shows "tick w \<le> tick w'" "redis_db w' = redis_db w" "users w' = users w" "sessions w' = sessions w"
    "audit_logs w' = audit_logs w" "access_log w' = access_log w" "kspace E w' = kspace E w"
  using assms by (auto simp: later_only_def kspace_def)

lemma GenerateAccessToken_frame [frame]: "GenerateAccessToken E s u em w = (res, w') \<Longrightarrow> later_only w w'"
  by (auto simp: GenerateAccessToken_def time_now_def Let_def later_only_step split: sum.splits)

lemma GenerateRefreshToken_frame [frame]: "GenerateRefreshToken E s u w = (res, w') \<Longrightarrow> later_only w w'"
  by (auto simp: GenerateRefreshToken_def rand_read_def time_now_def later_only_step split: sum.splits)

lemma ValidateAccessToken_frame [frame]: "ValidateAccessToken E s tok w = (res, w') \<Longrightarrow> w' = step w"
  by (auto simp: ValidateAccessToken_def time_now_def)

lemma GenerateAccessToken_ok:
  "GenerateAccessToken E s u em w = (Inr (tok, n), w') \<Longrightarrow>
     jwt_SignedString (jwt E) (SigningMethodHMAC ''HS256'')
       (access_claims s u em (cur E w) (cur E w + dur_mul (ts_accessTTLMinutes s) minute)) (ts_accessSecret s) = Inr tok
     \<and> n = quot (time_sub (cur E w + dur_mul (ts_accessTTLMinutes s) minute) (cur E (step w))) second
     \<and> w' = step (step w)"
  by (auto simp: GenerateAccessToken_def time_now_def Let_def split: sum.splits)

lemma GenerateRefreshToken_ok:
  "GenerateRefreshToken E s u w = (Inr rt, w') \<Longrightarrow>
     (\<exists>bytes. rand_gen E (tick w) = Inr bytes \<and> rt_Token rt = raw_url_encode bytes)
     \<and> rt_UserID rt = u \<and> rt_SessionID rt = '''' \<and> rt_Status rt = ''ACTIVE''
     \<and> rt_CreatedAt rt = cur E (step w) \<and> rt_ExpiresAt rt = cur E (step w) + dur_mul (ts_refreshTTLHours s) hour
     \<and> w' = step (step w)"
  by (auto simp: GenerateRefreshToken_def rand_read_def time_now_def split: sum.splits)

lemma Generate_errors:
  "library_errors E \<Longrightarrow> GenerateAccessToken E s u em w = (Inl e, w') \<Longrightarrow> external e"
  "library_errors E \<Longrightarrow> GenerateRefreshToken E s u w = (Inl e, w') \<Longrightarrow> external e"
  by (auto simp: GenerateAccessToken_def GenerateRefreshToken_def rand_read_def time_now_def Let_def
      library_errors_def split: sum.splits)

text \<open>Up to which lifetimes the duration arithmetic is exact.\<close>

lemma dur_mul_hours: "0 < n \<Longrightarrow> n \<le> 2562047 \<Longrightarrow> dur_mul n hour = n * hour"
  by (simp add: dur_mul_def int64_range_def)

lemma dur_mul_minutes: "0 < n \<Longrightarrow> n \<le> 153722867 \<Longrightarrow> dur_mul n minute = n * minute"
  by (simp add: dur_mul_def int64_range_def)

text \<open>A token signed for a user validates to that user.\<close>

lemma access_claims_simps [simp]:
  "access_claims s u em now xp ''sub'' = Some (JString u)" "access_claims s u em now xp ''email'' = Some (JString em)"
  "access_claims s u em now xp ''nbf'' = Some (JInt (now div second))"
  "access_claims s u em now xp ''exp'' = Some (JInt (xp div second))"
  "access_claims s u em now xp ''iss'' = Some (JString (ts_issuer s))"
  "access_claims s u em now xp ''aud'' = Some (JStrings [ts_audience s])"
  by (simp_all add: access_claims_def)

lemma signed_token_validates:
  assumes J: "jwt_laws (jwt E)"
    and sign: "jwt_SignedString (jwt E) (SigningMethodHMAC ''HS256'') (access_claims s u em now xp) (ts_accessSecret s) = Inr tok"
    and ids: "u \<noteq> ''''" "em \<noteq> ''''"
    and time: "now \<le> cur E w" "cur E w < (xp div second) * second + 30 * second"
  shows "fst (ValidateAccessToken E s tok w) = Inr \<lparr>ai_UserID = u, ai_Email = em\<rparr>"
proof -
  let ?c = "access_claims s u em now xp" and ?o = "access_options s"
  have "now div second * second \<le> now" by (simp add: minus_mod_eq_div_mult [symmetric])
  then have timely: "claims_timely ?o ?c (cur E w)"
    using time by (simp add: claims_timely_def access_options_def)
  have addressed: "claims_addressed ?o ?c" by (simp add: claims_addressed_def access_options_def)
  have "access_keyfunc s (SigningMethodHMAC ''HS256'') = Inr (ts_accessSecret s)"
    "method_alg (SigningMethodHMAC ''HS256'') \<in> set (opt_ValidMethods ?o)"
    by (simp_all add: access_keyfunc_def access_options_def)
  with J sign timely addressed obtain c' where
    p: "jwt_Parse (jwt E) ?o (access_keyfunc s) (cur E w) tok = Inr \<lparr>jt_Valid = True, jt_Claims = MapClaims c'\<rparr>"
    "string_members_agree ?c c'"
    unfolding jwt_laws_def by blast
  have c': "c' ''sub'' = Some (JString u)" "c' ''email'' = Some (JString em)"
    using p(2) unfolding string_members_agree_def by (metis access_claims_simps(1,2))+
  then have "jwt_GetSubject (jwt E) c' = Inr u" using J unfolding jwt_laws_def by blast
  then show ?thesis using p(1) c' ids by (simp add: ValidateAccessToken_def time_now_def)
qed

end
