(* ===== verification/Audit_Log.thy ===== *)
theory Audit_Log
  imports World
begin

text \<open>
  \<open>internal/repository/audit_log_repository.go\<close> and \<open>internal/service/audit_service.go\<close>: the
  audit trail. Its contract (\<open>audit_trail\<close>) is that an entry is appended or not, and that
  nothing else in the world moves; a failure to write is logged and forgotten.
\<close>

section \<open>The repository\<close>

record 'w audit_repository =
  ar_Create :: "audit_log \<Rightarrow> 'w \<Rightarrow> (err + unit) \<times> 'w"

definition insert_audit_log :: "'r env \<Rightarrow> audit_log \<Rightarrow> 'r world \<Rightarrow> err + unit \<times> 'r world" where
  "insert_audit_log E l w =
     (case pg_uuid E (al_ID l) of
        Inl e \<Rightarrow> Inl e
      | Inr i \<Rightarrow>
     (case (case al_UserID l of None \<Rightarrow> Inr None | Some u \<Rightarrow> map_sum id Some (pg_uuid E u)) of
        Inl e \<Rightarrow> Inl e
      | Inr owner \<Rightarrow>
     (case first_err [pg_text E (al_EventType l), pg_text E (al_IPAddress l), pg_text E (al_UserAgent l),
                      pg_jsonb E (al_Metadata l), pg_varchar E 100 (al_EventType l), pg_varchar E 255 (al_IPAddress l)] of
        Some e \<Rightarrow> Inl e
      | None \<Rightarrow>
          if list_ex (\<lambda>r. al_ID r = i) (audit_logs w) then Inl (pg_error E ''23505'')
          else if (case owner of None \<Rightarrow> False | Some u \<Rightarrow> \<not> list_ex (\<lambda>v. u_ID v = u) (users w))
            then Inl (pg_error E ''23503'')
          else Inr ((), w\<lparr>audit_logs := audit_logs w @
            [l\<lparr>al_ID := i, al_UserID := owner, al_CreatedAt := pg_time E (al_CreatedAt l)\<rparr>]\<rparr>))))"

definition pg_CreateAuditLog :: "'r env \<Rightarrow> audit_log \<Rightarrow> 'r world \<Rightarrow> (err + unit) \<times> 'r world" where
  "pg_CreateAuditLog E l = pg_exec E (insert_audit_log E l)"

definition PostgresAuditLogRepository :: "'r env \<Rightarrow> ('r world) audit_repository" where
  "PostgresAuditLogRepository E = \<lparr>ar_Create = pg_CreateAuditLog E\<rparr>"

section \<open>The service\<close>

text \<open>
  The metadata is a map of strings to strings, which \<open>json.Marshal\<close> always encodes, so its
  error branch has no counterpart here. The result of the write is dropped.
\<close>

definition LogAuthEvent ::
  "'r env \<Rightarrow> ('r world) audit_repository \<Rightarrow> string option \<Rightarrow> string \<Rightarrow> request_metadata \<Rightarrow> json_object
   \<Rightarrow> 'r world \<Rightarrow> 'r world" where
  "LogAuthEvent E repo userID eventType metadata extra w =
     (case uuid_new E w of (i, w) \<Rightarrow>
      case time_now E w of (t, w) \<Rightarrow>
        snd (ar_Create repo
          \<lparr>al_ID = i, al_UserID = userID, al_EventType = eventType, al_IPAddress = IPAddress metadata,
           al_UserAgent = UserAgent metadata, al_Metadata = extra, al_CreatedAt = t\<rparr> w))"

section \<open>The contract\<close>

definition only_audit :: "'r world \<Rightarrow> 'r world \<Rightarrow> bool" where
  "only_audit w w' \<longleftrightarrow> tick w \<le> tick w' \<and> redis_db w' = redis_db w \<and> users w' = users w \<and> sessions w' = sessions w
     \<and> access_log w' = access_log w
     \<and> (\<exists>ls. audit_logs w' = audit_logs w @ ls \<and> length ls \<le> 1)"

lemma only_audit_refl [simp]: "only_audit w w" "only_audit w (step w)"
  by (simp_all add: only_audit_def)

lemma only_audit_step: "only_audit (step w) w' \<Longrightarrow> only_audit w w'"
  by (auto simp: only_audit_def)

locale audit_trail =
  fixes repo :: "('r world) audit_repository"
  assumes create_appends: "ar_Create repo l w = (res, w') \<Longrightarrow> only_audit w w'"
begin

lemma log_only_audit: "only_audit w (LogAuthEvent E repo userID eventType metadata extra w)"
proof -
  have "only_audit (step (step w)) (snd (ar_Create repo l (step (step w))))" for l
    using create_appends [of l "step (step w)"] by (metis prod.collapse)
  then show ?thesis
    unfolding LogAuthEvent_def uuid_new_def time_now_def by (simp add: only_audit_step)
qed

end

lemma insert_audit_cases:
  "insert_audit_log E l w = Inr (x, w') \<Longrightarrow>
     \<exists>r. w' = w\<lparr>audit_logs := audit_logs w @ [r]\<rparr> \<and> al_EventType r = al_EventType l \<and> al_Metadata r = al_Metadata l"
  by (auto simp: insert_audit_log_def split: sum.splits option.splits if_splits)

interpretation pg_audit: audit_trail "PostgresAuditLogRepository E" for E
proof unfold_locales
  fix l w res w'
  assume "ar_Create (PostgresAuditLogRepository E) l w = (res, w')"
  then have "pg_exec E (insert_audit_log E l) w = (res, w')"
    by (simp add: PostgresAuditLogRepository_def pg_CreateAuditLog_def)
  then show "only_audit w w'"
  proof (cases rule: pg_exec_cases)
    case (2 x w'')
    with insert_audit_cases [OF 2(1)] show ?thesis by (auto simp: only_audit_def)
  qed simp
qed

text \<open>The entry that may be added, and what one event costs: an identifier, a time and an INSERT.\<close>

definition logged :: "string \<Rightarrow> json_object \<Rightarrow> 'r world \<Rightarrow> 'r world \<Rightarrow> bool" where
  "logged ev extra w w' \<longleftrightarrow>
     (\<exists>ls. audit_logs w' = audit_logs w @ ls \<and> length ls \<le> 1 \<and> list_all (\<lambda>l. al_EventType l = ev \<and> al_Metadata l = extra) ls)"

lemma logged_none: "audit_logs w' = audit_logs w \<Longrightarrow> logged ev extra w w'"
  by (simp add: logged_def)

lemma log_event_entry:
  assumes w': "w' = LogAuthEvent E (PostgresAuditLogRepository E) userID ev metadata extra w"
  shows "logged ev extra w w'" and "tick w' = tick w + 3"
proof -
  define l where "l = \<lparr>al_ID = uuid_gen E (tick w), al_UserID = userID, al_EventType = ev, al_IPAddress = IPAddress metadata,
    al_UserAgent = UserAgent metadata, al_Metadata = extra, al_CreatedAt = cur E (step w)\<rparr>"
  have l: "al_EventType l = ev" "al_Metadata l = extra" by (simp_all add: l_def)
  have w': "w' = snd (pg_exec E (insert_audit_log E l) (step (step w)))"
    unfolding w' by (simp add: LogAuthEvent_def uuid_new_def time_now_def PostgresAuditLogRepository_def pg_CreateAuditLog_def l_def)
  obtain res v where call: "pg_exec E (insert_audit_log E l) (step (step w)) = (res, v)"
    by (cases "pg_exec E (insert_audit_log E l) (step (step w))")
  from call have "logged ev extra w v \<and> tick v = tick w + 3"
  proof (cases rule: pg_exec_cases)
    case 1
    then show ?thesis by (simp add: logged_none)
  next
    case (2 x w'')
    with insert_audit_cases [OF 2(1)] l show ?thesis by (auto simp: logged_def)
  qed
  with w' call show "logged ev extra w w'" "tick w' = tick w + 3" by simp_all
qed

end
