(* ===== verification/Auth_Service.thy ===== *)
theory Auth_Service
  imports Refresh_Token_Repository Session_Repository Token_Service Audit_Log
begin

text \<open>
  \<open>internal/service/auth_service.go\<close>: the seven operations of \<open>AuthService\<close> over the
  repository interfaces it is constructed with. Each definition has the calls, guards and
  early returns of its method in their order, whatever the repositories are. \<open>auth_wiring\<close>
  is the service \<open>main\<close> builds on PostgreSQL and Redis.
\<close>

record 'r auth_service =
  userRepository :: "('r world) user_repository"
  sessionRepository :: "('r world) session_repository"
  refreshTokenRepository :: "('r world) token_repository"
  tokenService :: token_service
  auditService :: "('r world) audit_repository option"

definition NewAuthService ::
  "('r world) user_repository \<Rightarrow> ('r world) session_repository \<Rightarrow> ('r world) token_repository
   \<Rightarrow> token_service \<Rightarrow> ('r world) audit_repository option \<Rightarrow> 'r auth_service" where
  "NewAuthService users_repo sessions_repo tokens_repo ts audit =
     \<lparr>userRepository = users_repo, sessionRepository = sessions_repo, refreshTokenRepository = tokens_repo,
      tokenService = ts, auditService = audit\<rparr>"

definition logAuthEvent ::
  "'r env \<Rightarrow> 'r auth_service \<Rightarrow> string option \<Rightarrow> string \<Rightarrow> request_metadata \<Rightarrow> json_object
   \<Rightarrow> 'r world \<Rightarrow> 'r world" where
  "logAuthEvent E s userID eventType metadata extra w =
     (case auditService s of
        None \<Rightarrow> w
      | Some repo \<Rightarrow> LogAuthEvent E repo userID eventType metadata extra w)"

section \<open>Login and registration\<close>

definition login_session :: "user \<Rightarrow> request_metadata \<Rightarrow> string \<Rightarrow> instant \<Rightarrow> session" where
  "login_session user metadata i now =
     \<lparr>s_ID = i, s_UserID = u_ID user,
      s_DeviceName = (if trim_space (DeviceName metadata) = '''' then ''unknown device''
                      else trim_space (DeviceName metadata)),
      s_IPAddress = trim_space (IPAddress metadata), s_Status = ''ACTIVE'', s_CreatedAt = now, s_LastUsedAt = now\<rparr>"

definition Login ::
  "'r env \<Rightarrow> 'r auth_service \<Rightarrow> string \<Rightarrow> string \<Rightarrow> request_metadata \<Rightarrow> 'r world
   \<Rightarrow> (err + token_response) \<times> 'r world" where
  "Login E s email password metadata w =
     (let email = trim_space email; password = trim_space password in
      if email = '''' \<or> password = '''' then
        (Inl ErrInvalidLoginInput,
         logAuthEvent E s None ''login_failure'' metadata
           [(''email'', email), (''reason'', err_text ErrInvalidLoginInput)] w)
      else
     (case ur_FindByEmail (userRepository s) email w of
        (Inl e, w) \<Rightarrow>
          if e = ErrNoRows then
            (Inl ErrInvalidCredentials,
             logAuthEvent E s None ''login_failure'' metadata
               [(''email'', email), (''reason'', err_text ErrInvalidCredentials)] w)
          else (Inl e, w)
      | (Inr user, w) \<Rightarrow>
     (case bcrypt_compare E (u_HashedPassword user) password of
        Some e \<Rightarrow>
          (Inl ErrInvalidCredentials,
           logAuthEvent E s (Some (u_ID user)) ''login_failure'' metadata
             [(''email'', u_Email user), (''reason'', err_text ErrInvalidCredentials)] w)
      | None \<Rightarrow>
     (case time_now E w of (now, w) \<Rightarrow>
      case uuid_new E w of (i, w) \<Rightarrow>
      let session = login_session user metadata i now in
     (case sr_Create (sessionRepository s) session w of
        (Inl e, w) \<Rightarrow> (Inl e, w)
      | (Inr _, w) \<Rightarrow>
     (case GenerateAccessToken E (tokenService s) (u_ID user) (u_Email user) w of
        (Inl e, w) \<Rightarrow> (Inl e, w)
      | (Inr (accessToken, expiresIn), w) \<Rightarrow>
     (case GenerateRefreshToken E (tokenService s) (u_ID user) w of
        (Inl e, w) \<Rightarrow> (Inl e, w)
      | (Inr refreshToken, w) \<Rightarrow>
      let refreshToken = refreshToken\<lparr>rt_SessionID := s_ID session\<rparr> in
     (case rtr_Create (refreshTokenRepository s) refreshToken w of
        (Inl e, w) \<Rightarrow> (Inl e, w)
      | (Inr _, w) \<Rightarrow>
          (Inr \<lparr>tr_Message = ''login successful'', tr_AccessToken = accessToken,
                tr_RefreshToken = rt_Token refreshToken, tr_TokenType = ''Bearer'', tr_ExpiresIn = expiresIn\<rparr>,
           logAuthEvent E s (Some (u_ID user)) ''login_success'' metadata
             [(''email'', u_Email user), (''session_id'', s_ID session)] w)))))))))"

definition new_user :: "'r env \<Rightarrow> string \<Rightarrow> string \<Rightarrow> string \<Rightarrow> instant \<Rightarrow> user" where
  "new_user E email passwordHash i now =
     \<lparr>u_ID = i, u_Email = to_lower (unicode_tables E) email, u_HashedPassword = passwordHash,
      u_IsEmailVerified = False, u_CreatedAt = now, u_UpdatedAt = now\<rparr>"

definition Register ::
  "'r env \<Rightarrow> 'r auth_service \<Rightarrow> string \<Rightarrow> string \<Rightarrow> request_metadata \<Rightarrow> 'r world
   \<Rightarrow> (err + register_response) \<times> 'r world" where
  "Register E s email password metadata w =
     (let email = trim_space email; password = trim_space password in
      if email = '''' \<or> password = '''' then
        (Inl ErrInvalidLoginInput,
         logAuthEvent E s None ''register_failure'' metadata
           [(''email'', email), (''reason'', err_text ErrInvalidLoginInput)] w)
      else
     (case bcrypt_hash E password w of
        (Inl e, w) \<Rightarrow> (Inl e, w)
      | (Inr passwordHash, w) \<Rightarrow>
     (case time_now E w of (now, w) \<Rightarrow>
      case uuid_new E w of (i, w) \<Rightarrow>
      let user = new_user E email passwordHash i now in
     (case ur_CreateUser (userRepository s) user w of
        (Inl e, w) \<Rightarrow>
          if e = ErrDuplicateEmail then
            (Inl ErrEmailAlreadyExists,
             logAuthEvent E s None ''register_failure'' metadata
               [(''email'', email), (''reason'', err_text ErrEmailAlreadyExists)] w)
          else (Inl e, w)
      | (Inr createdUser, w) \<Rightarrow>
          (Inr \<lparr>rr_Message = ''registration successful'', rr_UserID = u_ID createdUser,
                rr_Email = u_Email createdUser, rr_IsEmailVerified = u_IsEmailVerified createdUser\<rparr>,
           logAuthEvent E s (Some (u_ID createdUser)) ''register_success'' metadata
             [(''email'', u_Email createdUser)] w)))))"

section \<open>Refresh\<close>

text \<open>
  \<open>RefreshAccessToken\<close> in the two parts between which another request may run: the checks
  that lead to a new access token, and the rotation that follows them. The parts are
  composed in \<open>RefreshAccessToken\<close>; the repositories give no atomicity across them.
\<close>

definition refresh_check ::
  "'r env \<Rightarrow> 'r auth_service \<Rightarrow> string \<Rightarrow> request_metadata \<Rightarrow> 'r world
   \<Rightarrow> (err + refresh_token \<times> user \<times> string \<times> int) \<times> 'r world" where
  "refresh_check E s refreshTokenValue metadata w =
     (let refreshTokenValue = trim_space refreshTokenValue in
      if refreshTokenValue = '''' then
        (Inl ErrInvalidRefreshToken,
         logAuthEvent E s None ''refresh_failure'' metadata [(''reason'', err_text ErrInvalidRefreshToken)] w)
      else
     (case rtr_FindByToken (refreshTokenRepository s) refreshTokenValue w of
        (Inl e, w) \<Rightarrow>
          if e = ErrRefreshTokenNotFound then
            (Inl ErrInvalidRefreshToken,
             logAuthEvent E s None ''refresh_failure'' metadata [(''reason'', err_text ErrInvalidRefreshToken)] w)
          else (Inl e, w)
      | (Inr refreshToken, w) \<Rightarrow>
          if rt_Status refreshToken = ''USED'' then
            (case rtr_RevokeAllByUser (refreshTokenRepository s) (rt_UserID refreshToken) w of
               (Inl e, w) \<Rightarrow> (Inl e, w)
             | (Inr _, w) \<Rightarrow>
            (case sr_RevokeAllByUserID (sessionRepository s) (rt_UserID refreshToken) w of
               (Inl e, w) \<Rightarrow> (Inl e, w)
             | (Inr _, w) \<Rightarrow>
                 (Inl ErrRefreshTokenReuseDetected,
                  logAuthEvent E s (Some (rt_UserID refreshToken)) ''token_reuse_detected'' metadata
                    [(''session_id'', rt_SessionID refreshToken)] w)))
          else
         (case (if rt_Status refreshToken \<noteq> ''ACTIVE'' then (True, w)
                else (case time_now E w of (t, w) \<Rightarrow> (rt_ExpiresAt refreshToken < t, w))) of
            (True, w) \<Rightarrow>
              (Inl ErrInvalidRefreshToken,
               logAuthEvent E s (Some (rt_UserID refreshToken)) ''refresh_failure'' metadata
                 [(''reason'', err_text ErrInvalidRefreshToken), (''session_id'', rt_SessionID refreshToken)] w)
          | (False, w) \<Rightarrow>
         (case ur_FindByID (userRepository s) (rt_UserID refreshToken) w of
            (Inl e, w) \<Rightarrow> (Inl (if e = ErrNoRows then ErrInvalidRefreshToken else e), w)
          | (Inr user, w) \<Rightarrow>
         (case GenerateAccessToken E (tokenService s) (u_ID user) (u_Email user) w of
            (Inl e, w) \<Rightarrow> (Inl e, w)
          | (Inr (accessToken, expiresIn), w) \<Rightarrow> (Inr (refreshToken, user, accessToken, expiresIn), w))))))"

definition refresh_commit ::
  "'r env \<Rightarrow> 'r auth_service \<Rightarrow> refresh_token \<times> user \<times> string \<times> int \<Rightarrow> request_metadata \<Rightarrow> 'r world
   \<Rightarrow> (err + token_response) \<times> 'r world" where
  "refresh_commit E s found metadata w =
     (case found of (refreshToken, user, accessToken, expiresIn) \<Rightarrow>
     (case rtr_UpdateStatus (refreshTokenRepository s) (rt_Token refreshToken) ''USED'' w of
        (Inl e, w) \<Rightarrow> (Inl (if e = ErrRefreshTokenNotFound then ErrInvalidRefreshToken else e), w)
      | (Inr _, w) \<Rightarrow>
     (case GenerateRefreshToken E (tokenService s) (u_ID user) w of
        (Inl e, w) \<Rightarrow> (Inl e, w)
      | (Inr newRefreshToken, w) \<Rightarrow>
      let newRefreshToken = newRefreshToken\<lparr>rt_SessionID := rt_SessionID refreshToken\<rparr> in
     (case rtr_Create (refreshTokenRepository s) newRefreshToken w of
        (Inl e, w) \<Rightarrow> (Inl e, w)
      | (Inr _, w) \<Rightarrow>
     (case time_now E w of (now, w) \<Rightarrow>
     (case sr_UpdateLastUsedAt (sessionRepository s) (rt_SessionID refreshToken) (Some now) w of
        (Inl e, w) \<Rightarrow> (Inl e, w)
      | (Inr _, w) \<Rightarrow>
          (Inr \<lparr>tr_Message = ''tokens refreshed successfully'', tr_AccessToken = accessToken,
                tr_RefreshToken = rt_Token newRefreshToken, tr_TokenType = ''Bearer'', tr_ExpiresIn = expiresIn\<rparr>,
           logAuthEvent E s (Some (u_ID user)) ''refresh_success'' metadata
             [(''session_id'', rt_SessionID refreshToken)] w)))))))"

definition RefreshAccessToken ::
  "'r env \<Rightarrow> 'r auth_service \<Rightarrow> string \<Rightarrow> request_metadata \<Rightarrow> 'r world
   \<Rightarrow> (err + token_response) \<times> 'r world" where
  "RefreshAccessToken E s refreshTokenValue metadata w =
     (case refresh_check E s refreshTokenValue metadata w of
        (Inl e, w) \<Rightarrow> (Inl e, w)
      | (Inr found, w) \<Rightarrow> refresh_commit E s found metadata w)"

section \<open>Logout and sessions\<close>

text \<open>The zero value of \<open>model.RefreshToken\<close>, with which \<open>Logout\<close> goes on for an unknown token.\<close>

definition zero_refresh_token :: refresh_token where
  "zero_refresh_token =
     \<lparr>rt_Token = '''', rt_UserID = '''', rt_SessionID = '''', rt_Status = '''', rt_ExpiresAt = - 62135596800 * second,
      rt_CreatedAt = - 62135596800 * second\<rparr>"

definition Logout ::
  "'r env \<Rightarrow> 'r auth_service \<Rightarrow> string \<Rightarrow> request_metadata \<Rightarrow> 'r world
   \<Rightarrow> (err + message_response) \<times> 'r world" where
  "Logout E s refreshTokenValue metadata w =
     (let refreshTokenValue = trim_space refreshTokenValue in
      if refreshTokenValue = '''' then
        (Inr \<lparr>mr_Message = ''logout successful''\<rparr>,
         logAuthEvent E s None ''logout'' metadata [(''message'', ''logout requested without refresh token'')] w)
      else
     (case (case rtr_FindByToken (refreshTokenRepository s) refreshTokenValue w of
              (Inl e, w) \<Rightarrow> (if e = ErrRefreshTokenNotFound then Inr zero_refresh_token else Inl e, w)
            | (Inr refreshToken, w) \<Rightarrow> (Inr refreshToken, w)) of
        (Inl e, w) \<Rightarrow> (Inl e, w)
      | (Inr refreshToken, w) \<Rightarrow>
     (case (case rtr_RevokeByToken (refreshTokenRepository s) refreshTokenValue w of
              (Inl e, w) \<Rightarrow> (if e = ErrRefreshTokenNotFound then Inr () else Inl e, w)
            | (Inr _, w) \<Rightarrow> (Inr (), w)) of
        (Inl e, w) \<Rightarrow> (Inl e, w)
      | (Inr _, w) \<Rightarrow>
     (case (if rt_SessionID refreshToken \<noteq> '''' then
              sr_UpdateStatus (sessionRepository s) (rt_SessionID refreshToken) ''REVOKED'' w
            else (Inr (), w)) of
        (Inl e, w) \<Rightarrow> (Inl e, w)
      | (Inr _, w) \<Rightarrow>
          (Inr \<lparr>mr_Message = ''logout successful''\<rparr>,
           logAuthEvent E s (if rt_UserID refreshToken \<noteq> '''' then Some (rt_UserID refreshToken) else None)
             ''logout'' metadata [(''session_id'', rt_SessionID refreshToken)] w)))))"

definition LogoutAll ::
  "'r env \<Rightarrow> 'r auth_service \<Rightarrow> string \<Rightarrow> request_metadata \<Rightarrow> 'r world
   \<Rightarrow> (err + message_response) \<times> 'r world" where
  "LogoutAll E s userID metadata w =
     (let userID = trim_space userID in
      if userID = '''' then
        (Inr \<lparr>mr_Message = ''logout from all devices successful''\<rparr>,
         logAuthEvent E s None ''logout_all'' metadata [(''message'', ''logout all requested without user id'')] w)
      else
     (case rtr_RevokeAllByUser (refreshTokenRepository s) userID w of
        (Inl e, w) \<Rightarrow> (Inl e, w)
      | (Inr _, w) \<Rightarrow>
     (case sr_RevokeAllByUserID (sessionRepository s) userID w of
        (Inl e, w) \<Rightarrow> (Inl e, w)
      | (Inr _, w) \<Rightarrow>
          (Inr \<lparr>mr_Message = ''logout from all devices successful''\<rparr>,
           logAuthEvent E s (Some userID) ''logout_all'' metadata [] w))))"

definition ListSessions ::
  "'r auth_service \<Rightarrow> string \<Rightarrow> 'r world \<Rightarrow> (err + sessions_response) \<times> 'r world" where
  "ListSessions s userID w =
     (case sr_ListByUserID (sessionRepository s) (trim_space userID) w of
        (Inl e, w) \<Rightarrow> (Inl e, w)
      | (Inr ss, w) \<Rightarrow> (Inr \<lparr>Sessions = ss\<rparr>, w))"

definition RevokeSession ::
  "'r auth_service \<Rightarrow> string \<Rightarrow> string \<Rightarrow> 'r world \<Rightarrow> (err + message_response) \<times> 'r world" where
  "RevokeSession s userID sessionID w =
     (case sr_FindByID (sessionRepository s) (trim_space sessionID) w of
        (Inl e, w) \<Rightarrow> (Inl e, w)
      | (Inr session, w) \<Rightarrow>
          if s_UserID session \<noteq> trim_space userID then (Inl ErrInvalidRefreshToken, w)
          else
         (case rtr_RevokeAllBySession (refreshTokenRepository s) (s_ID session) w of
            (Inl e, w) \<Rightarrow> (Inl e, w)
          | (Inr _, w) \<Rightarrow>
         (case sr_UpdateStatus (sessionRepository s) (s_ID session) ''REVOKED'' w of
            (Inl e, w) \<Rightarrow> (Inl e, w)
          | (Inr _, w) \<Rightarrow> (Inr \<lparr>mr_Message = ''session revoked successfully''\<rparr>, w))))"

text \<open>The service of \<open>main\<close>, over PostgreSQL and Redis.\<close>

definition auth_wiring :: "'r env \<Rightarrow> token_service \<Rightarrow> 'r auth_service" where
  "auth_wiring E ts =
     NewAuthService (PostgresUserRepository E) (PostgresSessionRepository E) (RedisRefreshTokenRepository E) ts
       (Some (PostgresAuditLogRepository E))"

end
