(* ===== verification/Auth_Steps.thy ===== *)
theory Auth_Steps
  imports Auth_Service
begin

text \<open>
  What every operation of \<open>AuthService\<close> keeps, whatever it returns. The locale \<open>steady\<close>
  assumes of each repository call, as the service makes it, that the world after it is
  related to the world before, by any reflexive and transitive relation; the seven
  operations, and so every run of them, are then related too. Its interpretations in
  \<open>Auth_Contract\<close> and \<open>Auth_Invariants\<close> choose the relations.
\<close>

section \<open>Runs\<close>

datatype auth_request =
    LoginRequest string string request_metadata
  | RegisterRequest string string request_metadata
  | RefreshRequest string request_metadata
  | LogoutRequest string request_metadata
  | LogoutAllRequest string request_metadata
  | ListRequest string
  | RevokeRequest string string

fun perform :: "'r env \<Rightarrow> 'r auth_service \<Rightarrow> auth_request \<Rightarrow> 'r world \<Rightarrow> 'r world" where
  "perform E s (LoginRequest email password m) w = snd (Login E s email password m w)"
| "perform E s (RegisterRequest email password m) w = snd (Register E s email password m w)"
| "perform E s (RefreshRequest token m) w = snd (RefreshAccessToken E s token m w)"
| "perform E s (LogoutRequest token m) w = snd (Logout E s token m w)"
| "perform E s (LogoutAllRequest userID m) w = snd (LogoutAll E s userID m w)"
| "perform E s (ListRequest userID) w = snd (ListSessions s userID w)"
| "perform E s (RevokeRequest userID sessionID) w = snd (RevokeSession s userID sessionID w)"

inductive auth_run :: "'r env \<Rightarrow> 'r auth_service \<Rightarrow> 'r world \<Rightarrow> 'r world \<Rightarrow> bool" for E s where
  start: "auth_run E s w w"
| idle: "auth_run E s w w1 \<Longrightarrow> later_only w1 w2 \<Longrightarrow> auth_run E s w w2"
| request: "auth_run E s w w1 \<Longrightarrow> auth_run E s w (perform E s r w1)"

lemma auth_run_trans: "auth_run E s b c \<Longrightarrow> auth_run E s a b \<Longrightarrow> auth_run E s a c"
  by (induction rule: auth_run.induct) (auto intro: auth_run.intros)

lemma later_only_time: "time_now E w = (t, w') \<Longrightarrow> later_only w w'" "uuid_new E w = (i, w') \<Longrightarrow> later_only w w'"
  "bcrypt_hash E p w = (res, w') \<Longrightarrow> later_only w w'"
  by (auto simp: time_now_def uuid_new_def bcrypt_hash_def later_only_step)

lemma login_session_simps [simp]:
  "s_ID (login_session u m i now) = i" "s_UserID (login_session u m i now) = u_ID u"
  "s_Status (login_session u m i now) = ''ACTIVE''"
  by (simp_all add: login_session_def)

section \<open>Steady calls make steady operations\<close>

locale steady =
  fixes E :: "'r env" and s :: "'r auth_service" and R :: "'r world \<Rightarrow> 'r world \<Rightarrow> bool"
  assumes steady_refl [simp]: "R w w"
    and steady_trans: "R a b \<Longrightarrow> R b c \<Longrightarrow> R a c"
    and later: "later_only w w' \<Longrightarrow> R w w'"
    and by_email: "ur_FindByEmail (userRepository s) email w = (ures, w') \<Longrightarrow> R w w'"
    and by_id: "ur_FindByID (userRepository s) i w = (ures, w') \<Longrightarrow> R w w'"
    and create_user: "ur_CreateUser (userRepository s) u w = (ures, w') \<Longrightarrow> R w w'"
    and create_session: "s_Status x = ''ACTIVE'' \<Longrightarrow> sr_Create (sessionRepository s) x w = (sres, w') \<Longrightarrow> R w w'"
    and list_sessions: "sr_ListByUserID (sessionRepository s) i w = (lres, w') \<Longrightarrow> R w w'"
    and touch_session: "sr_UpdateLastUsedAt (sessionRepository s) i (Some t) w = (res, w') \<Longrightarrow> R w w'"
    and revoke_session: "sr_UpdateStatus (sessionRepository s) i ''REVOKED'' w = (res, w') \<Longrightarrow> R w w'"
    and revoke_sessions: "sr_RevokeAllByUserID (sessionRepository s) i w = (res, w') \<Longrightarrow> R w w'"
    and find_session: "sr_FindByID (sessionRepository s) i w = (sres, w') \<Longrightarrow> R w w'"
    and find_token: "rtr_FindByToken (refreshTokenRepository s) tk w = (tres, w') \<Longrightarrow> R w w'"
    and revoke_token: "rtr_RevokeByToken (refreshTokenRepository s) tk w = (res, w') \<Longrightarrow> R w w'"
    and revoke_session_tokens: "rtr_RevokeAllBySession (refreshTokenRepository s) i w = (res, w') \<Longrightarrow> R w w'"
    and revoke_user_tokens: "rtr_RevokeAllByUser (refreshTokenRepository s) i w = (res, w') \<Longrightarrow> R w w'"
    and issue_token: "GenerateRefreshToken E (tokenService s) i w = (Inr rt, w') \<Longrightarrow>
      rtr_Create (refreshTokenRepository s) (rt\<lparr>rt_SessionID := j\<rparr>) w' = (res, w'') \<Longrightarrow> R w w''"
    and spend_token: "refresh_check E s tk m w = (Inr (rt, found), w') \<Longrightarrow> R w w' \<Longrightarrow>
      rtr_UpdateStatus (refreshTokenRepository s) (rt_Token rt) ''USED'' w' = (res, w'') \<Longrightarrow> R w w''"
    and audit_call: "R w (logAuthEvent E s uid ev m extra w)"
begin

text \<open>One rule per shape of call; they drive the proofs by the structure of the operation.\<close>

lemma on_call:
  assumes "\<And>r w1. f = (r, w1) \<Longrightarrow> R w w1"
    and "\<And>e w1. f = (Inl e, w1) \<Longrightarrow> R w1 (snd (g e w1))" and "\<And>x w1. f = (Inr x, w1) \<Longrightarrow> R w1 (snd (h x w1))"
  shows "R w (snd (case f of (Inl e, w1) \<Rightarrow> g e w1 | (Inr x, w1) \<Rightarrow> h x w1))"
proof -
  obtain r w1 where f: "f = (r, w1)" by (cases f)
  have "R w1 (snd (case f of (Inl e, w1) \<Rightarrow> g e w1 | (Inr x, w1) \<Rightarrow> h x w1))"
    using assms(2,3) f by (cases r) auto
  with assms(1) [OF f] show ?thesis by (rule steady_trans)
qed

lemma on_pair_call:
  assumes "\<And>r w1. f = (r, w1) \<Longrightarrow> R w w1"
    and "\<And>e w1. f = (Inl e, w1) \<Longrightarrow> R w1 (snd (g e w1))" and "\<And>x y w1. f = (Inr (x, y), w1) \<Longrightarrow> R w1 (snd (h x y w1))"
  shows "R w (snd (case f of (Inl e, w1) \<Rightarrow> g e w1 | (Inr (x, y), w1) \<Rightarrow> h x y w1))"
  using assms by (intro on_call) (auto split: prod.splits)

lemma on_time: "(\<And>t w1. R w1 (snd (g t w1))) \<Longrightarrow> R w (snd (case time_now E w of (t, w1) \<Rightarrow> g t w1))"
  using steady_trans [OF later [OF later_only_time(1)]] by (auto split: prod.splits)

lemma on_uuid: "(\<And>i w1. R w1 (snd (g i w1))) \<Longrightarrow> R w (snd (case uuid_new E w of (i, w1) \<Rightarrow> g i w1))"
  using steady_trans [OF later [OF later_only_time(2)]] by (auto split: prod.splits)

lemma on_issue:
  assumes "\<And>rt x w2. R w2 (snd (h rt x w2))"
  shows "R w (snd (case GenerateRefreshToken E (tokenService s) i w of
      (Inl e, w1) \<Rightarrow> (Inl e, w1)
    | (Inr rt, w1) \<Rightarrow> (case rtr_Create (refreshTokenRepository s) (rt\<lparr>rt_SessionID := j\<rparr>) w1 of
        (Inl e, w2) \<Rightarrow> (Inl e, w2) | (Inr x, w2) \<Rightarrow> h rt x w2)))"
proof -
  obtain g w1 where g: "GenerateRefreshToken E (tokenService s) i w = (g, w1)"
    by (cases "GenerateRefreshToken E (tokenService s) i w")
  show ?thesis
  proof (cases g)
    case (Inl e)
    with g later [OF GenerateRefreshToken_frame [OF g]] show ?thesis by simp
  next
    case (Inr rt)
    obtain c w2 where c: "rtr_Create (refreshTokenRepository s) (rt\<lparr>rt_SessionID := j\<rparr>) w1 = (c, w2)"
      by (cases "rtr_Create (refreshTokenRepository s) (rt\<lparr>rt_SessionID := j\<rparr>) w1")
    from issue_token [OF g [unfolded Inr] c] have "R w w2" .
    with g c Inr assms steady_trans show ?thesis by (cases c) auto
  qed
qed

lemma on_status_guard:
  assumes "\<And>w1. R w1 (snd (g w1))" and "\<And>w1. R w1 (snd (h w1))"
  shows "R w (snd (case (case time_now E w of (t, w) \<Rightarrow> (P t, w)) of
      (True, w) \<Rightarrow> g w | (False, w) \<Rightarrow> h w))"
proof -
  have "R w (snd (case (Q, step w) of (True, w) \<Rightarrow> g w | (False, w) \<Rightarrow> h w))" for Q
    using steady_trans [OF later [OF later_only_step(2)]] assms by (cases Q) simp_all
  then show ?thesis by (simp add: time_now_def)
qed

lemmas on_calls = on_status_guard on_issue on_time on_uuid on_pair_call on_call

lemma access_call: "GenerateAccessToken E ts u em w = (ares, w') \<Longrightarrow> R w w'"
  by (rule later) (rule GenerateAccessToken_frame)

lemma hash_call: "bcrypt_hash E p w = (hres, w') \<Longrightarrow> R w w'"
  by (rule later) (rule later_only_time)

lemmas call_facts = by_email by_id create_user create_session [OF login_session_simps(3)] list_sessions touch_session revoke_session
  revoke_sessions find_session find_token revoke_token revoke_session_tokens revoke_user_tokens access_call hash_call

lemma audit_after [simp]: "R w (logAuthEvent E s uid ev m extra w)"
  by (rule audit_call)

lemma Login_steady: "R w (snd (Login E s email password m w))"
  unfolding Login_def Let_def
  by (auto intro!: on_calls split: option.splits dest: call_facts)

lemma Register_steady: "R w (snd (Register E s email password m w))"
  unfolding Register_def Let_def
  by (auto intro!: on_calls dest: call_facts)

lemma refresh_check_steady: "R w (snd (refresh_check E s token m w))"
  unfolding refresh_check_def Let_def
  by (auto intro!: on_calls dest: call_facts)

lemma refresh_commit_steady:
  assumes "refresh_check E s token m w0 = (Inr found, w)"
  shows "R w0 (snd (refresh_commit E s found m' w))"
proof -
  obtain rt u a n where found: "found = (rt, u, a, n)" by (cases found)
  have "R w0 w" using refresh_check_steady [of w0 token m] assms by simp
  note spend = spend_token [OF assms [unfolded found] this]
  show ?thesis
    unfolding refresh_commit_def Let_def found
    by (auto intro!: on_calls dest: call_facts spend)
qed

lemma RefreshAccessToken_steady: "R w (snd (RefreshAccessToken E s token m w))"
proof (cases "refresh_check E s token m w")
  case (Pair r w1)
  with refresh_check_steady [of w token m] refresh_commit_steady [of token m w _ w1 m] show ?thesis
    by (cases r) (auto simp: RefreshAccessToken_def)
qed

lemma Logout_steady: "R w (snd (Logout E s token m w))"
  unfolding Logout_def Let_def
  by (auto intro!: on_calls dest: call_facts split: prod.split_asm sum.split_asm if_split_asm)

lemma LogoutAll_steady: "R w (snd (LogoutAll E s userID m w))"
  unfolding LogoutAll_def Let_def
  by (auto intro!: on_calls dest: call_facts)

lemma ListSessions_steady: "R w (snd (ListSessions s userID w))"
  unfolding ListSessions_def
  by (auto intro!: on_calls dest: call_facts)

lemma RevokeSession_steady: "R w (snd (RevokeSession s userID sessionID w))"
  unfolding RevokeSession_def
  by (auto intro!: on_calls dest: call_facts)

lemma perform_steady: "R w (perform E s r w)"
  by (cases r)
    (simp_all add: Login_steady Register_steady RefreshAccessToken_steady Logout_steady LogoutAll_steady
      ListSessions_steady RevokeSession_steady)

lemma run_steady: "auth_run E s w w' \<Longrightarrow> R w w'"
  by (induction rule: auth_run.induct) (auto intro: steady_trans [OF _ later] steady_trans [OF _ perform_steady])

end

end
