(* ===== verification/Auth_Contract.thy ===== *)
theory Auth_Contract
  imports Auth_Steps
begin

text \<open>
  What \<open>AuthService\<close> guarantees, from the contracts of its repositories alone
  (\<open>user_directory\<close>, \<open>session_store\<close>, \<open>token_store\<close>, and that the calls of one do not
  touch the data of another). The locale \<open>auth_stores\<close> holds the guarantees; the theory
  ends with its interpretation on the PostgreSQL and Redis repositories of \<open>main\<close>.
\<close>

definition redis_same :: "'r world \<Rightarrow> 'r world \<Rightarrow> bool" where
  "redis_same w w' \<longleftrightarrow> redis_db w' = redis_db w \<and> tick w \<le> tick w'"

text \<open>A token the random generator will not produce from a moment on.\<close>

definition never_drawn :: "'r env \<Rightarrow> nat \<Rightarrow> string \<Rightarrow> bool" where
  "never_drawn E n t \<longleftrightarrow> (\<forall>m \<ge> n. \<forall>bytes. rand_gen E m = Inr bytes \<longrightarrow> raw_url_encode bytes \<noteq> t)"

lemma never_drawn_later: "never_drawn E n t \<Longrightarrow> n \<le> m \<Longrightarrow> never_drawn E m t"
  unfolding never_drawn_def using order_trans by blast

locale auth_stores =
  dir: user_directory "userRepository s" users norm canon lawful +
  ses: session_store "sessionRepository s" sessions canon lawful +
  tok: token_store "refreshTokenRepository s" kept gone indexes inv
  for E :: "'r env" and s :: "'r auth_service" and norm canon lawful kept gone indexes inv +
  assumes quiet: "redis_same w w' \<Longrightarrow> inv w \<Longrightarrow>
      inv w' \<and> kept w' = kept w \<and> indexes w' = indexes w \<and> (\<forall>t. gone w t \<longrightarrow> gone w' t)"
    and users_frame:
      "ur_FindByEmail (userRepository s) email w = (ures, w') \<Longrightarrow> redis_same w w' \<and> sessions w' = sessions w"
      "ur_FindByID (userRepository s) i w = (ures, w') \<Longrightarrow> redis_same w w' \<and> sessions w' = sessions w"
      "ur_CreateUser (userRepository s) u w = (ures, w') \<Longrightarrow> redis_same w w' \<and> sessions w' = sessions w"
    and sessions_frame:
      "sr_Create (sessionRepository s) x w = (sres, w') \<Longrightarrow> redis_same w w' \<and> users w' = users w"
      "sr_ListByUserID (sessionRepository s) i w = (lres, w') \<Longrightarrow> redis_same w w' \<and> users w' = users w"
      "sr_UpdateLastUsedAt (sessionRepository s) i tm w = (res, w') \<Longrightarrow> redis_same w w' \<and> users w' = users w"
      "sr_UpdateStatus (sessionRepository s) i st w = (res, w') \<Longrightarrow> redis_same w w' \<and> users w' = users w"
      "sr_RevokeAllByUserID (sessionRepository s) i w = (res, w') \<Longrightarrow> redis_same w w' \<and> users w' = users w"
      "sr_FindByID (sessionRepository s) i w = (sres, w') \<Longrightarrow> redis_same w w' \<and> users w' = users w"
    and tokens_frame:
      "rtr_Create (refreshTokenRepository s) rt w = (res, w') \<Longrightarrow> only_redis w w'"
      "rtr_FindByToken (refreshTokenRepository s) tk w = (tres, w') \<Longrightarrow> only_redis w w'"
      "rtr_UpdateStatus (refreshTokenRepository s) tk st w = (res, w') \<Longrightarrow> only_redis w w'"
      "rtr_RevokeAllBySession (refreshTokenRepository s) i w = (res, w') \<Longrightarrow> only_redis w w'"
      "rtr_RevokeAllByUser (refreshTokenRepository s) i w = (res, w') \<Longrightarrow> only_redis w w'"
    and audit_frame: "only_audit w (logAuthEvent E s uid ev m extra w)"
begin

section \<open>What stays\<close>

text \<open>A retired token stays retired and a dead session stays dead, whatever is requested.\<close>

definition advances :: "string \<Rightarrow> string \<Rightarrow> 'r world \<Rightarrow> 'r world \<Rightarrow> bool" where
  "advances t i w w' \<longleftrightarrow> tick w \<le> tick w'
     \<and> (inv w \<longrightarrow> inv w' \<and> (never_drawn E (tick w) t \<longrightarrow> tok.retired w t \<longrightarrow> tok.retired w' t))
     \<and> (ses.dead i w \<longrightarrow> ses.dead i w')"

lemma advances_trans: "advances t i a b \<Longrightarrow> advances t i b c \<Longrightarrow> advances t i a c"
  using never_drawn_later [of E "tick a" t "tick b"] by (auto simp: advances_def)

lemma quiet_retired: "redis_same w w' \<Longrightarrow> inv w \<Longrightarrow> tok.retired w t \<Longrightarrow> tok.retired w' t"
  using quiet [of w w'] by (auto simp: tok.retired_def)

lemma advances_quiet:
  "redis_same w w' \<Longrightarrow> (ses.dead i w \<Longrightarrow> ses.dead i w') \<Longrightarrow> advances t i w w'"
  using quiet [of w w'] quiet_retired [of w w' t] by (auto simp: advances_def redis_same_def)

lemma advances_same_rows: "redis_same w w' \<and> sessions w' = sessions w \<Longrightarrow> advances t i w w'"
  by (auto intro: advances_quiet ses.dead_same_rows)

lemma later_same: "later_only w w' \<Longrightarrow> redis_same w w' \<and> sessions w' = sessions w"
  by (auto simp: redis_same_def later_only_simps)

lemma audit_same: "only_audit w w' \<Longrightarrow> redis_same w w' \<and> sessions w' = sessions w"
  by (auto simp: redis_same_def only_audit_def)

lemma advances_revoke: "only_redis w w' \<Longrightarrow> (inv w \<Longrightarrow> tok.revokes w w') \<Longrightarrow> advances t i w w'"
  using tok.revokes_retired [of w w' t] ses.dead_same_rows [of i w w']
  by (auto simp: advances_def only_redis_def tok.revokes_def)

section \<open>The checks of a refresh\<close>

lemma refresh_check_calls:
  assumes "refresh_check E s v m w = (Inr (rt, u, acc, n), w')"
  shows "trim_space v \<noteq> '''' \<and> rt_Status rt = ''ACTIVE''
    \<and> (\<exists>w1 w2. rtr_FindByToken (refreshTokenRepository s) (trim_space v) w = (Inr rt, w1)
        \<and> cur E w1 \<le> rt_ExpiresAt rt
        \<and> ur_FindByID (userRepository s) (rt_UserID rt) (step w1) = (Inr u, w2)
        \<and> GenerateAccessToken E (tokenService s) (u_ID u) (u_Email u) w2 = (Inr (acc, n), w'))"
  using assms
  by (auto simp: refresh_check_def Let_def time_now_def elim!: pair_call_cases call_cases split: if_splits bool.splits)

lemma refresh_check_ok:
  assumes inv: "inv w" and call: "refresh_check E s v m w = (Inr (rt, u, acc, n), w')"
  shows "kept w (trim_space v) = Some rt" and "rt_Status rt = ''ACTIVE''" and "rt_Token rt = trim_space v"
    and "u \<in> set (users w)" and "canon (rt_UserID rt) = Some (u_ID u)"
    and "inv w'" and "kept w' = kept w" and "indexes w' = indexes w" and "gone w t \<Longrightarrow> gone w' t"
    and "sessions w' = sessions w" and "tick w \<le> tick w'" and "users w' = users w"
proof -
  note calls = refresh_check_calls [OF call]
  from calls show "rt_Status rt = ''ACTIVE''" by blast
  from calls obtain w1 w2 where f: "rtr_FindByToken (refreshTokenRepository s) (trim_space v) w = (Inr rt, w1)"
    and u: "ur_FindByID (userRepository s) (rt_UserID rt) (step w1) = (Inr u, w2)"
    and g: "GenerateAccessToken E (tokenService s) (u_ID u) (u_Email u) w2 = (Inr (acc, n), w')" by blast
  show k: "kept w (trim_space v) = Some rt" by (rule tok.find_ok [OF inv f])
  with tok.indexed [OF inv] show "rt_Token rt = trim_space v" by blast
  note w1 = tok.find_frame [OF inv f] tokens_frame(2) [OF f] tok.find_gone [OF inv f]
  have "redis_same w1 (step w1)" by (simp add: redis_same_def)
  with users_frame(2) [OF u] later_same [OF GenerateAccessToken_frame [OF g]]
  have rest: "redis_same w1 w'" "sessions w' = sessions w1" by (auto simp: redis_same_def)
  have "inv w' \<and> kept w' = kept w1 \<and> indexes w' = indexes w1 \<and> (\<forall>t. gone w1 t \<longrightarrow> gone w' t)"
    using quiet [OF rest(1)] w1 by blast
  with w1 show "inv w'" "kept w' = kept w" "indexes w' = indexes w" "gone w t \<Longrightarrow> gone w' t" by auto
  from w1 rest show "sessions w' = sessions w" "tick w \<le> tick w'" by (auto simp: only_redis_def redis_same_def)
  show "u \<in> set (users w)" "canon (rt_UserID rt) = Some (u_ID u)"
    using dir.by_id_ok [OF u] w1 by (auto simp: only_redis_def)
  show "users w' = users w"
    using w1 dir.by_id_frame [OF u] later_only_simps(3) [OF GenerateAccessToken_frame [OF g]] by (simp add: only_redis_def)
qed

lemma refresh_commit_calls:
  assumes "refresh_commit E s (rt, u, acc, n) m w = (Inr resp, w')"
  shows "\<exists>w1 new w2 w3 w4. rtr_UpdateStatus (refreshTokenRepository s) (rt_Token rt) ''USED'' w = (Inr (), w1)
    \<and> GenerateRefreshToken E (tokenService s) (u_ID u) w1 = (Inr new, w2)
    \<and> rtr_Create (refreshTokenRepository s) (new\<lparr>rt_SessionID := rt_SessionID rt\<rparr>) w2 = (Inr (), w3)
    \<and> sr_UpdateLastUsedAt (sessionRepository s) (rt_SessionID rt) (Some (cur E w3)) (step w3) = (Inr (), w4)
    \<and> w' = logAuthEvent E s (Some (u_ID u)) ''refresh_success'' m [(''session_id'', rt_SessionID rt)] w4
    \<and> resp = \<lparr>tr_Message = ''tokens refreshed successfully'', tr_AccessToken = acc,
                tr_RefreshToken = rt_Token new, tr_TokenType = ''Bearer'', tr_ExpiresIn = n\<rparr>"
  using assms
  by (auto simp: refresh_commit_def Let_def time_now_def elim!: call_cases)

text \<open>
  The rotation, from a world in which the token is kept in some state: the old token is
  spent, its successor is active in the same session and registered for its user and session;
  of the sessions only the time of last use moves, and only in that session.
\<close>

definition rotated :: "refresh_token \<Rightarrow> refresh_token \<Rightarrow> 'r world \<Rightarrow> 'r world \<Rightarrow> bool" where
  "rotated rt new w w' \<longleftrightarrow> inv w'
     \<and> kept w' = (kept w)(rt_Token rt \<mapsto> set_status ''USED'' rt, rt_Token new \<mapsto> new)
     \<and> indexes w' = put_token new (indexes w)
     \<and> rt_Status new = ''ACTIVE'' \<and> rt_SessionID new = rt_SessionID rt
     \<and> canon (rt_UserID rt) = Some (rt_UserID new) \<and> users w' = users w
     \<and> (\<exists>now. sessions w' =
          update_where (has_session_id (canon (rt_SessionID rt))) (\<lambda>x. x\<lparr>s_LastUsedAt := now\<rparr>) (sessions w))"

lemma refresh_commit_ok:
  assumes inv: "inv w" and call: "refresh_commit E s (rt, u, acc, n) m w = (Inr resp, w')"
    and kept: "kept w (rt_Token rt) = Some rt0" "set_status ''USED'' rt0 = set_status ''USED'' rt"
    and owner: "canon (rt_UserID rt) = Some (u_ID u)"
  obtains new where "rotated rt new w w'" and "rt_Token new = tr_RefreshToken resp" and "\<not> gone w (rt_Token rt)"
    and "\<exists>m \<ge> tick w. \<exists>bytes. rand_gen E m = Inr bytes \<and> rt_Token new = raw_url_encode bytes"
    and "\<forall>t. tok.retired w t \<longrightarrow> t \<noteq> rt_Token rt \<longrightarrow> t \<noteq> rt_Token new \<longrightarrow> tok.retired w' t"
proof -
  obtain w1 new w2 w3 w4 where u: "rtr_UpdateStatus (refreshTokenRepository s) (rt_Token rt) ''USED'' w = (Inr (), w1)"
    and g: "GenerateRefreshToken E (tokenService s) (u_ID u) w1 = (Inr new, w2)"
    and c: "rtr_Create (refreshTokenRepository s) (new\<lparr>rt_SessionID := rt_SessionID rt\<rparr>) w2 = (Inr (), w3)"
    and l: "sr_UpdateLastUsedAt (sessionRepository s) (rt_SessionID rt) (Some (cur E w3)) (step w3) = (Inr (), w4)"
    and w': "w' = logAuthEvent E s (Some (u_ID u)) ''refresh_success'' m [(''session_id'', rt_SessionID rt)] w4"
    and resp: "tr_RefreshToken resp = rt_Token new"
    using refresh_commit_calls [OF call] by auto
  let ?new = "new\<lparr>rt_SessionID := rt_SessionID rt\<rparr>"
  note new = GenerateRefreshToken_ok [OF g]
  note same2 = later_same [OF GenerateRefreshToken_frame [OF g]]
  have u1: "inv w1" "kept w1 = (kept w)(rt_Token rt \<mapsto> set_status ''USED'' rt)" "\<not> gone w (rt_Token rt)" "indexes w1 = indexes w"
    using tok.upd_frame [OF inv u] tok.upd_ok [OF inv u] kept by auto
  have w2: "inv w2" "kept w2 = kept w1" "indexes w2 = indexes w1" using quiet [of w1 w2] same2 u1(1) by auto
  have w3: "inv w3" "kept w3 = (kept w1)(rt_Token new \<mapsto> ?new)" "indexes w3 = put_token ?new (indexes w)"
    using tok.create_inv [OF w2(1) c] tok.create_ok [OF w2(1) c] w2(2,3) u1(4) by auto
  have "redis_same w3 (step w3)" by (simp add: redis_same_def)
  moreover have "only_audit w4 w'" unfolding w' by (rule audit_frame)
  ultimately have same3: "redis_same w3 w'" "users w' = users w3" "sessions w' = sessions w4"
    using sessions_frame(3) [OF l] by (auto simp: redis_same_def only_audit_def)
  note q = quiet [OF same3(1) w3(1)]
  have sess: "sessions w3 = sessions w" "users w3 = users w"
    using tokens_frame(3) [OF u] tokens_frame(1) [OF c] same2 later_only_simps [OF GenerateRefreshToken_frame [OF g]]
    by (auto simp: only_redis_def)
  obtain now where now: "sessions w' =
      update_where (has_session_id (canon (rt_SessionID rt))) (\<lambda>x. x\<lparr>s_LastUsedAt := now\<rparr>) (sessions w)"
    using ses.touch_ok [OF l] sess same3 by auto
  have rot: "rotated rt ?new w w'"
    unfolding rotated_def using q u1 w3 new owner now same3 sess by auto
  have "tick w \<le> tick w1" using tokens_frame(3) [OF u] by (simp add: only_redis_def)
  then have drawn: "\<exists>m \<ge> tick w. \<exists>bytes. rand_gen E m = Inr bytes \<and> rt_Token new = raw_url_encode bytes"
    using new by blast
  have "tok.retired w' t" if "tok.retired w t" "t \<noteq> rt_Token rt" "t \<noteq> rt_Token new" for t
  proof -
    have "tok.retired w1 t"
      using that(1,2) tok.upd_gone [OF inv u] u1(2) by (auto simp: tok.retired_def)
    with quiet_retired same2 u1(1) have "tok.retired w2 t" by blast
    with tok.create_retired [OF w2(1) c] that(3) have "tok.retired w3 t" by simp
    with quiet_retired same3 w3(1) show ?thesis by blast
  qed
  with that [of ?new] rot drawn u1(3) resp show ?thesis by simp
qed

lemma refresh_ok:
  assumes inv: "inv w" and call: "RefreshAccessToken E s v m w = (Inr resp, w')"
  obtains rt new where "kept w (trim_space v) = Some rt" and "rt_Status rt = ''ACTIVE''" and "rt_Token rt = trim_space v"
    and "\<not> gone w (trim_space v)" and "rotated rt new w w'" and "rt_Token new = tr_RefreshToken resp"
    and "\<exists>m \<ge> tick w. \<exists>bytes. rand_gen E m = Inr bytes \<and> rt_Token new = raw_url_encode bytes"
    and "\<exists>u \<in> set (users w). canon (rt_UserID rt) = Some (u_ID u)"
proof -
  obtain rt u acc n w1 where c: "refresh_check E s v m w = (Inr (rt, u, acc, n), w1)"
    and d: "refresh_commit E s (rt, u, acc, n) m w1 = (Inr resp, w')"
    using call by (auto simp: RefreshAccessToken_def elim!: call_cases)
  note ok = refresh_check_ok [OF inv c]
  have "kept w1 (rt_Token rt) = Some rt" using ok(1,3,7) by simp
  from refresh_commit_ok [OF ok(6) d this refl ok(5)] obtain new where
    new: "rotated rt new w1 w'" "rt_Token new = tr_RefreshToken resp" "\<not> gone w1 (rt_Token rt)"
      "\<exists>m \<ge> tick w1. \<exists>bytes. rand_gen E m = Inr bytes \<and> rt_Token new = raw_url_encode bytes" by metis
  have "\<not> gone w (trim_space v)" using new(3) ok(3,9) by auto
  moreover have "rotated rt new w w'"
    using new(1) ok(7,8,10,12) by (simp add: rotated_def)
  moreover have "\<exists>m \<ge> tick w. \<exists>bytes. rand_gen E m = Inr bytes \<and> rt_Token new = raw_url_encode bytes"
    using new(4) le_trans [OF ok(11)] by blast
  moreover have "\<exists>u \<in> set (users w). canon (rt_UserID rt) = Some (u_ID u)" using ok(4,5) by blast
  ultimately show ?thesis using that [of rt new] ok(1,2,3) new(2) by blast
qed

text \<open>So a retired token, or one that is not ACTIVE, gets no answer but an error.\<close>

lemma refresh_refused:
  assumes "inv w" and "tok.retired w (trim_space v)"
  shows "\<not> is_ok (fst (RefreshAccessToken E s v m w))"
proof
  assume "is_ok (fst (RefreshAccessToken E s v m w))"
  then obtain resp w' where "RefreshAccessToken E s v m w = (Inr resp, w')"
    by (cases "RefreshAccessToken E s v m w") (auto simp: is_ok_iff)
  then obtain rt where "kept w (trim_space v) = Some rt" "rt_Status rt = ''ACTIVE''" "\<not> gone w (trim_space v)"
    using refresh_ok [OF assms(1)] by metis
  with assms(2) show False by (simp add: tok.retired_def spendable_def)
qed

text \<open>
  A user signed out everywhere: no stored token of theirs can be spent, they have no active
  session; tokens changed by revocation only, and the sessions of others not at all.
\<close>

definition signed_out :: "string \<Rightarrow> 'r world \<Rightarrow> 'r world \<Rightarrow> bool" where
  "signed_out u w w' \<longleftrightarrow> inv w' \<and> users w' = users w
     \<and> (\<forall>t rt. kept w' t = Some rt \<longrightarrow> rt_UserID rt = u \<longrightarrow> tok.retired w' t)
     \<and> ses.no_active u w'
     \<and> (\<forall>t. revoked_from (kept w t) (kept w' t)) \<and> (\<forall>t. t \<notin> fst (indexes w) u \<longrightarrow> kept w' t = kept w t)
     \<and> sessions w' = update_where (\<lambda>x. of_session_user (canon u) x \<and> s_Status x = ''ACTIVE'') revoke (sessions w)"

lemma sign_out:
  assumes inv: "inv w" and r: "rtr_RevokeAllByUser (refreshTokenRepository s) u w = (Inr (), w1)"
    and a: "sr_RevokeAllByUserID (sessionRepository s) u w1 = (Inr (), w2)" and w': "only_audit w2 w'"
  shows "signed_out u w w'"
proof -
  note w1 = tok.all_by_user [OF inv r] tokens_frame(5) [OF r]
  have inv1: "inv w1" using w1 by (simp add: tok.revokes_def)
  have same: "redis_same w1 w'" "users w' = users w1" "sessions w' = sessions w2"
    using sessions_frame(5) [OF a] w' by (auto simp: redis_same_def only_audit_def)
  note q = quiet [OF same(1) inv1]
  have "tok.retired w' t" if "kept w' t = Some rt" "rt_UserID rt = u" for t rt
    using quiet_retired [OF same(1) inv1] tok.all_by_user_owned [OF inv r] that q by auto
  moreover have "ses.no_active u w'"
    using ses.revoke_all_no_active [OF a] same(3) by (simp add: ses.no_active_def)
  moreover have "revoked_from (kept w t) (kept w' t)" for t
    using w1 q by (auto simp: tok.revokes_def)
  moreover have "sessions w' = update_where (\<lambda>x. of_session_user (canon u) x \<and> s_Status x = ''ACTIVE'') revoke (sessions w)"
    using ses.revoke_all_ok [OF a] same(3) w1 by (simp add: only_redis_def)
  ultimately show ?thesis using q w1 same by (auto simp: signed_out_def only_redis_def)
qed

lemma refresh_used_calls:
  assumes inv: "inv w" and lawful and kept: "kept w (trim_space v) = Some rt" and used: "rt_Status rt = ''USED''"
    and call: "refresh_check E s v m w = (Inl ErrRefreshTokenReuseDetected, w')"
  shows "\<exists>w1 w2 w3. rtr_FindByToken (refreshTokenRepository s) (trim_space v) w = (Inr rt, w1)
    \<and> rtr_RevokeAllByUser (refreshTokenRepository s) (rt_UserID rt) w1 = (Inr (), w2)
    \<and> sr_RevokeAllByUserID (sessionRepository s) (rt_UserID rt) w2 = (Inr (), w3)
    \<and> w' = logAuthEvent E s (Some (rt_UserID rt)) ''token_reuse_detected'' m [(''session_id'', rt_SessionID rt)] w3"
proof -
  obtain f w1 where f: "rtr_FindByToken (refreshTokenRepository s) (trim_space v) w = (f, w1)"
    by (cases "rtr_FindByToken (refreshTokenRepository s) (trim_space v) w")
  show ?thesis
  proof (cases f)
    case (Inl e)
    with call f tok.find_errors [OF inv, of "trim_space v" e w1] show ?thesis
      by (auto simp: refresh_check_def Let_def token_error_def split: if_splits)
  next
    case (Inr rt')
    with tok.find_ok [OF inv] f kept have rt': "rt' = rt" by fastforce
    have inv1: "inv w1" using tok.find_frame [OF inv f] by simp
    have rest: "(case rtr_RevokeAllByUser (refreshTokenRepository s) (rt_UserID rt) w1 of
        (Inl e, w) \<Rightarrow> (Inl e, w)
      | (Inr _, w) \<Rightarrow> (case sr_RevokeAllByUserID (sessionRepository s) (rt_UserID rt) w of
          (Inl e, w) \<Rightarrow> (Inl e, w)
        | (Inr _, w) \<Rightarrow> (Inl ErrRefreshTokenReuseDetected,
            logAuthEvent E s (Some (rt_UserID rt)) ''token_reuse_detected'' m [(''session_id'', rt_SessionID rt)] w)))
        = (Inl ErrRefreshTokenReuseDetected :: err + refresh_token \<times> user \<times> string \<times> int, w')"
      using call f Inr rt' used by (simp add: refresh_check_def Let_def split: if_splits)
    have ext: "external e \<Longrightarrow> e \<noteq> ErrRefreshTokenReuseDetected" for e by auto
    from rest show ?thesis
    proof (cases rule: call_cases)
      case (1 e w2)
      with tok.all_by_user [OF inv1 1(1)] show ?thesis by auto
    next
      case (2 x w2)
      from 2(2) show ?thesis
      proof (cases rule: call_cases)
        case (1 e w3)
        with ses.revoke_all_errors [OF \<open>lawful\<close> 1(1)] show ?thesis by auto
      qed (use f Inr rt' 2(1) in auto)
    qed
  qed
qed

text \<open>The reuse of a spent token: nothing the user has is left, or a store reported its own error.\<close>

lemma refresh_reuse:
  assumes inv: "inv w" and lawful and kept: "kept w (trim_space v) = Some rt" and used: "rt_Status rt = ''USED''"
    and call: "RefreshAccessToken E s v m w = (res, w')"
  shows "\<not> is_ok res" and "res = Inl ErrRefreshTokenReuseDetected \<Longrightarrow>
signed_out (rt_UserID rt) w w'"
proof -
  show "\<not> is_ok res"
  proof
    assume "is_ok res"
    then obtain resp where "res = Inr resp" by (auto simp: is_ok_iff)
    with call obtain rt' where "kept w (trim_space v) = Some rt'" "rt_Status rt' = ''ACTIVE''"
      using refresh_ok [OF inv] by metis
    with kept used show False by simp
  qed
  assume res: "res = Inl ErrRefreshTokenReuseDetected"
  show "signed_out (rt_UserID rt) w w'"
  proof -
    have "\<not> (\<exists>found w1. refresh_check E s v m w = (Inr found, w1))"
      using refresh_check_ok(1,2) [OF inv, of v m] kept used by auto
    then have c: "refresh_check E s v m w = (Inl ErrRefreshTokenReuseDetected, w')"
      using call unfolding res RefreshAccessToken_def by (auto elim!: call_cases)
    obtain w1 w2 w3 where f: "rtr_FindByToken (refreshTokenRepository s) (trim_space v) w = (Inr rt, w1)"
      and r: "rtr_RevokeAllByUser (refreshTokenRepository s) (rt_UserID rt) w1 = (Inr (), w2)"
      and a: "sr_RevokeAllByUserID (sessionRepository s) (rt_UserID rt) w2 = (Inr (), w3)"
      and w': "w' = logAuthEvent E s (Some (rt_UserID rt)) ''token_reuse_detected'' m [(''session_id'', rt_SessionID rt)] w3"
      using refresh_used_calls [OF inv \<open>lawful\<close> kept used c] by blast
    have "signed_out (rt_UserID rt) w1 w'"
      using sign_out [OF _ r a] tok.find_frame [OF inv f] audit_frame unfolding w' by blast
    then show ?thesis
      using tok.find_frame [OF inv f] tokens_frame(2) [OF f] by (auto simp: signed_out_def only_redis_def)
  qed
qed

section \<open>Logout and sessions\<close>

lemma logout_all_ok:
  assumes inv: "inv w" and u: "trim_space u \<noteq> ''''" and call: "LogoutAll E s u m w = (Inr r, w')"
  shows "signed_out (trim_space u) w w'"
  using call u sign_out [OF inv _ _ audit_frame]
  by (auto simp: LogoutAll_def Let_def elim!: call_cases)

lemma logout_ok:
  assumes inv: "inv w" and v: "trim_space v \<noteq> ''''" and call: "Logout E s v m w = (Inr r, w')"
  shows "inv w'" and "tok.retired w' (trim_space v)" and "t \<noteq> trim_space v \<Longrightarrow> kept w' t = kept w t"
    and "kept w (trim_space v) = Some rt \<Longrightarrow> rt_SessionID rt \<noteq> '''' \<Longrightarrow>
      gone w' (trim_space v) \<or> ses.revoked (rt_SessionID rt) w'"
proof -
  obtain f w1 where f: "rtr_FindByToken (refreshTokenRepository s) (trim_space v) w = (f, w1)"
    by (cases "rtr_FindByToken (refreshTokenRepository s) (trim_space v) w")
  define rt1 where "rt1 = (case f of Inl e \<Rightarrow> zero_refresh_token | Inr rt \<Rightarrow> rt)"
  obtain g w2 where g: "rtr_RevokeByToken (refreshTokenRepository s) (trim_space v) w1 = (g, w2)"
    by (cases "rtr_RevokeByToken (refreshTokenRepository s) (trim_space v) w1")
  have "(f = Inl ErrRefreshTokenNotFound \<or> f = Inr rt1) \<and> (g = Inl ErrRefreshTokenNotFound \<or> g = Inr ())
    \<and> (\<exists>w3. (if rt_SessionID rt1 \<noteq> '''' then
          sr_UpdateStatus (sessionRepository s) (rt_SessionID rt1) ''REVOKED'' w2 else (Inr (), w2)) = (Inr (), w3)
        \<and> only_audit w3 w')"
    using call v f g audit_frame
    by (cases f; cases g)
      (auto simp: Logout_def Let_def rt1_def elim!: call_cases split: if_splits)
  then obtain w3 where f_nf: "f = Inl ErrRefreshTokenNotFound \<or> f = Inr rt1"
    and g_nf: "g = Inl ErrRefreshTokenNotFound \<or> g = Inr ()"
    and rest: "(if rt_SessionID rt1 \<noteq> '''' then
        sr_UpdateStatus (sessionRepository s) (rt_SessionID rt1) ''REVOKED'' w2 else (Inr (), w2)) = (Inr (), w3)"
    and audit: "only_audit w3 w'" by blast
  have upd: "rtr_UpdateStatus (refreshTokenRepository s) (trim_space v) ''REVOKED'' w1 = (g, w2)"
    using g tok.revoke_by_token by simp
  have w1: "inv w1" "kept w1 = kept w" using tok.find_frame [OF inv f] by auto
  have w2: "inv w2" "tok.retired w2 (trim_space v)" "t \<noteq> trim_space v \<Longrightarrow> kept w2 t = kept w1 t" for t
    using tok.upd_frame [OF w1(1) upd] tok.upd_missing_retired [OF w1(1)] tok.upd_revoked_retired [OF w1(1)]
      tok.upd_missing [OF w1(1), of "trim_space v" _ w2] tok.upd_ok [OF w1(1), of "trim_space v" _ w2] upd g_nf
    by fastforce+
  have same: "redis_same w2 w'" "sessions w' = sessions w3"
    using rest sessions_frame(4) [of "rt_SessionID rt1" "''REVOKED''" w2 "Inr ()" w3] audit
    by (auto simp: redis_same_def only_audit_def split: if_splits)
  note q = quiet [OF same(1) w2(1)]
  show "inv w'" using q by blast
  show "tok.retired w' (trim_space v)" by (rule quiet_retired [OF same(1) w2(1,2)])
  show "t \<noteq> trim_space v \<Longrightarrow> kept w' t = kept w t" using q w2(3) w1(2) by simp
  assume k: "kept w (trim_space v) = Some rt" and i: "rt_SessionID rt \<noteq> ''''"
  show "gone w' (trim_space v) \<or> ses.revoked (rt_SessionID rt) w'"
  proof (cases "f = Inr rt1")
    case True
    with tok.find_ok [OF inv] f k have "rt1 = rt" by fastforce
    with rest i ses.status_revoked have "ses.revoked (rt_SessionID rt) w3" by simp
    with same(2) show ?thesis by (simp add: ses.revoked_def)
  next
    case False
    with f_nf tok.find_missing [OF inv] f k have "gone w1 (trim_space v)" by fastforce
    with tok.upd_gone [OF w1(1) upd] q show ?thesis by blast
  qed
qed

lemma list_ok:
  assumes "ListSessions s u w = (Inr r, w')"
  shows "mset (Sessions r) = mset (filter (of_session_user (canon (trim_space u))) (sessions w))"
    and "sorted (map (\<lambda>x. - s_CreatedAt x) (Sessions r))" and "sessions w' = sessions w" and "redis_same w w'"
  using assms ses.list_ok [of "trim_space u" w] ses.list_frame [of "trim_space u" w] sessions_frame(2)
  by (auto simp: ListSessions_def elim!: call_cases)

lemma foreign_session_kept:
  assumes "\<And>x. x \<in> set (sessions w) \<Longrightarrow> canon (trim_space i) = Some (s_ID x) \<Longrightarrow> s_UserID x \<noteq> trim_space u"
    and "RevokeSession s u i w = (res, w')"
  shows "\<not> is_ok res" and "redis_same w w'" and "sessions w' = sessions w" and "users w' = users w"
proof -
  obtain f w1 where f: "sr_FindByID (sessionRepository s) (trim_space i) w = (f, w1)"
    by (cases "sr_FindByID (sessionRepository s) (trim_space i) w")
  have "w' = w1 \<and> \<not> is_ok res"
    using assms f ses.find_ok [of "trim_space i" w] by (cases f) (auto simp: RevokeSession_def)
  then show "\<not> is_ok res" "redis_same w w'" "sessions w' = sessions w" "users w' = users w"
    using sessions_frame(6) [OF f] ses.find_frame [OF f] by auto
qed

lemma revoke_session_ok:
  assumes inv: "inv w" and lawful and call: "RevokeSession s u i w = (Inr r, w')"
  obtains x where "x \<in> set (sessions w)" and "canon (trim_space i) = Some (s_ID x)" and "s_UserID x = trim_space u"
    and "sessions w' = update_where (has_session_id (Some (s_ID x))) revoke (sessions w)"
    and "inv w'" and "users w' = users w" and "\<And>t. revoked_from (kept w t) (kept w' t)"
    and "\<And>t rt. kept w' t = Some rt \<Longrightarrow> rt_SessionID rt = s_ID x \<Longrightarrow> tok.retired w' t"
    and "\<And>t. t \<notin> snd (indexes w) (s_ID x) \<Longrightarrow> kept w' t = kept w t"
proof -
  obtain x w1 w2 where f: "sr_FindByID (sessionRepository s) (trim_space i) w = (Inr x, w1)"
    and own: "s_UserID x = trim_space u"
    and t: "rtr_RevokeAllBySession (refreshTokenRepository s) (s_ID x) w1 = (Inr (), w2)"
    and st: "sr_UpdateStatus (sessionRepository s) (s_ID x) ''REVOKED'' w2 = (Inr (), w')"
    using call by (auto simp: RevokeSession_def elim!: call_cases split: if_splits)
  note x = ses.find_ok [OF f]
  have same1: "redis_same w w1" "sessions w1 = sessions w" "users w1 = users w"
    using sessions_frame(6) [OF f] ses.find_frame [OF f] by auto
  note q1 = quiet [OF same1(1) inv]
  have inv1: "inv w1" using q1 by blast
  note r = tok.all_by_session [OF inv1 t]
  have inv2: "inv w2" using r by (simp add: tok.revokes_def)
  have same2: "redis_same w2 w'" using sessions_frame(4) [OF st] by blast
  note q2 = quiet [OF same2 inv2]
  have "sessions w' = update_where (has_session_id (Some (s_ID x))) revoke (sessions w)"
    using ses.status_ok [OF st] ses.canon_canon [OF \<open>lawful\<close> conjunct2 [OF x]] tokens_frame(4) [OF t] same1
    by (simp add: only_redis_def revoke_fun)
  moreover have "revoked_from (kept w tk) (kept w' tk)" for tk
    using r q1 q2 by (auto simp: tok.revokes_def)
  moreover have "tok.retired w' tk" if "kept w' tk = Some rt" "rt_SessionID rt = s_ID x" for tk rt
    using quiet_retired [OF same2 inv2] tok.all_by_session_owned [OF inv1 t] that q2 by auto
  moreover have "kept w' tk = kept w tk" if "tk \<notin> snd (indexes w) (s_ID x)" for tk
    using r q1 q2 that by auto
  moreover have "users w' = users w"
    using same1 tokens_frame(4) [OF t] sessions_frame(4) [OF st] by (simp add: only_redis_def)
  ultimately show ?thesis using that x own q2 by blast
qed

section \<open>Login and registration\<close>

lemma login_calls:
  assumes "Login E s email password m w = (Inr resp, w')"
  shows "trim_space email \<noteq> '''' \<and> trim_space password \<noteq> '''' \<and> (\<exists>u w1 x w2 acc n w3 rt w4 w5.
    ur_FindByEmail (userRepository s) (trim_space email) w = (Inr u, w1)
    \<and> bcrypt_compare E (u_HashedPassword u) (trim_space password) = None
    \<and> sr_Create (sessionRepository s) (login_session u m (uuid_gen E (Suc (tick w1))) (cur E w1)) (step (step w1)) = (Inr x, w2)
    \<and> GenerateAccessToken E (tokenService s) (u_ID u) (u_Email u) w2 = (Inr (acc, n), w3)
    \<and> GenerateRefreshToken E (tokenService s) (u_ID u) w3 = (Inr rt, w4)
    \<and> rtr_Create (refreshTokenRepository s) (rt\<lparr>rt_SessionID := uuid_gen E (Suc (tick w1))\<rparr>) w4 = (Inr (), w5)
    \<and> w' = logAuthEvent E s (Some (u_ID u)) ''login_success'' m
        [(''email'', u_Email u), (''session_id'', uuid_gen E (Suc (tick w1)))] w5
    \<and> resp = \<lparr>tr_Message = ''login successful'', tr_AccessToken = acc, tr_RefreshToken = rt_Token rt,
              tr_TokenType = ''Bearer'', tr_ExpiresIn = n\<rparr>)"
  using assms
  by (auto simp: Login_def Let_def time_now_def uuid_new_def elim!: pair_call_cases call_cases
      split: if_splits option.splits)

lemma login_ok:
  assumes inv: "inv w" and call: "Login E s email password m w = (Inr resp, w')"
  obtains u x rt where "u \<in> set (users w)" and "u_Email u = norm (trim_space email)"
    and "bcrypt_compare E (u_HashedPassword u) (trim_space password) = None"
    and "sessions w' = sessions w @ [x]" and "fresh_session (sessions w) x" and "s_Status x = ''ACTIVE''"
    and "canon (u_ID u) = Some (s_UserID x)" and "canon (rt_SessionID rt) = Some (s_ID x)"
    and "inv w'" and "kept w' = (kept w)(tr_RefreshToken resp \<mapsto> rt)" and "users w' = users w"
    and "rt_Token rt = tr_RefreshToken resp" and "rt_Status rt = ''ACTIVE''" and "rt_UserID rt = u_ID u"
proof -
  obtain u w1 x w2 acc n w3 rt w4 w5 where
    f: "ur_FindByEmail (userRepository s) (trim_space email) w = (Inr u, w1)"
    and b: "bcrypt_compare E (u_HashedPassword u) (trim_space password) = None"
    and c: "sr_Create (sessionRepository s) (login_session u m (uuid_gen E (Suc (tick w1))) (cur E w1)) (step (step w1)) = (Inr x, w2)"
    and g: "GenerateAccessToken E (tokenService s) (u_ID u) (u_Email u) w2 = (Inr (acc, n), w3)"
    and h: "GenerateRefreshToken E (tokenService s) (u_ID u) w3 = (Inr rt, w4)"
    and t: "rtr_Create (refreshTokenRepository s) (rt\<lparr>rt_SessionID := uuid_gen E (Suc (tick w1))\<rparr>) w4 = (Inr (), w5)"
    and w': "w' = logAuthEvent E s (Some (u_ID u)) ''login_success'' m
        [(''email'', u_Email u), (''session_id'', uuid_gen E (Suc (tick w1)))] w5"
    and resp: "tr_RefreshToken resp = rt_Token rt"
    using login_calls [OF call] by auto
  let ?rt = "rt\<lparr>rt_SessionID := uuid_gen E (Suc (tick w1))\<rparr>"
  note u = dir.by_email_ok [OF f] and x = ses.create_ok [OF c] and new = GenerateRefreshToken_ok [OF h]
  note gen = later_same [OF GenerateAccessToken_frame [OF g]] later_same [OF GenerateRefreshToken_frame [OF h]]
  note gen_users = later_only_simps(3) [OF GenerateAccessToken_frame [OF g]] later_only_simps(3) [OF GenerateRefreshToken_frame [OF h]]
  have to4: "redis_same w w4" "sessions w4 = sessions w @ [x]" "users w4 = users w" "sessions w1 = sessions w"
    using users_frame(1) [OF f] dir.by_email_frame [OF f] sessions_frame(1) [OF c] gen gen_users x
    by (auto simp: redis_same_def)
  note q4 = quiet [OF to4(1) inv]
  have inv4: "inv w4" using q4 by blast
  have w5: "inv w5" "kept w5 = (kept w)(rt_Token rt \<mapsto> ?rt)"
    using tok.create_inv [OF inv4 t] tok.create_ok [OF inv4 t] q4 by auto
  have same5: "redis_same w5 w'" "sessions w' = sessions w5" "users w' = users w5"
    using audit_frame [of w5] unfolding w' by (auto simp: redis_same_def only_audit_def)
  note q5 = quiet [OF same5(1) w5(1)]
  have "sessions w' = sessions w @ [x]" "users w' = users w"
    using same5 tokens_frame(1) [OF t] to4 by (auto simp: only_redis_def)
  moreover have "fresh_session (sessions w) x" using x to4(4) by simp
  ultimately show ?thesis
    using that [of u x ?rt] u b x new q5 w5 resp by auto
qed

text \<open>
  Where an error of the part of \<open>Login\<close> that issues tokens comes from: outside, or the store
  refused the refresh token just generated (at \<open>w3\<close>, within the login) as one it cannot keep.
\<close>

definition issue_error :: "err \<Rightarrow> 'r world \<Rightarrow> 'r world \<Rightarrow> bool" where
  "issue_error e w w' \<longleftrightarrow> external e
     \<or> e = ErrRefreshTokenNotFound
       \<and> (\<exists>i rt j w3 w4. tick w \<le> tick w3 \<and> inv w4 \<and> GenerateRefreshToken E (tokenService s) i w3 = (Inr rt, w4)
            \<and> rtr_Create (refreshTokenRepository s) (rt\<lparr>rt_SessionID := j\<rparr>) w4 = (Inl ErrRefreshTokenNotFound, w'))"

lemma login_issue_errors:
  assumes inv: "inv w" and lawful and lib: "library_errors E" and same: "redis_same w w1"
    and call: "(case sr_Create (sessionRepository s) x (step (step w1)) of
        (Inl e, w) \<Rightarrow> (Inl e, w)
      | (Inr _, w) \<Rightarrow>
     (case GenerateAccessToken E (tokenService s) i em w of
        (Inl e, w) \<Rightarrow> (Inl e, w)
      | (Inr (accessToken, expiresIn), w) \<Rightarrow>
     (case GenerateRefreshToken E (tokenService s) i w of
        (Inl e, w) \<Rightarrow> (Inl e, w)
      | (Inr refreshToken, w) \<Rightarrow>
     (case rtr_Create (refreshTokenRepository s) (refreshToken\<lparr>rt_SessionID := j\<rparr>) w of
        (Inl e, w) \<Rightarrow> (Inl e, w)
      | (Inr _, w) \<Rightarrow> (Inr (h accessToken expiresIn refreshToken), g w))))) = (Inl e, w')"
  shows "issue_error e w w'"
  using call
proof (cases rule: call_cases)
  case (1 e1 w2)
  with ses.create_errors [OF \<open>lawful\<close> 1(1)] show ?thesis by (simp add: issue_error_def)
next
  case (2 y w2)
  have s2: "redis_same w w2" using sessions_frame(1) [OF 2(1)] same by (simp add: redis_same_def)
  from 2(2) show ?thesis
  proof (cases rule: pair_call_cases)
    case (1 e1 w3)
    with Generate_errors(1) [OF lib 1(1)] show ?thesis by (simp add: issue_error_def)
  next
    case (2 a n w3)
    have s3: "redis_same w w3" using later_same [OF GenerateAccessToken_frame [OF 2(1)]] s2 by (simp add: redis_same_def)
    from 2(2) show ?thesis
    proof (cases rule: call_cases)
      case (1 e1 w4)
      with Generate_errors(2) [OF lib 1(1)] show ?thesis by (simp add: issue_error_def)
    next
      case (2 rt w4)
      have "redis_same w w4" using later_same [OF GenerateRefreshToken_frame [OF 2(1)]] s3 by (simp add: redis_same_def)
      then have inv4: "inv w4" using quiet inv by blast
      from 2(2) have c: "rtr_Create (refreshTokenRepository s) (rt\<lparr>rt_SessionID := j\<rparr>) w4 = (Inl e, w')"
        by (auto elim: call_cases)
      have "tick w \<le> tick w3" using s3 by (simp add: redis_same_def)
      then show ?thesis
        using tok.create_errors [OF inv4 c] c inv4 2(1) unfolding issue_error_def token_error_def by blast
    qed
  qed
qed

text \<open>A refused login changes no session and no token.\<close>

lemma login_refused:
  assumes inv: "inv w" and lawful and lib: "library_errors E"
    and call: "Login E s email password m w = (Inl e, w')"
  shows "issue_error e w w' \<or> redis_same w w' \<and> sessions w' = sessions w \<and> users w' = users w
    \<and> (e = ErrInvalidLoginInput \<or> e = ErrInvalidCredentials)"
proof -
  have log: "redis_same v (logAuthEvent E s uid ev m' extra v) \<and> sessions (logAuthEvent E s uid ev m' extra v) = sessions v
      \<and> users (logAuthEvent E s uid ev m' extra v) = users v" for v uid ev m' extra
    using audit_frame [of v uid ev m' extra] by (auto simp: redis_same_def only_audit_def)
  show ?thesis
  proof (cases "trim_space email = '''' \<or> trim_space password = ''''")
    case True
    with call log show ?thesis by (auto simp: Login_def Let_def)
  next
    case False
    obtain f w1 where f: "ur_FindByEmail (userRepository s) (trim_space email) w = (f, w1)"
      by (cases "ur_FindByEmail (userRepository s) (trim_space email) w")
    have same1: "redis_same w w1" "sessions w1 = sessions w" "users w1 = users w"
      using users_frame(1) [OF f] dir.by_email_frame [OF f] by auto
    have via_log: ?thesis if "w' = logAuthEvent E s uid ev m extra w1" "e = ErrInvalidCredentials" for uid ev extra
      using that log [of w1 uid ev m extra] same1 by (simp add: redis_same_def)
    show ?thesis
    proof (cases f)
      case (Inl e1)
      with False call f have "e1 = ErrNoRows \<and> e = ErrInvalidCredentials
          \<and> (\<exists>uid ev extra. w' = logAuthEvent E s uid ev m extra w1) \<or> e1 \<noteq> ErrNoRows \<and> e = e1"
        by (auto simp: Login_def Let_def split: if_splits)
      moreover have "e1 = ErrNoRows \<or> external e1" using dir.by_email_errors [OF \<open>lawful\<close>] f Inl by blast
      ultimately show ?thesis using via_log by (auto simp: issue_error_def)
    next
      case (Inr u)
      show ?thesis
      proof (cases "bcrypt_compare E (u_HashedPassword u) (trim_space password)")
        case None
        with False call [unfolded Login_def Let_def time_now_def uuid_new_def] f Inr have "issue_error e w w'"
          by simp (erule login_issue_errors [OF inv \<open>lawful\<close> lib same1(1)])
        then show ?thesis by (rule disjI1)
      next
        case (Some e2)
        with False call f Inr via_log show ?thesis by (auto simp: Login_def Let_def)
      qed
    qed
  qed
qed

lemma register_ok:
  assumes call: "Register E s email password m w = (Inr r, w')"
  obtains u n where "users w' = users w @ [u]" and "fresh_user (users w) u"
    and "u_Email u = norm (to_lower (unicode_tables E) (trim_space email))"
    and "bcrypt_generate E n (trim_space password) = Inr (u_HashedPassword u)"
    and "rr_UserID r = u_ID u" and "rr_Email r = u_Email u" and "redis_same w w'" and "sessions w' = sessions w"
    and "trim_space email \<noteq> ''''" and "trim_space password \<noteq> ''''"
proof -
  obtain h w1 u w2 where h: "bcrypt_hash E (trim_space password) w = (Inr h, w1)"
    and c: "ur_CreateUser (userRepository s) (new_user E (trim_space email) h (uuid_gen E (Suc (tick w1))) (cur E w1))
        (step (step w1)) = (Inr u, w2)"
    and r: "rr_UserID r = u_ID u" "rr_Email r = u_Email u"
    and w': "w' = logAuthEvent E s (Some (u_ID u)) ''register_success'' m [(''email'', u_Email u)] w2"
    and ne: "trim_space email \<noteq> ''''" "trim_space password \<noteq> ''''"
    using call by (auto simp: Register_def Let_def time_now_def uuid_new_def elim!: call_cases split: if_splits)
  have w1: "w1 = step w" "bcrypt_generate E (tick w) (trim_space password) = Inr h"
    using h by (auto simp: bcrypt_hash_def)
  note u = dir.create_ok [OF c]
  have "only_audit w2 w'" unfolding w' by (rule audit_frame)
  then have "redis_same w w'" "sessions w' = sessions w" "users w' = users w @ [u]"
    using users_frame(3) [OF c] w1 u by (auto simp: redis_same_def only_audit_def)
  with that [of u "tick w"] u w1 r ne show ?thesis by (simp add: new_user_def)
qed

text \<open>When a registration is refused as a duplicate: the address, or an identifier, is taken.\<close>

lemma register_duplicate:
  assumes lawful and lib: "library_errors E" and call: "Register E s email password m w = (Inl ErrEmailAlreadyExists, w')"
  shows "\<exists>v \<in> set (users w). u_Email v = norm (to_lower (unicode_tables E) (trim_space email))
    \<or> (\<exists>n. canon (uuid_gen E n) = Some (u_ID v))"
proof -
  obtain h w1 where h: "bcrypt_hash E (trim_space password) w = (h, w1)" by (cases "bcrypt_hash E (trim_space password) w")
  have w1: "w1 = step w" using h by (auto simp: bcrypt_hash_def)
  have "h \<noteq> Inl ErrEmailAlreadyExists"
  proof
    assume "h = Inl ErrEmailAlreadyExists"
    with h have "bcrypt_generate E (tick w) (trim_space password) = Inl ErrEmailAlreadyExists"
      by (simp add: bcrypt_hash_def)
    then have "external ErrEmailAlreadyExists" using lib unfolding library_errors_def by blast
    then show False by simp
  qed
  then obtain h' where h': "h = Inr h'"
    using call h by (cases h) (auto simp: Register_def Let_def split: if_splits)
  obtain c w2 where c: "ur_CreateUser (userRepository s)
      (new_user E (trim_space email) h' (uuid_gen E (Suc (tick w1))) (cur E w1)) (step (step w1)) = (c, w2)"
    and dup: "c = Inl ErrDuplicateEmail \<or> c = Inl ErrEmailAlreadyExists"
    using call h h' by (auto simp: Register_def Let_def time_now_def uuid_new_def elim!: call_cases split: if_splits)
  with dir.create_errors [OF \<open>lawful\<close>] w1 show ?thesis
    by (fastforce simp: new_user_def)
qed

section \<open>Issuing and spending\<close>

lemma advances_issue:
  assumes g: "GenerateRefreshToken E (tokenService s) j w = (Inr rt, w')"
    and c: "rtr_Create (refreshTokenRepository s) (rt\<lparr>rt_SessionID := k\<rparr>) w' = (res, w'')"
  shows "advances t i w w''"
proof -
  note same = later_same [OF GenerateRefreshToken_frame [OF g]] and new = GenerateRefreshToken_ok [OF g]
  have "inv w''" if "inv w" using tok.create_inv [OF _ c] quiet same that by blast
  moreover have "tok.retired w'' t" if inv: "inv w" and n: "never_drawn E (tick w) t" and r: "tok.retired w t"
  proof -
    have "tok.retired w' t" by (rule quiet_retired [OF conjunct1 [OF same] inv r])
    moreover have "inv w'" using quiet [OF conjunct1 [OF same] inv] by (rule conjunct1)
    moreover obtain bytes where "rand_gen E (tick w) = Inr bytes" "rt_Token rt = raw_url_encode bytes"
      using new by auto
    with n have "t \<noteq> rt_Token rt" by (auto simp: never_drawn_def)
    ultimately show ?thesis using tok.create_retired [OF _ c] by simp
  qed
  moreover have "ses.dead i w \<Longrightarrow> ses.dead i w''"
    using ses.dead_same_rows [of i w w''] same tokens_frame(1) [OF c] by (simp add: only_redis_def)
  ultimately show ?thesis
    using same tokens_frame(1) [OF c] by (auto simp: advances_def redis_same_def only_redis_def)
qed

lemma advances_spend:
  assumes c: "refresh_check E s tk m w = (Inr (rt, found), w')" and a: "advances t i w w'"
    and u: "rtr_UpdateStatus (refreshTokenRepository s) (rt_Token rt) ''USED'' w' = (res, w'')"
  shows "advances t i w w''"
proof -
  obtain v acc n where found: "found = (v, acc, n)" by (cases found)
  have only: "only_redis w' w''" by (rule tokens_frame(3) [OF u])
  have "inv w''" if "inv w" using tok.upd_frame [OF _ u] a that by (auto simp: advances_def)
  moreover have "tok.retired w'' t" if inv: "inv w" and n: "never_drawn E (tick w) t" and r: "tok.retired w t"
  proof -
    note ok = refresh_check_ok [OF inv c [unfolded found]]
    have r': "tok.retired w' t" and inv': "inv w'" using a inv n r by (auto simp: advances_def)
    have kept: "kept w' (rt_Token rt) = Some rt" using ok(1,3,7) by simp
    have "kept w'' = kept w' \<or> kept w'' = (kept w')(rt_Token rt \<mapsto> set_status ''USED'' rt)"
      using tok.upd_ok [OF inv', of "rt_Token rt" "''USED''" w''] tok.upd_err [OF inv', of "rt_Token rt" "''USED''" _ w''] u kept
      by (cases res) auto
    moreover have "gone w' t \<or> t \<noteq> rt_Token rt"
      using r' kept ok(2) by (auto simp: tok.retired_def spendable_def)
    ultimately show ?thesis using r' tok.upd_gone [OF inv' u] by (auto simp: tok.retired_def)
  qed
  moreover have "ses.dead i w \<Longrightarrow> ses.dead i w''"
    using a ses.dead_same_rows [of i w' w''] only by (simp add: advances_def only_redis_def)
  ultimately show ?thesis
    using a only by (auto simp: advances_def only_redis_def)
qed

end

text \<open>With the frames of its calls, \<open>advances\<close> is a relation every operation keeps.\<close>

sublocale auth_stores < lasting: steady E s "advances t i" for t i
proof unfold_locales
  fix w w' w'' :: "'r world"
  show "advances t i w w" by (simp add: advances_def)
  show "advances t i w w' \<Longrightarrow> advances t i w' w'' \<Longrightarrow> advances t i w w''" by (rule advances_trans)
  show "later_only w w' \<Longrightarrow> advances t i w w'" by (rule advances_same_rows) (rule later_same)
  show "advances t i w (logAuthEvent E s uid ev m extra w)" for uid ev m extra
    by (rule advances_same_rows) (rule audit_same, rule audit_frame)
next
  fix email w w' and ures :: "err + user"
  show "ur_FindByEmail (userRepository s) email w = (ures, w') \<Longrightarrow> advances t i w w'"
    by (rule advances_same_rows) (rule users_frame(1))
  show "ur_FindByID (userRepository s) email w = (ures, w') \<Longrightarrow> advances t i w w'"
    by (rule advances_same_rows) (rule users_frame(2))
  show "ur_CreateUser (userRepository s) u w = (ures, w') \<Longrightarrow> advances t i w w'" for u
    by (rule advances_same_rows) (rule users_frame(3))
next
  fix j tm w w' x and res :: "err + unit" and sres :: "err + session" and lres :: "err + session list"
  show "sr_Create (sessionRepository s) x w = (sres, w') \<Longrightarrow> advances t i w w'"
    using sessions_frame(1) ses.dead_create by (blast intro: advances_quiet)
  show "sr_ListByUserID (sessionRepository s) j w = (lres, w') \<Longrightarrow> advances t i w w'"
    using sessions_frame(2) ses.list_frame by (blast intro: advances_same_rows)
  show "sr_UpdateLastUsedAt (sessionRepository s) j (Some tm) w = (res, w') \<Longrightarrow> advances t i w w'"
    using sessions_frame(3) ses.dead_touch by (blast intro: advances_quiet)
  show "sr_UpdateStatus (sessionRepository s) j ''REVOKED'' w = (res, w') \<Longrightarrow> advances t i w w'"
    using sessions_frame(4) ses.dead_status by (blast intro: advances_quiet)
  show "sr_RevokeAllByUserID (sessionRepository s) j w = (res, w') \<Longrightarrow> advances t i w w'"
    using sessions_frame(5) ses.dead_revoke_all by (blast intro: advances_quiet)
  show "sr_FindByID (sessionRepository s) j w = (sres, w') \<Longrightarrow> advances t i w w'"
    using sessions_frame(6) ses.find_frame by (blast intro: advances_same_rows)
next
  fix tk j w w' and tres :: "err + refresh_token" and res :: "err + unit"
  show "rtr_FindByToken (refreshTokenRepository s) tk w = (tres, w') \<Longrightarrow> advances t i w w'"
    using tokens_frame(2) tok.find_revokes by (blast intro: advances_revoke)
  show "rtr_RevokeByToken (refreshTokenRepository s) tk w = (res, w') \<Longrightarrow> advances t i w w'"
    unfolding tok.revoke_by_token using tokens_frame(3) tok.upd_revokes by (blast intro: advances_revoke)
  show "rtr_RevokeAllBySession (refreshTokenRepository s) j w = (res, w') \<Longrightarrow> advances t i w w'"
    using tokens_frame(4) tok.all_by_session by (blast intro: advances_revoke)
  show "rtr_RevokeAllByUser (refreshTokenRepository s) j w = (res, w') \<Longrightarrow> advances t i w w'"
    using tokens_frame(5) tok.all_by_user by (blast intro: advances_revoke)
next
  fix j rt w w' k w'' and res :: "err + unit"
  assume g: "GenerateRefreshToken E (tokenService s) j w = (Inr rt, w')"
    and c: "rtr_Create (refreshTokenRepository s) (rt\<lparr>rt_SessionID := k\<rparr>) w' = (res, w'')"
  show "advances t i w w''" by (rule advances_issue [OF g c])
next
  fix tk m rt found w w' w'' and res :: "err + unit"
  assume c: "refresh_check E s tk m w = (Inr (rt, found), w')" and "advances t i w w'"
    and u: "rtr_UpdateStatus (refreshTokenRepository s) (rt_Token rt) ''USED'' w' = (res, w'')"
  then show "advances t i w w''" by (rule advances_spend)
qed

section \<open>The service of \<open>main\<close>\<close>

lemma auth_wiring_simps [simp]:
  "userRepository (auth_wiring E ts) = PostgresUserRepository E"
  "sessionRepository (auth_wiring E ts) = PostgresSessionRepository E"
  "refreshTokenRepository (auth_wiring E ts) = RedisRefreshTokenRepository E"
  "tokenService (auth_wiring E ts) = ts"
  "auditService (auth_wiring E ts) = Some (PostgresAuditLogRepository E)"
  by (simp_all add: auth_wiring_def NewAuthService_def)

lemma redis_same_space: "redis_same w w' \<Longrightarrow> kspace E w' = kspace E w \<and> tick w \<le> tick w'"
  by (simp add: redis_same_def kspace_def)

lemma only_sessions_same: "only_sessions w w' \<Longrightarrow> redis_same w w' \<and> users w' = users w"
  by (simp add: only_sessions_def redis_same_def)

lemma redis_same_step [simp]: "redis_same w (step w)"
  by (simp add: redis_same_def)

lemma token_view_quiet:
  assumes "redis_same w w'" and inv: "token_inv E w"
  shows "token_inv E w' \<and> kept_tokens E w' = kept_tokens E w \<and> token_indexes E w' = token_indexes E w
    \<and> (\<forall>t. token_gone E w t \<longrightarrow> token_gone E w' t)"
proof -
  from redis_same_space [OF assms(1)] have s: "kspace E w' = kspace E w" "tick w \<le> tick w'" by auto
  show ?thesis
    using token_inv_same_space [OF inv s(1)] kept_same_space [OF s(1)] indexes_same_space [OF s(1)]
      gone_frame [OF inv s(2)] s(1) by simp
qed

interpretation auth_main: auth_stores E "auth_wiring E ts" "normal_email E" "canon_uuid E" "pg_laws E"
  "kept_tokens E" "token_gone E" "token_indexes E" "token_inv E" for E ts
proof (intro auth_stores.intro auth_stores_axioms.intro, unfold auth_wiring_simps)
  show "user_directory (PostgresUserRepository E) users (normal_email E) (canon_uuid E) (pg_laws E)"
    by (rule pg_users.user_directory_axioms)
  show "session_store (PostgresSessionRepository E) sessions (canon_uuid E) (pg_laws E)"
    by (rule pg_sessions.session_store_axioms)
  show "token_store (RedisRefreshTokenRepository E) (kept_tokens E) (token_gone E) (token_indexes E) (token_inv E)"
    by (rule redis_tokens.token_store_axioms)
next
  fix w w'
  show "redis_same w w' \<Longrightarrow> token_inv E w \<Longrightarrow> token_inv E w' \<and> kept_tokens E w' = kept_tokens E w
      \<and> token_indexes E w' = token_indexes E w \<and> (\<forall>t. token_gone E w t \<longrightarrow> token_gone E w' t)"
    by (rule token_view_quiet)
next
  fix email w w' u and ures :: "err + user"
  show "ur_FindByEmail (PostgresUserRepository E) email w = (ures, w') \<Longrightarrow> redis_same w w' \<and> sessions w' = sessions w"
    and "ur_FindByID (PostgresUserRepository E) email w = (ures, w') \<Longrightarrow> redis_same w w' \<and> sessions w' = sessions w"
    and "ur_CreateUser (PostgresUserRepository E) u w = (ures, w') \<Longrightarrow> redis_same w w' \<and> sessions w' = sessions w"
    by (auto simp: PostgresUserRepository_def redis_same_def dest!: pg_FindByEmail_frame pg_FindUserByID_frame pg_CreateUser_frame)
next
  fix j tm st w w' x and res :: "err + unit" and sres :: "err + session" and lres :: "err + session list"
  show "sr_Create (PostgresSessionRepository E) x w = (sres, w') \<Longrightarrow> redis_same w w' \<and> users w' = users w"
    and "sr_ListByUserID (PostgresSessionRepository E) j w = (lres, w') \<Longrightarrow> redis_same w w' \<and> users w' = users w"
    and "sr_UpdateLastUsedAt (PostgresSessionRepository E) j tm w = (res, w') \<Longrightarrow> redis_same w w' \<and> users w' = users w"
    and "sr_UpdateStatus (PostgresSessionRepository E) j st w = (res, w') \<Longrightarrow> redis_same w w' \<and> users w' = users w"
    and "sr_RevokeAllByUserID (PostgresSessionRepository E) j w = (res, w') \<Longrightarrow> redis_same w w' \<and> users w' = users w"
    and "sr_FindByID (PostgresSessionRepository E) j w = (sres, w') \<Longrightarrow> redis_same w w' \<and> users w' = users w"
    by (auto simp: PostgresSessionRepository_def
        dest!: pg_sessions_frame pg_FindSessionByID_frame pg_ListByUserID_frame dest: only_sessions_same)
next
  fix rt tk st j w w' and tres :: "err + refresh_token" and res :: "err + unit"
  show "rtr_Create (RedisRefreshTokenRepository E) rt w = (res, w') \<Longrightarrow> only_redis w w'"
    and "rtr_FindByToken (RedisRefreshTokenRepository E) tk w = (tres, w') \<Longrightarrow> only_redis w w'"
    and "rtr_UpdateStatus (RedisRefreshTokenRepository E) tk st w = (res, w') \<Longrightarrow> only_redis w w'"
    and "rtr_RevokeAllBySession (RedisRefreshTokenRepository E) j w = (res, w') \<Longrightarrow> only_redis w w'"
    and "rtr_RevokeAllByUser (RedisRefreshTokenRepository E) j w = (res, w') \<Longrightarrow> only_redis w w'"
    by (auto intro: redis_tokens_frame simp: rt_repo_defs rt_all_only_redis rt_Find_only_redis rt_Update_only_redis rt_Create_only_redis)
next
  fix uid ev m extra w
  show "only_audit w (logAuthEvent E (auth_wiring E ts) uid ev m extra w)"
    by (simp add: logAuthEvent_def pg_audit.log_only_audit)
qed

end
