(* ===== verification/Auth_Invariants.thy ===== *)
theory Auth_Invariants
  imports Auth_Contract
begin

text \<open>
  Two more relations every operation of \<open>AuthService\<close> keeps, on the repositories of \<open>main\<close>:
  the tables \<open>users\<close> and \<open>audit_logs\<close> only grow at their end, and the invariants of the
  database and of the token store hold throughout.
\<close>

section \<open>History is kept\<close>

definition history :: "'r world \<Rightarrow> 'r world \<Rightarrow> bool" where
  "history w w' \<longleftrightarrow> tick w \<le> tick w' \<and> access_log w' = access_log w
     \<and> prefix (users w) (users w') \<and> prefix (audit_logs w) (audit_logs w')"

lemma history_only:
  "only_audit w w' \<Longrightarrow> history w w'" "only_redis w w' \<Longrightarrow> history w w'" "only_sessions w w' \<Longrightarrow> history w w'"
  "later_only w w' \<Longrightarrow> history w w'"
  by (auto simp: history_def only_audit_def only_redis_def only_sessions_def later_only_def)

lemma history_step [simp]: "history w (step w)"
  by (simp add: history_def)

lemma history_create: "pg_CreateUser E u w = (res, w') \<Longrightarrow> history w w'"
proof -
  assume call: "pg_CreateUser E u w = (res, w')"
  then have "prefix (users w) (users w')"
    by (auto dest!: pg_CreateUser_exec elim!: pg_exec_cases dest!: insert_user_cases)
  with pg_CreateUser_frame [OF call] show ?thesis by (simp add: history_def)
qed

interpretation auth_history: steady E "auth_wiring E ts" history for E ts
proof (unfold_locales, unfold auth_wiring_simps)
  fix w w' w'' :: "'a world"
  show "history w w" by (simp add: history_def)
  show "history w w' \<Longrightarrow> history w' w'' \<Longrightarrow> history w w''"
    using prefix_order.trans by (fastforce simp: history_def)
  show "later_only w w' \<Longrightarrow> history w w'" by (rule history_only)
  show "history w (logAuthEvent E (auth_wiring E ts) uid ev m extra w)" for uid ev m extra
    by (rule history_only(1)) (rule auth_main.audit_frame)
next
  fix i w w' u and ures :: "err + user"
  show "ur_FindByEmail (PostgresUserRepository E) i w = (ures, w') \<Longrightarrow> history w w'"
    and "ur_FindByID (PostgresUserRepository E) i w = (ures, w') \<Longrightarrow> history w w'"
    and "ur_CreateUser (PostgresUserRepository E) u w = (ures, w') \<Longrightarrow> history w w'"
    by (auto simp: PostgresUserRepository_def dest: pg_FindByEmail_frame pg_FindUserByID_frame history_create)
next
  fix j t w w' x and res :: "err + unit" and sres :: "err + session" and lres :: "err + session list"
  show "sr_Create (PostgresSessionRepository E) x w = (sres, w') \<Longrightarrow> history w w'"
    and "sr_ListByUserID (PostgresSessionRepository E) j w = (lres, w') \<Longrightarrow> history w w'"
    and "sr_UpdateLastUsedAt (PostgresSessionRepository E) j (Some t) w = (res, w') \<Longrightarrow> history w w'"
    and "sr_UpdateStatus (PostgresSessionRepository E) j ''REVOKED'' w = (res, w') \<Longrightarrow> history w w'"
    and "sr_RevokeAllByUserID (PostgresSessionRepository E) j w = (res, w') \<Longrightarrow> history w w'"
    and "sr_FindByID (PostgresSessionRepository E) j w = (sres, w') \<Longrightarrow> history w w'"
    by (auto simp: PostgresSessionRepository_def dest: pg_FindSessionByID_frame pg_ListByUserID_frame
        intro: history_only(3) pg_sessions_frame)
next
  fix tk j w w' and tres :: "err + refresh_token" and res :: "err + unit"
  show "rtr_FindByToken (RedisRefreshTokenRepository E) tk w = (tres, w') \<Longrightarrow> history w w'"
    and "rtr_RevokeByToken (RedisRefreshTokenRepository E) tk w = (res, w') \<Longrightarrow> history w w'"
    and "rtr_RevokeAllBySession (RedisRefreshTokenRepository E) j w = (res, w') \<Longrightarrow> history w w'"
    and "rtr_RevokeAllByUser (RedisRefreshTokenRepository E) j w = (res, w') \<Longrightarrow> history w w'"
    by (auto simp: rt_repo_defs
        intro!: history_only(2) intro: rt_Find_only_redis rt_Update_only_redis rt_all_only_redis)
next
  fix i w rt w' j w'' and res :: "err + unit"
  assume g: "GenerateRefreshToken E ts i w = (Inr rt, w')"
    and c: "rtr_Create (RedisRefreshTokenRepository E) (rt\<lparr>rt_SessionID := j\<rparr>) w' = (res, w'')"
  show "history w w''"
    using redis_tokens_frame(1) [OF c] later_only_simps [OF GenerateRefreshToken_frame [OF g]]
    by (simp add: history_def only_redis_def)
next
  fix rt w w' w'' and res :: "err + unit"
  assume "history w w'" and "rtr_UpdateStatus (RedisRefreshTokenRepository E) (rt_Token rt) ''USED'' w' = (res, w'')"
  then show "history w w''"
    by (auto simp: rt_repo_defs history_def only_redis_def dest!: rt_Update_only_redis)
qed

section \<open>The invariants of the stores\<close>

text \<open>
  The database: identifiers and addresses unique, addresses in normal form, the identifiers
  of sessions canonical, sessions in one of their two states, and sessions and audit entries
  only of registered users.
\<close>

definition sql_ok :: "'r env \<Rightarrow> 'r world \<Rightarrow> bool" where
  "sql_ok E w \<longleftrightarrow> pg_laws E \<and> pg_users.well_formed E w
     \<and> distinct (map s_ID (sessions w))
     \<and> (\<forall>x \<in> set (sessions w). pg_uuid E (s_ID x) = Inr (s_ID x) \<and> pg_uuid E (s_UserID x) = Inr (s_UserID x)
          \<and> s_UserID x \<in> u_ID ` set (users w) \<and> s_Status x \<in> {''ACTIVE'', ''REVOKED''})
     \<and> distinct (map al_ID (audit_logs w))
     \<and> (\<forall>l \<in> set (audit_logs w). \<forall>u. al_UserID l = Some u \<longrightarrow> u \<in> u_ID ` set (users w))"

text \<open>The token store: its keyspace is in order, and a stored token has one of its three states.\<close>

definition known_status :: "refresh_token \<Rightarrow> bool" where
  "known_status rt \<longleftrightarrow> rt_Status rt \<in> {''ACTIVE'', ''USED'', ''REVOKED''}"

definition tokens_ok :: "'r env \<Rightarrow> 'r world \<Rightarrow> bool" where
  "tokens_ok E w \<longleftrightarrow> token_inv E w
     \<and> (\<forall>t. pred_option known_status (kept_tokens E w t))"

definition stores_kept :: "'r env \<Rightarrow> 'r world \<Rightarrow> 'r world \<Rightarrow> bool" where
  "stores_kept E w w' \<longleftrightarrow> (sql_ok E w \<longrightarrow> sql_ok E w') \<and> (tokens_ok E w \<longrightarrow> tokens_ok E w')"

lemma sql_same: "sql_ok E w \<Longrightarrow> users w' = users w \<Longrightarrow> sessions w' = sessions w \<Longrightarrow> audit_logs w' = audit_logs w \<Longrightarrow> sql_ok E w'"
  by (simp add: sql_ok_def pg_users.well_formed_def)

lemma tokens_same: "tokens_ok E w \<Longrightarrow> redis_same w w' \<Longrightarrow> tokens_ok E w'"
  using token_view_quiet [of w w' E] by (auto simp: tokens_ok_def)

lemma sql_sessions:
  assumes "sql_ok E w" and "only_sessions w w'" and "map s_ID (sessions w') = map s_ID (sessions w)"
    and "\<And>x. x \<in> set (sessions w') \<Longrightarrow>
      \<exists>y \<in> set (sessions w). s_ID x = s_ID y \<and> s_UserID x = s_UserID y \<and> s_Status x \<in> {s_Status y, ''REVOKED''}"
  shows "sql_ok E w'"
  using assms(1,2,3) assms(4) unfolding sql_ok_def only_sessions_def pg_users.well_formed_def
  by (fastforce simp del: map_eq_conv)

lemma kept_by_sql:
  assumes "redis_same w w'" and "sql_ok E w \<Longrightarrow> sql_ok E w'"
  shows "stores_kept E w w'"
  using assms tokens_same by (auto simp: stores_kept_def)

lemma kept_by_step [simp]: "stores_kept E w (step w)"
  by (rule kept_by_sql) (auto intro: sql_same)

lemma kept_by_redis:
  assumes "only_redis w w'" and "tokens_ok E w \<Longrightarrow> tokens_ok E w'"
  shows "stores_kept E w w'"
  using assms sql_same [of E w w'] by (auto simp: stores_kept_def only_redis_def)

lemma revokes_tokens_ok:
  assumes ok: "tokens_ok E w" and r: "redis_cells.revokes E w w'"
  shows "tokens_ok E w'"
proof -
  have "pred_option known_status (kept_tokens E w' t)" for t
  proof -
    have "kept_tokens E w' t = kept_tokens E w t
        \<or> kept_tokens E w' t = map_option (set_status ''REVOKED'') (kept_tokens E w t)"
      using r by (simp add: redis_cells.revokes_def revoked_from_def)
    moreover have "pred_option known_status (kept_tokens E w t)" using ok by (simp add: tokens_ok_def)
    ultimately show ?thesis
      by (cases "kept_tokens E w t") (auto simp: known_status_def)
  qed
  moreover have "token_inv E w'" using r by (simp add: redis_cells.revokes_def)
  ultimately show ?thesis by (simp add: tokens_ok_def)
qed

lemma put_tokens_ok:
  assumes "tokens_ok E w" and "token_inv E w'" and "known_status rt"
    and "kept_tokens E w' = kept_tokens E w \<or> kept_tokens E w' = (kept_tokens E w)(t \<mapsto> rt)"
  shows "tokens_ok E w'"
  using assms by (elim disjE) (simp_all add: tokens_ok_def)

subsection \<open>The statements\<close>

lemma sql_create_user: "sql_ok E w \<Longrightarrow> pg_CreateUser E u w = (res, w') \<Longrightarrow> sql_ok E w'"
proof -
  assume ok: "sql_ok E w" and call: "pg_CreateUser E u w = (res, w')"
  have "pg_users.well_formed E w'"
    using pg_users.create_well_formed [of E w u res w'] ok call by (simp add: sql_ok_def PostgresUserRepository_def)
  moreover have "u_ID ` set (users w) \<subseteq> u_ID ` set (users w')"
    using history_create [OF call] by (auto simp: history_def dest: set_mono_prefix)
  ultimately show ?thesis
    using ok pg_CreateUser_frame [OF call] by (fastforce simp: sql_ok_def)
qed

lemma fresh_session_iff: "fresh_session ss x \<longleftrightarrow> s_ID x \<notin> s_ID ` set ss"
  by (auto simp: fresh_session_def list_all_iff image_iff)

lemma has_id_iff: "list_ex (\<lambda>v. f v = i) xs \<longleftrightarrow> i \<in> f ` set xs"
  by (auto simp: list_ex_iff image_iff)

lemma sql_create_session: "sql_ok E w \<Longrightarrow> s_Status x = ''ACTIVE'' \<Longrightarrow> pg_CreateSession E x w = (res, w') \<Longrightarrow> sql_ok E w'"
proof -
  assume ok: "sql_ok E w" and x: "s_Status x = ''ACTIVE''" and call: "pg_CreateSession E x w = (res, w')"
  moreover have "pg_uuid E i = Inr j \<Longrightarrow> pg_uuid E j = Inr j" for i j
    using ok unfolding sql_ok_def pg_laws_def by blast
  ultimately show "sql_ok E w'"
    unfolding pg_CreateSession_def
    by (auto elim!: pg_exec_cases intro: sql_same dest!: pg_insert_session_cases
        simp: sql_ok_def pg_users.well_formed_def fresh_session_iff has_id_iff)
qed

lemma sql_update_sessions:
  assumes ok: "sql_ok E w" and only: "only_sessions w w'"
    and upd: "sessions w' = sessions w \<or> sessions w' = update_where P f (sessions w)"
    and f: "\<And>x. s_ID (f x) = s_ID x \<and> s_UserID (f x) = s_UserID x \<and> s_Status (f x) \<in> {s_Status x, ''REVOKED''}"
  shows "sql_ok E w'"
proof (rule sql_sessions [OF ok only])
  show "map s_ID (sessions w') = map s_ID (sessions w)" using upd f by (auto simp: map_update_where)
  show "\<exists>y \<in> set (sessions w). s_ID x = s_ID y \<and> s_UserID x = s_UserID y \<and> s_Status x \<in> {s_Status y, ''REVOKED''}"
    if "x \<in> set (sessions w')" for x
    using upd that f by (fastforce simp: in_update_where)
qed

lemma audit_insert_ok:
  assumes "insert_audit_log E l w = Inr (x, w')" and "sql_ok E w"
  shows "sql_ok E w'"
  using assms
  by (auto simp: insert_audit_log_def sql_ok_def pg_users.well_formed_def has_id_iff map_sum_def
      split: sum.splits option.splits if_splits)

lemma sql_audit: "sql_ok E w \<Longrightarrow> sql_ok E (logAuthEvent E (auth_wiring E ts) uid ev m extra w)"
proof -
  assume ok: "sql_ok E w"
  have "sql_ok E (snd (pg_CreateAuditLog E l (step (step w))))" for l
  proof (cases "pg_CreateAuditLog E l (step (step w))")
    case (Pair res w')
    have "sql_ok E (step (step w))" using ok by (auto intro: sql_same)
    with Pair audit_insert_ok [of E l "step (step w)"] show ?thesis
      unfolding pg_CreateAuditLog_def by (auto elim!: pg_exec_cases intro: sql_same)
  qed
  then show ?thesis
    by (simp add: logAuthEvent_def LogAuthEvent_def uuid_new_def time_now_def PostgresAuditLogRepository_def)
qed

subsection \<open>Every operation\<close>

lemma revoke_fields: "s_ID (revoke x) = s_ID x \<and> s_UserID (revoke x) = s_UserID x \<and> s_Status (revoke x) = ''REVOKED''"
  by (simp add: revoke_def)

lemma kept_by_sessions:
  assumes only: "only_sessions w w'" and upd: "sessions w' = sessions w \<or> sessions w' = update_where P f (sessions w)"
    and f: "\<And>x. s_ID (f x) = s_ID x \<and> s_UserID (f x) = s_UserID x \<and> s_Status (f x) \<in> {s_Status x, ''REVOKED''}"
  shows "stores_kept E w w'"
  using only_sessions_same [OF only] sql_update_sessions [OF _ only upd f] by (intro kept_by_sql) auto

lemma kept_by_revocation:
  assumes "only_redis w w'" and "token_inv E w \<Longrightarrow> redis_cells.revokes E w w'"
  shows "stores_kept E w w'"
  using assms revokes_tokens_ok by (intro kept_by_redis) (auto simp: tokens_ok_def)

lemma kept_by_issue:
  assumes g: "GenerateRefreshToken E ts i w = (Inr rt, w')"
    and c: "rtr_Create (RedisRefreshTokenRepository E) (rt\<lparr>rt_SessionID := j\<rparr>) w' = (res, w'')"
  shows "stores_kept E w w''"
proof -
  have same: "redis_same w w'" "sessions w' = sessions w" "users w' = users w" "audit_logs w' = audit_logs w"
    using later_only_simps [OF GenerateRefreshToken_frame [OF g]] by (auto simp: redis_same_def)
  have "stores_kept E w' w''"
  proof (rule kept_by_redis [OF redis_tokens_frame(1) [OF c]])
    assume ok: "tokens_ok E w'"
    then have inv: "token_inv E w'" by (simp add: tokens_ok_def)
    have "known_status (rt\<lparr>rt_SessionID := j\<rparr>)" using GenerateRefreshToken_ok [OF g] by (simp add: known_status_def)
    then show "tokens_ok E w''"
      by (rule put_tokens_ok [OF ok redis_tokens.create_inv [OF inv c] _ redis_tokens.create_kept [OF inv c]])
  qed
  moreover have "stores_kept E w w'" using same by (intro kept_by_sql) (auto intro: sql_same)
  ultimately show ?thesis by (auto simp: stores_kept_def)
qed

lemma kept_by_spending:
  assumes u: "rt_UpdateStatus E t ''USED'' w' = (res, w'')"
  shows "stores_kept E w' w''"
proof (rule kept_by_redis [OF rt_Update_only_redis [OF u]])
  assume ok: "tokens_ok E w'"
  then have inv: "token_inv E w'" by (simp add: tokens_ok_def)
  have "known_status (set_status ''USED'' x)" for x by (simp add: known_status_def)
  moreover have "token_inv E w''" using redis_cells.upd_frame [OF inv u] by simp
  moreover obtain x where "kept_tokens E w'' = kept_tokens E w'
      \<or> kept_tokens E w'' = (kept_tokens E w')(t \<mapsto> set_status ''USED'' x)"
    using redis_cells.upd_ok [OF inv, of "t" "''USED''" w'']
      redis_cells.upd_err [OF inv, of "t" "''USED''" _ w''] u by (cases res) auto
  ultimately show "tokens_ok E w''" using put_tokens_ok [OF ok] by blast
qed

interpretation auth_invariants: steady E "auth_wiring E ts" "stores_kept E" for E ts
proof (unfold_locales, unfold auth_wiring_simps)
  fix w w' w'' :: "'a world"
  show "stores_kept E w w" by (simp add: stores_kept_def)
  show "stores_kept E w w' \<Longrightarrow> stores_kept E w' w'' \<Longrightarrow> stores_kept E w w''"
    by (auto simp: stores_kept_def)
  show "later_only w w' \<Longrightarrow> stores_kept E w w'"
    by (rule kept_by_sql) (auto simp: redis_same_def later_only_simps intro: sql_same)
  show "stores_kept E w (logAuthEvent E (auth_wiring E ts) uid ev m extra w)" for uid ev m extra
    using auth_main.audit_same [OF auth_main.audit_frame] sql_audit by (intro kept_by_sql) blast+
next
  fix i w w' u and ures :: "err + user"
  show "ur_FindByEmail (PostgresUserRepository E) i w = (ures, w') \<Longrightarrow> stores_kept E w w'"
    and "ur_FindByID (PostgresUserRepository E) i w = (ures, w') \<Longrightarrow> stores_kept E w w'"
    by (auto simp: PostgresUserRepository_def dest!: pg_FindByEmail_frame pg_FindUserByID_frame)
  show "ur_CreateUser (PostgresUserRepository E) u w = (ures, w') \<Longrightarrow> stores_kept E w w'"
    using sql_create_user [of E w u ures w'] auth_main.users_frame(3) [of E _ u w ures w']
    by (intro kept_by_sql) (auto simp: PostgresUserRepository_def)
next
  fix j t w w' x and res :: "err + unit" and sres :: "err + session" and lres :: "err + session list"
  show "s_Status x = ''ACTIVE'' \<Longrightarrow> sr_Create (PostgresSessionRepository E) x w = (sres, w') \<Longrightarrow> stores_kept E w w'"
    using sql_create_session [of E w x sres w'] only_sessions_same [OF pg_sessions_frame(1), of E x w sres w']
    by (intro kept_by_sql) (auto simp: PostgresSessionRepository_def)
  show "sr_ListByUserID (PostgresSessionRepository E) j w = (lres, w') \<Longrightarrow> stores_kept E w w'"
    and "sr_FindByID (PostgresSessionRepository E) j w = (sres, w') \<Longrightarrow> stores_kept E w w'"
    by (auto simp: PostgresSessionRepository_def dest: pg_FindSessionByID_frame pg_ListByUserID_frame)
  show "stores_kept E w w'" if c: "sr_UpdateLastUsedAt (PostgresSessionRepository E) j (Some t) w = (res, w')"
  proof -
    obtain t' where "sessions w' = sessions w \<or> sessions w' =
        update_where (has_session_id (canon_uuid E j)) (\<lambda>s. s\<lparr>s_LastUsedAt := t'\<rparr>) (sessions w)"
      using pg_sessions.touch_ok [of E j t w w'] pg_sessions.touch_err [of E j "Some t" w _ w'] c by (cases res) fastforce+
    then show ?thesis
      using pg_sessions_frame(2) c by (intro kept_by_sessions) (auto simp: PostgresSessionRepository_def)
  qed
  show "stores_kept E w w'" if c: "sr_UpdateStatus (PostgresSessionRepository E) j ''REVOKED'' w = (res, w')"
  proof -
    have "sessions w' = sessions w \<or> sessions w' = update_where (has_session_id (canon_uuid E j)) revoke (sessions w)"
      using pg_sessions.status_ok pg_sessions.status_err c unfolding revoke_fun [symmetric] by (cases res) fastforce+
    then show ?thesis
      using pg_sessions_frame(3) c revoke_fields by (intro kept_by_sessions) (auto simp: PostgresSessionRepository_def)
  qed
  show "stores_kept E w w'" if c: "sr_RevokeAllByUserID (PostgresSessionRepository E) j w = (res, w')"
  proof -
    have "sessions w' = sessions w \<or> sessions w' =
        update_where (\<lambda>s. of_session_user (canon_uuid E j) s \<and> s_Status s = ''ACTIVE'') revoke (sessions w)"
      using pg_sessions.revoke_all_ok pg_sessions.revoke_all_err c by (cases res) fastforce+
    then show ?thesis
      using pg_sessions_frame(4) c revoke_fields by (intro kept_by_sessions) (auto simp: PostgresSessionRepository_def)
  qed
next
  fix tk j w w' and tres :: "err + refresh_token" and res :: "err + unit"
  show "rtr_FindByToken (RedisRefreshTokenRepository E) tk w = (tres, w') \<Longrightarrow> stores_kept E w w'"
    using rt_Find_only_redis redis_cells.find_revokes by (intro kept_by_revocation) (auto simp: rt_repo_defs)
  show "rtr_RevokeByToken (RedisRefreshTokenRepository E) tk w = (res, w') \<Longrightarrow> stores_kept E w w'"
    using rt_Update_only_redis redis_cells.upd_revokes by (intro kept_by_revocation) (auto simp: rt_repo_defs)
  show "rtr_RevokeAllBySession (RedisRefreshTokenRepository E) j w = (res, w') \<Longrightarrow> stores_kept E w w'"
    using redis_tokens_frame(5) redis_tokens.all_by_session by (intro kept_by_revocation) blast+
  show "rtr_RevokeAllByUser (RedisRefreshTokenRepository E) j w = (res, w') \<Longrightarrow> stores_kept E w w'"
    using redis_tokens_frame(6) redis_tokens.all_by_user by (intro kept_by_revocation) blast+
next
  fix i w rt w' j w'' and res :: "err + unit"
  show "GenerateRefreshToken E ts i w = (Inr rt, w') \<Longrightarrow>
      rtr_Create (RedisRefreshTokenRepository E) (rt\<lparr>rt_SessionID := j\<rparr>) w' = (res, w'') \<Longrightarrow> stores_kept E w w''"
    by (rule kept_by_issue)
next
  fix rt w w' w'' and res :: "err + unit"
  assume "stores_kept E w w'" and "rtr_UpdateStatus (RedisRefreshTokenRepository E) (rt_Token rt) ''USED'' w' = (res, w'')"
  then show "stores_kept E w w''" using kept_by_spending by (fastforce simp: rt_repo_defs stores_kept_def)
qed

end
