(* ===== verification/Availability.thy ===== *)
theory Availability
  imports Auth_Invariants
begin

text \<open>
  What the operations answer while nothing outside them fails: Redis is up, no SQL call and no
  random read fails, and the records and tokens concerned can be encoded. The lemmas state
  that a result exists and what it is, call by call, for the properties that say that a request
  succeeds. Each counts the ticks its calls take, since the conditions are on a window of ticks.
\<close>

section \<open>Conditions\<close>

text \<open>From tick \<open>m\<close> up to \<open>n\<close> no store and no random read fails, and less than an hour passes.\<close>

definition undisturbed :: "'r env \<Rightarrow> nat \<Rightarrow> nat \<Rightarrow> bool" where
  "undisturbed E m n \<longleftrightarrow> redis_up (redis E) \<and> clock E n < clock E m + hour
     \<and> (\<forall>k \<in> {m..<n}. pg_fault E k = None \<and> is_ok (rand_gen E k))"

definition storable :: "'r env \<Rightarrow> refresh_token \<Rightarrow> bool" where
  "storable E rt \<longleftrightarrow> is_ok (marshal_record E (record_of rt))"

text \<open>A refresh token made for a user and a session in the window can be encoded, and lives at least an hour.\<close>

definition issuable :: "'r env \<Rightarrow> token_service \<Rightarrow> string \<Rightarrow> string \<Rightarrow> nat \<Rightarrow> nat \<Rightarrow> bool" where
  "issuable E ts u i m n \<longleftrightarrow> 0 < ts_refreshTTLHours ts \<and> ts_refreshTTLHours ts \<le> 2562047
     \<and> (\<forall>k \<in> {m..<n}. is_ok (marshal_record E
          \<lparr>r_UserID = u, r_SessionID = i, r_Status = ''ACTIVE'', r_CreatedAt = clock E k,
           r_ExpiresAt = clock E k + ts_refreshTTLHours ts * hour\<rparr>))"

definition signable :: "'r env \<Rightarrow> token_service \<Rightarrow> string \<Rightarrow> string \<Rightarrow> nat \<Rightarrow> nat \<Rightarrow> bool" where
  "signable E ts u em m n \<longleftrightarrow>
     (\<forall>k \<in> {m..<n}. is_ok (jwt_SignedString (jwt E) (SigningMethodHMAC ''HS256'')
        (access_claims ts u em (clock E k) (clock E k + dur_mul (ts_accessTTLMinutes ts) minute)) (ts_accessSecret ts)))"

text \<open>The columns of a session row take the metadata of the request.\<close>

definition metadata_fits :: "'r env \<Rightarrow> request_metadata \<Rightarrow> bool" where
  "metadata_fits E md \<longleftrightarrow> pg_text E ''unknown device'' = None \<and> pg_text E (trim_space (DeviceName md)) = None
     \<and> pg_text E (trim_space (IPAddress md)) = None \<and> pg_varchar E 255 (trim_space (IPAddress md)) = None
     \<and> pg_text E ''ACTIVE'' = None \<and> pg_varchar E 32 ''ACTIVE'' = None"

lemma undisturbed_at:
  assumes "undisturbed E m n" and "m \<le> k" and "k < n"
  shows "redis_up (redis E)" and "pg_fault E k = None" and "\<exists>bytes. rand_gen E k = Inr bytes"
  using assms by (auto simp: undisturbed_def is_ok_iff)

lemma undisturbed_part:
  assumes "undisturbed E m n" and "clock_laws E" and "m \<le> m'" and "n' \<le> n"
  shows "undisturbed E m' n'"
  using assms clock_mono [OF assms(2), of m m'] clock_mono [OF assms(2), of n' n] by (auto simp: undisturbed_def)

lemma issuable_part: "issuable E ts u i m n \<Longrightarrow> m \<le> m' \<Longrightarrow> n' \<le> n \<Longrightarrow> issuable E ts u i m' n'"
  by (auto simp: issuable_def)

section \<open>Redis\<close>

text \<open>A command that Redis has an answer to is answered while Redis is up.\<close>

lemma redis_up_do:
  assumes "redis_up (redis E)" and "redis_laws (redis E)" and "redis_answers (cur E w) c (kspace E w) rep"
  shows "\<exists>rep w'. redis_do E c w = (Inr rep, w')"
proof -
  obtain res w' where call: "redis_do E c w = (res, w')" by (cases "redis_do E c w")
  then have fst: "fst (r_do (redis E) (cur E w) c (redis_db w)) = res" by (auto simp: redis_do_def split: prod.splits)
  from assms(1) have "is_ok res \<or> res = Inl RedisNil"
    unfolding redis_up_def fst [symmetric] using assms(3) by (auto simp: kspace_def)
  moreover have "res \<noteq> Inl RedisNil" using redis_do_err(3) [OF assms(2)] call assms(3) by fastforce
  ultimately show ?thesis using call by (auto simp: is_ok_iff)
qed

lemma redis_up_tx:
  assumes "redis_up (redis E)" and "list_all (well_typed (cur E w) (kspace E w)) cs"
  shows "\<exists>w'. redis_tx E cs w = (Inr (), w')"
proof -
  obtain res w' where call: "redis_tx E cs w = (res, w')" by (cases "redis_tx E cs w")
  then have "fst (r_tx (redis E) (cur E w) cs (redis_db w)) = res" by (auto simp: redis_tx_def split: prod.splits)
  with assms have "is_ok res" unfolding redis_up_def kspace_def by blast
  with call show ?thesis by (auto simp: is_ok_iff)
qed

text \<open>What is not gone at a later tick is there until then.\<close>

definition at_tick :: "'r world \<Rightarrow> nat \<Rightarrow> 'r world" where
  "at_tick w n = w\<lparr>tick := n\<rparr>"

lemma at_tick_simps [simp]: "tick (at_tick w n) = n" "kspace E (at_tick w n) = kspace E w" "cur E (at_tick w n) = clock E n"
  "kept_tokens E (at_tick w n) = kept_tokens E w"
  by (simp_all add: at_tick_def kspace_def cur_def kept_tokens_def fun_eq_iff)

lemma token_gone_at:
  "token_gone E (at_tick w n) t \<longleftrightarrow>
     (case deadline (kspace E w) (redisRefreshTokenKey t) of None \<Rightarrow> False | Some d \<Rightarrow> d \<le> clock E n)
   \<or> (case kept_tokens E w t of None \<Rightarrow> False | Some rt \<Rightarrow> rt_ExpiresAt rt \<le> clock E n)"
  unfolding token_gone_def at_tick_simps ..

lemma not_gone_before:
  assumes "clock_laws E" and "\<not> token_gone E (at_tick w n) t" and "tick w \<le> n"
  shows "\<not> token_gone E w t"
  using token_gone_later [OF assms(1), of w "at_tick w n" t] assms(2,3) by auto

lemma kept_entry:
  assumes "token_inv E w" and "kept_tokens E w t = Some rt" and "\<not> token_gone E w t"
  obtains s d where "kspace E w (redisRefreshTokenKey t) = Some (VStr s, Some d)" and "cur E w < d"
    and "unmarshal_record E s = Inr (record_of rt)" and "cur E w < rt_ExpiresAt rt"
proof -
  note ok = token_entry_ok [OF token_inv_laws(4) [OF assms(1)], of t]
  obtain s d r where "kspace E w (redisRefreshTokenKey t) = Some (VStr s, Some d)" "unmarshal_record E s = Inr r" "rt = token_of t r"
    using assms(2) ok unfolding kept_tokens_def
    by (cases "(E, kspace E w, t, kspace E w (redisRefreshTokenKey t))" rule: token_entry.cases) (auto split: sum.splits)
  with that assms(2,3) show ?thesis by (simp add: token_gone_def deadline_def)
qed

lemma rt_Find_answers:
  assumes "token_inv E w" and "redis_up (redis E)" and "kept_tokens E w t = Some rt" and "\<not> token_gone E w t"
  shows "\<exists>w'. rt_FindByToken E t w = (Inr rt, w')"
proof -
  obtain s d where e: "kspace E w (redisRefreshTokenKey t) = Some (VStr s, Some d)" "cur E w < d"
    "unmarshal_record E s = Inr (record_of rt)"
    using kept_entry [OF assms(1,3,4)] by blast
  then have lv: "live (cur E w) (kspace E w) (redisRefreshTokenKey t) = Some (VStr s)" by (simp add: live_def)
  note L = token_inv_laws(1) [OF assms(1)]
  obtain rep w' where call: "redis_do E (GET (redisRefreshTokenKey t)) w = (Inr rep, w')"
    using redis_up_do [OF assms(2) L, of w "GET (redisRefreshTokenKey t)" "RStr s"] lv by auto
  have "rep = RStr s" using redis_do_ok(1) [OF L call] lv by simp
  with call e(3) have "rt_FindByToken E t w = (Inr (token_of t (record_of rt)), w')" by (simp add: rt_FindByToken_def)
  with rt_Find_ok(1) [OF assms(1) this] assms(3) show ?thesis by auto
qed

text \<open>The lifetime that SET gets is cut to milliseconds: a key outlives \<open>n\<close> if its record does by one.\<close>

lemma px_ttl_lower: "millisecond \<le> x \<Longrightarrow> x - millisecond < px_ttl x"
proof -
  assume "millisecond \<le> x"
  then have "px_ttl x = x div millisecond * millisecond" by (simp add: px_ttl_def quot_nonneg)
  then show ?thesis using pos_mod_bound [of millisecond x] by (simp add: minus_mod_eq_div_mult [symmetric])
qed

lemma key_outlives:
  assumes "s \<le> a" and "a \<le> b" and "a \<le> n" and "n < s + hour" and "n + millisecond \<le> x"
  shows "n < b + px_ttl (time_sub x a)"
proof -
  have "time_sub x a = min (2 ^ 63 - 1) (x - a)" using assms by (simp add: time_sub_def)
  moreover have "millisecond \<le> x - a" using assms(3,5) by simp
  ultimately have "millisecond \<le> time_sub x a" "min (2 ^ 63 - 1) (x - a) - millisecond < px_ttl (time_sub x a)"
    using px_ttl_lower [of "time_sub x a"] by simp_all
  then show ?thesis using assms by (simp add: min_def split: if_splits)
qed

lemma rt_Update_answers:
  assumes inv: "token_inv E w" and up: "redis_up (redis E)" and kept: "kept_tokens E w t = Some rt"
    and alive: "\<not> token_gone E (at_tick w n) t" and n: "tick w + 3 \<le> n" and st: "storable E (set_status st rt)"
  obtains w' where "rt_UpdateStatus E t st w = (Inr (), w')" and "tick w' = tick w + 3"
    and "clock E n < clock E (tick w) + hour \<Longrightarrow> clock E n + millisecond \<le> rt_ExpiresAt rt \<Longrightarrow> \<not> token_gone E (at_tick w' n) t"
proof -
  note L = token_inv_laws [OF inv]
  have now: "\<not> token_gone E w t" using not_gone_before [OF L(3) alive] n by simp
  obtain w1 where f: "rt_FindByToken E t w = (Inr rt, w1)" using rt_Find_answers [OF inv up kept now] by blast
  note fr = rt_Find_frame [OF L(1) f]
  obtain payload where p: "marshal_record E (record_of (set_status st rt)) = Inr payload"
    using st by (auto simp: storable_def is_ok_iff)
  have "clock E n < rt_ExpiresAt rt" using alive kept by (simp add: token_gone_at)
  moreover have w1n: "cur E w1 \<le> clock E n" using fr(2) n clock_mono [OF L(3), of "tick w1" n] by (simp add: cur_def)
  ultimately have ttl: "\<not> time_sub (rt_ExpiresAt rt) (cur E w1) \<le> 0" by (simp add: time_sub_nonpos_iff)
  let ?c = "SET (redisRefreshTokenKey t) payload (time_sub (rt_ExpiresAt rt) (cur E w1))"
  obtain rep w2 where c: "redis_do E ?c (step w1) = (Inr rep, w2)"
    using redis_up_do [OF up L(1), of "step w1" ?c ROk] by auto
  have call: "rt_UpdateStatus E t st w = (Inr (), w2)"
    unfolding rt_Update_after_find [OF f] using p ttl c by simp
  moreover have "tick w2 = tick w + 3" using redis_do_frame [OF c] fr(2) by simp
  moreover have "\<not> token_gone E (at_tick w2 n) t"
    if "clock E n < clock E (tick w) + hour" "clock E n + millisecond \<le> rt_ExpiresAt rt"
  proof -
    have ks: "kspace E w2 = (kspace E w)(redisRefreshTokenKey t \<mapsto>
        (VStr payload, Some (cur E (step w1) + px_ttl (time_sub (rt_ExpiresAt rt) (cur E w1)))))"
      using redis_do_ok(2) [OF L(1) c] fr(1) by simp
    have "clock E (tick w) \<le> cur E w1" "cur E w1 \<le> cur E (step w1)"
      using fr(2) by (auto simp: cur_def intro: clock_mono [OF L(3)])
    from key_outlives [OF this w1n that] ks
    have d: "\<not> (case deadline (kspace E w2) (redisRefreshTokenKey t) of None \<Rightarrow> False | Some d \<Rightarrow> d \<le> clock E n)"
      by (simp add: deadline_def)
    have "unmarshal_record E payload = Inr (record_of (set_status st rt))" by (rule unmarshal_external(3) [OF L(2) p])
    then have "kept_tokens E w2 t = Some (token_of t (record_of (set_status st rt)))" by (simp add: kept_tokens_def ks)
    moreover have "rt_ExpiresAt (token_of t (record_of (set_status st rt))) = rt_ExpiresAt rt" by (simp add: token_of_def record_of_def)
    ultimately show ?thesis using d that(2) by (simp add: token_gone_at)
  qed
  ultimately show ?thesis using that by blast
qed

lemma rt_Create_answers:
  assumes inv: "token_inv E w" and up: "redis_up (redis E)" and st: "storable E rt" and x: "cur E w < rt_ExpiresAt rt"
  obtains w' where "rt_Create E rt w = (Inr (), w')" and "tick w' = tick w + 2"
    and "\<And>t. t \<noteq> rt_Token rt \<Longrightarrow> kspace E w' (redisRefreshTokenKey t) = kspace E w (redisRefreshTokenKey t)"
proof -
  note L = token_inv_laws [OF inv]
  obtain payload where p: "marshal_record E (record_of rt) = Inr payload" using st by (auto simp: storable_def is_ok_iff)
  let ?cs = "[SET (redisRefreshTokenKey (rt_Token rt)) payload (time_sub (rt_ExpiresAt rt) (cur E w)),
    SADD (redisUserRefreshTokensKey (rt_UserID rt)) (rt_Token rt), SADD (redisSessionRefreshTokensKey (rt_SessionID rt)) (rt_Token rt)]"
  have "index_entry (kspace E w (redisUserRefreshTokensKey u))" "index_entry (kspace E w (redisSessionRefreshTokensKey i))" for u i
    using L(4) by (auto simp: keyspace_ok_def)
  then have "list_all (well_typed (cur E (step w)) (kspace E (step w))) ?cs" by (simp add: sadd_typed del: well_typed.simps(1))
  from redis_up_tx [OF up this] obtain w' where tx: "redis_tx E ?cs (step w) = (Inr (), w')" by blast
  have call: "rt_Create E rt w = (Inr (), w')"
    using p tx x by (simp add: rt_Create_def time_now_def Let_def time_sub_nonpos_iff)
  moreover have "tick w' = tick w + 2" using redis_tx_frame [OF tx] by simp
  moreover have "kspace E w' (redisRefreshTokenKey t) = kspace E w (redisRefreshTokenKey t)" if "t \<noteq> rt_Token rt" for t
    using rt_Create_cases [OF inv call] that by (auto simp: put_entry_at)
  ultimately show ?thesis using that by blast
qed

section \<open>The rotation of a refresh\<close>

text \<open>Touching a session, with an identifier PostgreSQL can read, and generating a refresh token.\<close>

lemma pg_touch_answers:
  assumes "pg_fault E (tick w) = None" and "is_ok (pg_uuid E i)"
  obtains w' where "pg_UpdateLastUsedAt E i (Some t) w = (Inr (), w')"
proof -
  obtain j where "pg_uuid E i = Inr j" using assms(2) by (auto simp: is_ok_iff)
  with that assms(1) show ?thesis by (simp add: pg_UpdateLastUsedAt_def pg_exec_def)
qed

lemma GenerateRefreshToken_answers:
  assumes "rand_gen E (tick w) = Inr bytes"
  shows "GenerateRefreshToken E ts u w =
    (Inr \<lparr>rt_Token = raw_url_encode bytes, rt_UserID = u, rt_SessionID = '''', rt_Status = ''ACTIVE'',
          rt_ExpiresAt = cur E (step w) + dur_mul (ts_refreshTTLHours ts) hour, rt_CreatedAt = cur E (step w)\<rparr>, step (step w))"
  using assms by (simp add: GenerateRefreshToken_def rand_read_def time_now_def)

text \<open>Generating a token and storing it for a session: four ticks.\<close>

lemma issue_answers:
  assumes inv: "token_inv E w" and calm: "undisturbed E (tick w) n" and n: "tick w + 4 \<le> n" and iss: "issuable E ts u i (tick w) n"
  obtains bytes rt w1 w2 where "rand_gen E (tick w) = Inr bytes" and "GenerateRefreshToken E ts u w = (Inr rt, w1)"
    and "rt_Token rt = raw_url_encode bytes" and "rt_Create E (rt\<lparr>rt_SessionID := i\<rparr>) w1 = (Inr (), w2)" and "tick w2 = tick w + 4"
    and "\<And>t. t \<noteq> raw_url_encode bytes \<Longrightarrow> kspace E w2 (redisRefreshTokenKey t) = kspace E w (redisRefreshTokenKey t)"
proof -
  note L = token_inv_laws [OF inv]
  have up: "redis_up (redis E)" using calm by (simp add: undisturbed_def)
  obtain bytes where b: "rand_gen E (tick w) = Inr bytes" using undisturbed_at(3) [OF calm order_refl] n by auto
  have hours: "dur_mul (ts_refreshTTLHours ts) hour = ts_refreshTTLHours ts * hour" "hour \<le> ts_refreshTTLHours ts * hour"
    using iss dur_mul_hours [of "ts_refreshTTLHours ts"] by (auto simp: issuable_def)
  define rt where "rt = \<lparr>rt_Token = raw_url_encode bytes, rt_UserID = u, rt_SessionID = '''', rt_Status = ''ACTIVE'',
    rt_ExpiresAt = cur E (step w) + ts_refreshTTLHours ts * hour, rt_CreatedAt = cur E (step w)\<rparr>"
  have g: "GenerateRefreshToken E ts u w = (Inr rt, step (step w))"
    unfolding GenerateRefreshToken_answers [OF b] rt_def hours(1) ..
  have "Suc (tick w) \<in> {tick w..<n}" using n by simp
  then have st: "storable E (rt\<lparr>rt_SessionID := i\<rparr>)"
    using iss unfolding issuable_def storable_def by (fastforce simp: rt_def record_of_def cur_def)
  have "clock E n < clock E (tick w) + hour" using calm by (simp add: undisturbed_def)
  moreover have "clock E (tick w) \<le> cur E (step w)" "cur E (step (step w)) \<le> clock E n"
    using n by (auto simp: cur_def intro: clock_mono [OF L(3)])
  ultimately have x: "cur E (step (step w)) < rt_ExpiresAt (rt\<lparr>rt_SessionID := i\<rparr>)" using hours(2) by (simp add: rt_def)
  have inv2: "token_inv E (step (step w))" using token_inv_same_space [OF inv] by simp
  show ?thesis
  proof (rule rt_Create_answers [OF inv2 up st x])
    fix w2
    assume c: "rt_Create E (rt\<lparr>rt_SessionID := i\<rparr>) (step (step w)) = (Inr (), w2)" "tick w2 = tick (step (step w)) + 2"
      and other: "\<And>t. t \<noteq> rt_Token (rt\<lparr>rt_SessionID := i\<rparr>) \<Longrightarrow>
        kspace E w2 (redisRefreshTokenKey t) = kspace E (step (step w)) (redisRefreshTokenKey t)"
    show ?thesis by (rule that [OF b g _ c(1)]) (use c(2) other in \<open>simp_all add: rt_def\<close>)
  qed
qed

text \<open>
  A refresh that is past its checks completes, in twelve ticks, whatever state its token has
  been put in meanwhile, if the token has not expired.
\<close>

lemma refresh_commit_answers:
  assumes inv: "token_inv E w" and kept: "kept_tokens E w (rt_Token rt) = Some rt0" "set_status ''USED'' rt0 = set_status ''USED'' rt"
    and alive: "\<not> token_gone E (at_tick w n) (rt_Token rt)" and n: "tick w + 12 \<le> n" and calm: "undisturbed E (tick w) n"
    and st: "storable E (set_status ''USED'' rt)" and iss: "issuable E ts (u_ID u) (rt_SessionID rt) (tick w) n"
    and i: "is_ok (pg_uuid E (rt_SessionID rt))"
  obtains resp w' bytes where "refresh_commit E (auth_wiring E ts) (rt, u, acc, k) m w = (Inr resp, w')"
    and "tick w' = tick w + 12" and "rand_gen E (tick w + 3) = Inr bytes" and "tr_RefreshToken resp = raw_url_encode bytes"
    and "clock E n + millisecond \<le> rt_ExpiresAt rt \<Longrightarrow> tr_RefreshToken resp \<noteq> rt_Token rt \<Longrightarrow> \<not> token_gone E (at_tick w' n) (rt_Token rt)"
proof -
  note L = token_inv_laws [OF inv]
  have up: "redis_up (redis E)" and hour: "clock E n < clock E (tick w) + hour" using calm by (simp_all add: undisturbed_def)
  have x: "rt_ExpiresAt rt0 = rt_ExpiresAt rt" using kept(2) by (metis set_status_simps(5))
  obtain w1 where u: "rt_UpdateStatus E (rt_Token rt) ''USED'' w = (Inr (), w1)" "tick w1 = tick w + 3"
    and alive1: "clock E n + millisecond \<le> rt_ExpiresAt rt \<Longrightarrow> \<not> token_gone E (at_tick w1 n) (rt_Token rt)"
    by (rule rt_Update_answers [OF inv up kept(1) alive, of "''USED''"]) (use n st kept(2) hour x in simp_all)
  have inv1: "token_inv E w1" using redis_cells.upd_frame [OF inv u(1)] by blast
  have calm1: "undisturbed E (tick w1) n" and iss1: "issuable E ts (u_ID u) (rt_SessionID rt) (tick w1) n"
    using undisturbed_part [OF calm L(3)] issuable_part [OF iss] u(2) by simp_all
  have n1: "tick w1 + 4 \<le> n" using n u(2) by simp
  obtain bytes new w2 w3 where b: "rand_gen E (tick w1) = Inr bytes" and g: "GenerateRefreshToken E ts (u_ID u) w1 = (Inr new, w2)"
    and tok: "rt_Token new = raw_url_encode bytes" and c: "rt_Create E (new\<lparr>rt_SessionID := rt_SessionID rt\<rparr>) w2 = (Inr (), w3)"
    and t3: "tick w3 = tick w1 + 4"
    and other: "\<And>t. t \<noteq> raw_url_encode bytes \<Longrightarrow> kspace E w3 (redisRefreshTokenKey t) = kspace E w1 (redisRefreshTokenKey t)"
    using issue_answers [OF inv1 calm1 n1 iss1] by blast
  have "pg_fault E (tick (step w3)) = None" using undisturbed_at(2) [OF calm, of "tick (step w3)"] n t3 u(2) by simp
  from pg_touch_answers [OF this i] obtain w4 where
    l: "pg_UpdateLastUsedAt E (rt_SessionID rt) (Some (cur E w3)) (step w3) = (Inr (), w4)" by blast
  define w' where "w' = logAuthEvent E (auth_wiring E ts) (Some (u_ID u)) ''refresh_success'' m [(''session_id'', rt_SessionID rt)] w4"
  have t4: "tick w4 = tick w + 9" "redis_db w4 = redis_db w3"
    using pg_sessions_frame(2) [OF l] t3 u(2) by (simp_all add: only_sessions_def)
  have "tick w' = tick w4 + 3" by (rule log_event_entry(2)) (simp add: w'_def logAuthEvent_def)
  then have t': "tick w' = tick w + 12" using t4 by simp
  have "redis_db w' = redis_db w4"
    unfolding w'_def using auth_main.audit_frame unfolding only_audit_def by blast
  then have ks: "kspace E w' = kspace E w3" using t4 by (simp add: kspace_def)
  let ?resp = "\<lparr>tr_Message = ''tokens refreshed successfully'', tr_AccessToken = acc,
    tr_RefreshToken = rt_Token new, tr_TokenType = ''Bearer'', tr_ExpiresIn = k\<rparr>"
  have call: "refresh_commit E (auth_wiring E ts) (rt, u, acc, k) m w = (Inr ?resp, w')"
    using u(1) g c l by (simp add: refresh_commit_def rt_repo_defs PostgresSessionRepository_def time_now_def w'_def)
  have "\<not> token_gone E (at_tick w' n) (rt_Token rt)"
    if "clock E n + millisecond \<le> rt_ExpiresAt rt" "rt_Token new \<noteq> rt_Token rt"
  proof -
    have "kspace E w' (redisRefreshTokenKey (rt_Token rt)) = kspace E w1 (redisRefreshTokenKey (rt_Token rt))"
      using ks other [of "rt_Token rt"] tok that(2) by simp
    with alive1 [OF that(1)] show ?thesis
      by (simp add: token_gone_at deadline_def kept_tokens_def)
  qed
  with that [OF call t'] b u(2) tok show ?thesis by simp
qed

section \<open>Login\<close>

text \<open>
  All that a login needs of its surroundings at \<open>w\<close>, for a user it finds: its ten ticks are
  undisturbed, the new session's identifier (drawn at the third tick) is readable and unused, the metadata
  fits its columns, and the two tokens can be signed and encoded.
\<close>

definition login_ready :: "'r env \<Rightarrow> token_service \<Rightarrow> string \<Rightarrow> string \<Rightarrow> request_metadata \<Rightarrow> 'r world \<Rightarrow> bool" where
  "login_ready E ts uid em md w \<longleftrightarrow> undisturbed E (tick w) (tick w + 10)
     \<and> (case pg_uuid E (uuid_gen E (tick w + 2)) of Inl _ \<Rightarrow> False | Inr j \<Rightarrow> j \<notin> s_ID ` set (sessions w))
     \<and> metadata_fits E md \<and> signable E ts uid em (tick w) (tick w + 10)
     \<and> issuable E ts uid (uuid_gen E (tick w + 2)) (tick w) (tick w + 10)"

lemma pg_FindByEmail_answers:
  assumes "pg_users.well_formed E w" and "pg_fault E (tick w) = None" and "u \<in> set (users w)"
    and "u_Email u = normal_email E em" and "pg_text E (u_Email u) = None"
  shows "pg_FindByEmail E em w = (Inr u, step w)"
proof -
  let ?rows = "filter (\<lambda>v. u_Email v = normal_email E em) (users w)"
  have "u \<in> set ?rows" using assms(3,4) by simp
  then obtain v where v: "first_row ?rows = Inr v" by (cases ?rows) (auto simp: first_row_def)
  from first_row_Inr [OF this] have "v = u"
    using pg_users.email_unique [OF assms(1)] assms(3,4) by simp
  with v assms(2,4,5) show ?thesis by (simp add: pg_FindByEmail_def pg_query_def Let_def)
qed

lemma pg_CreateSession_answers:
  assumes "pg_fault E (tick w) = None" and "metadata_fits E md" and "u \<in> set (users w)" and "pg_uuid E (u_ID u) = Inr (u_ID u)"
    and "pg_uuid E i = Inr j" and "j \<notin> s_ID ` set (sessions w)"
  obtains x w' where "pg_CreateSession E (login_session u md i now) w = (Inr x, w')"
proof -
  have "list_ex (\<lambda>v. u_ID v = u_ID u) (users w)" using assms(3) by (auto simp: list_ex_iff)
  moreover have "\<forall>r \<in> set (sessions w). s_ID r \<noteq> j" using assms(6) by auto
  ultimately have "\<exists>p. pg_insert_session E (login_session u md i now) w = Inr p"
    using assms(2,4,5) by (simp add: pg_insert_session_def login_session_def metadata_fits_def fresh_session_def list_all_iff Let_def)
  with that assms(1) show ?thesis by (auto simp: pg_CreateSession_def pg_exec_def)
qed

lemma GenerateAccessToken_answers:
  assumes "signable E ts u em m n" and "m \<le> tick w" and "tick w < n"
  obtains tok x where "GenerateAccessToken E ts u em w = (Inr (tok, x), step (step w))"
proof -
  obtain tok where "jwt_SignedString (jwt E) (SigningMethodHMAC ''HS256'')
      (access_claims ts u em (cur E w) (cur E w + dur_mul (ts_accessTTLMinutes ts) minute)) (ts_accessSecret ts) = Inr tok"
    using assms unfolding signable_def is_ok_iff cur_def by (metis atLeastLessThan_iff)
  with that show ?thesis by (simp add: GenerateAccessToken_def time_now_def Let_def)
qed

lemma login_answers:
  assumes inv: "token_inv E w" and wf: "pg_users.well_formed E w" and ready: "login_ready E ts (u_ID u) (u_Email u) md w"
    and u: "u \<in> set (users w)" "u_Email u = normal_email E (trim_space email)" "pg_text E (u_Email u) = None" "pg_uuid E (u_ID u) = Inr (u_ID u)"
    and pw: "bcrypt_compare E (u_HashedPassword u) (trim_space password) = None"
    and ne: "trim_space email \<noteq> ''''" "trim_space password \<noteq> ''''"
  shows "\<exists>resp w'. Login E (auth_wiring E ts) email password md w = (Inr resp, w')"
proof -
  let ?n = "tick w + 10"
  define i where "i = uuid_gen E (tick w + 2)"
  have calm: "undisturbed E (tick w) ?n" and fits: "metadata_fits E md" and sign: "signable E ts (u_ID u) (u_Email u) (tick w) ?n"
    and iss: "issuable E ts (u_ID u) i (tick w) ?n" using ready by (simp_all add: login_ready_def i_def)
  obtain j where j: "pg_uuid E i = Inr j" "j \<notin> s_ID ` set (sessions w)"
    using ready by (auto simp: login_ready_def i_def split: sum.splits)
  have faults: "pg_fault E k = None" if "tick w \<le> k" "k < ?n" for k using undisturbed_at(2) [OF calm that] .
  have f: "pg_FindByEmail E (trim_space email) w = (Inr u, step w)"
    by (rule pg_FindByEmail_answers [OF wf faults u(1,2,3)]) simp_all
  let ?w3 = "step (step (step w))"
  obtain x w4 where c: "pg_CreateSession E (login_session u md i (cur E (step w))) ?w3 = (Inr x, w4)"
    by (rule pg_CreateSession_answers [OF faults fits _ u(4) j(1), of ?w3 "cur E (step w)"]) (use u(1) j(2) in simp_all)
  have w4: "tick w4 = tick w + 4" "redis_db w4 = redis_db w"
    using pg_sessions_frame(1) [OF c] by (simp_all add: only_sessions_def)
  obtain acc k where a: "GenerateAccessToken E ts (u_ID u) (u_Email u) w4 = (Inr (acc, k), step (step w4))"
    by (rule GenerateAccessToken_answers [OF sign, of w4]) (use w4 in simp_all)
  define w6 where "w6 = step (step w4)"
  have inv6: "token_inv E w6" using token_inv_same_space [OF inv, of w6] w4 by (simp add: kspace_def w6_def)
  have calm6: "undisturbed E (tick w6) ?n" and iss6: "issuable E ts (u_ID u) i (tick w6) ?n" and n6: "tick w6 + 4 \<le> ?n"
    using undisturbed_part [OF calm token_inv_laws(3) [OF inv]] issuable_part [OF iss] w4(1) by (simp_all add: w6_def)
  obtain bytes rt w7 w8 where g: "GenerateRefreshToken E ts (u_ID u) w6 = (Inr rt, w7)"
    and s: "rt_Create E (rt\<lparr>rt_SessionID := i\<rparr>) w7 = (Inr (), w8)"
    by (rule issue_answers [OF inv6 calm6 n6 iss6]) iprover
  have "s_ID (login_session u md i (cur E (step w))) = i" by (simp add: login_session_def)
  moreover have "uuid_gen E (Suc (Suc (tick w))) = i" by (simp add: i_def)
  ultimately show ?thesis
    using ne f pw c a g s w6_def
    by (simp add: Login_def Let_def time_now_def uuid_new_def rt_repo_defs PostgresUserRepository_def PostgresSessionRepository_def)
qed

text \<open>What a registration leaves for the login: a row whose columns PostgreSQL has accepted.\<close>

lemma first_err_None: "first_err xs = None \<Longrightarrow> x \<in> set xs \<Longrightarrow> x = None"
  by (induction xs rule: first_err.induct) auto

lemma insert_user_accepts:
  assumes "insert_user E u w = Inr (row, w')"
  shows "pg_uuid E (u_ID u) = Inr (u_ID row)" and "pg_text E (u_Email row) = None"
  using assms first_err_None [of "[pg_text E (u_Email u), pg_text E (u_HashedPassword u), pg_varchar E 255 (u_Email u)]"]
  by (auto simp: insert_user_def Let_def split: sum.splits option.splits if_splits)

lemma registered_row:
  assumes laws: "pg_laws E" and call: "Register E (auth_wiring E ts) email password m w = (Inr r, w1)"
  obtains u n where "users w1 = users w @ [u]" and "u_Email u = normal_email E (to_lower (unicode_tables E) (trim_space email))"
    and "bcrypt_generate E n (trim_space password) = Inr (u_HashedPassword u)" and "rr_UserID r = u_ID u" and "rr_Email r = u_Email u"
    and "pg_text E (u_Email u) = None" and "pg_uuid E (u_ID u) = Inr (u_ID u)"
    and "trim_space email \<noteq> ''''" and "trim_space password \<noteq> ''''"
proof -
  obtain u n where u: "users w1 = users w @ [u]" "u_Email u = normal_email E (to_lower (unicode_tables E) (trim_space email))"
    "bcrypt_generate E n (trim_space password) = Inr (u_HashedPassword u)" "rr_UserID r = u_ID u" "rr_Email r = u_Email u"
    "trim_space email \<noteq> ''''" "trim_space password \<noteq> ''''"
    using auth_main.register_ok [OF call] by metis
  obtain h a v v' w4 where h: "bcrypt_hash E (trim_space password) w = (Inr h, a)"
    and c: "pg_CreateUser E v (step (step a)) = (Inr v', w4)"
    and w1: "w1 = logAuthEvent E (auth_wiring E ts) (Some (u_ID v')) ''register_success'' m [(''email'', u_Email v')] w4"
    using call by (auto simp: Register_def Let_def time_now_def uuid_new_def PostgresUserRepository_def
        elim!: call_cases split: if_splits)
  obtain z w5 where z: "insert_user E z (step (step a)) = Inr (v', w5)" "w4 = step w5"
    using pg_CreateUser_exec [OF c] pg_exec_ok by metis
  have "users w4 = users w @ [v']" using insert_user_cases [OF z(1)] z(2) h by (auto simp: bcrypt_hash_def)
  moreover have "users w1 = users w4" unfolding w1 using auth_main.audit_frame unfolding only_audit_def by blast
  ultimately have "v' = u" using u(1) by simp
  with insert_user_accepts [OF z(1)] laws have "pg_text E (u_Email u) = None" "pg_uuid E (u_ID u) = Inr (u_ID u)"
    unfolding pg_laws_def by blast+
  with that u show ?thesis by blast
qed

end
