(* ===== verification/Http.thy ===== *)
theory Http
  imports World
begin

text \<open>
  \<open>net/http\<close> as far as the program uses it: requests, header maps, response writers, and
  handlers as functions of a request, a writer and the world. A handler returns, panics in
  its own goroutine, or has crashed the process (a panic in a goroutine nobody recovers).
\<close>

section \<open>Requests and headers\<close>

text \<open>Header maps are keyed by the canonical form of a name.\<close>

fun canonical_from :: "bool \<Rightarrow> string \<Rightarrow> string" where
  "canonical_from up [] = []"
| "canonical_from up (c # cs) =
     (if up then ascii_upper c else ascii_lower c) # canonical_from (c = CHR ''-'') cs"

definition canonical_header :: "string \<Rightarrow> string" where
  "canonical_header k = canonical_from True k"

type_synonym header = "string \<Rightarrow> string list"

definition header_get :: "header \<Rightarrow> string \<Rightarrow> string" where
  "header_get h k = (case h (canonical_header k) of [] \<Rightarrow> '''' | v # _ \<Rightarrow> v)"

definition header_set :: "string \<Rightarrow> string \<Rightarrow> header \<Rightarrow> header" where
  "header_set k v h = h(canonical_header k := [v])"

definition header_add :: "string \<Rightarrow> string \<Rightarrow> header \<Rightarrow> header" where
  "header_add k v h = h(canonical_header k := h (canonical_header k) @ [v])"

text \<open>\<open>rq_Cookies\<close> are the pairs of the \<open>Cookie\<close> header in order; the last two fields are the
  values the program keeps in the context.\<close>

record http_request =
  rq_Method :: string
  rq_Path :: string
  rq_EscapedPath :: string
  rq_RemoteAddr :: string
  rq_Header :: header
  rq_Cookies :: "(string \<times> string) list"
  rq_Body :: string
  rq_RequestID :: "string option"
  rq_Identity :: "auth_identity option"

section \<open>Response writers\<close>

text \<open>
  \<open>rw_Header\<close> is the live header map, \<open>rw_Status\<close> the status already written (0 if none),
  \<open>rw_Sent\<close> the headers as they were at that moment, which is what goes out on a
  connection. \<open>rw_Recorded\<close> is the field of a \<open>statusRecorder\<close> around the writer: the
  argument of the last call of \<open>WriteHeader\<close>, effective or not.
\<close>

record response_writer =
  rw_Header :: header
  rw_Status :: int
  rw_Sent :: header
  rw_Body :: string
  rw_Recorded :: int

definition new_writer :: response_writer where
  "new_writer = \<lparr>rw_Header = (\<lambda>k. []), rw_Status = 0, rw_Sent = (\<lambda>k. []), rw_Body = '''', rw_Recorded = 0\<rparr>"

definition set_header :: "string \<Rightarrow> string \<Rightarrow> response_writer \<Rightarrow> response_writer" where
  "set_header k v rw = rw\<lparr>rw_Header := header_set k v (rw_Header rw)\<rparr>"

definition commit_header :: "int \<Rightarrow> response_writer \<Rightarrow> response_writer" where
  "commit_header statusCode rw =
     (if rw_Status rw \<noteq> 0 then rw else rw\<lparr>rw_Status := statusCode, rw_Sent := rw_Header rw\<rparr>)"

definition WriteHeader :: "int \<Rightarrow> response_writer \<Rightarrow> response_writer" where
  "WriteHeader statusCode rw = (commit_header statusCode rw)\<lparr>rw_Recorded := statusCode\<rparr>"

definition Write :: "string \<Rightarrow> response_writer \<Rightarrow> response_writer" where
  "Write data rw = (let rw = commit_header 200 rw in rw\<lparr>rw_Body := rw_Body rw @ data\<rparr>)"

definition SetCookie :: "'r env \<Rightarrow> cookie \<Rightarrow> response_writer \<Rightarrow> response_writer" where
  "SetCookie E c rw =
     (if cookie_text E c = '''' then rw
      else rw\<lparr>rw_Header := header_add ''Set-Cookie'' (cookie_text E c) (rw_Header rw)\<rparr>)"

lemma writer_simps [simp]:
  "rw_Status (set_header k v rw) = rw_Status rw" "rw_Body (set_header k v rw) = rw_Body rw"
  "rw_Sent (set_header k v rw) = rw_Sent rw" "rw_Recorded (set_header k v rw) = rw_Recorded rw"
  "rw_Status (SetCookie E c rw) = rw_Status rw" "rw_Body (SetCookie E c rw) = rw_Body rw"
  "rw_Sent (SetCookie E c rw) = rw_Sent rw" "rw_Recorded (SetCookie E c rw) = rw_Recorded rw"
  "rw_Recorded (WriteHeader n rw) = n" "rw_Recorded (Write d rw) = rw_Recorded rw"
  "rw_Header (WriteHeader n rw) = rw_Header rw" "rw_Header (Write d rw) = rw_Header rw"
  "rw_Body (WriteHeader n rw) = rw_Body rw" "rw_Body (Write d rw) = rw_Body rw @ d"
  by (simp_all add: set_header_def SetCookie_def WriteHeader_def Write_def commit_header_def Let_def)

lemma first_status_wins [simp]:
  "rw_Status rw = 0 \<Longrightarrow> rw_Status (WriteHeader n rw) = n" "rw_Status rw \<noteq> 0 \<Longrightarrow> rw_Status (WriteHeader n rw) = rw_Status rw"
  "rw_Status rw \<noteq> 0 \<Longrightarrow> rw_Status (Write d rw) = rw_Status rw" "rw_Status rw = 0 \<Longrightarrow> rw_Status (Write d rw) = 200"
  "rw_Status rw = 0 \<Longrightarrow> rw_Sent (WriteHeader n rw) = rw_Header rw"
  "rw_Status rw \<noteq> 0 \<Longrightarrow> rw_Sent (WriteHeader n rw) = rw_Sent rw"
  "rw_Status rw \<noteq> 0 \<Longrightarrow> rw_Sent (Write d rw) = rw_Sent rw"
  by (simp_all add: WriteHeader_def Write_def commit_header_def Let_def)

section \<open>Handlers\<close>

datatype outcome = Returned | Panicked string | Crashed

type_synonym 'r handler = "http_request \<Rightarrow> response_writer \<Rightarrow> 'r world \<Rightarrow> outcome \<times> response_writer \<times> 'r world"

definition respond :: "response_writer \<Rightarrow> 'r world \<Rightarrow> outcome \<times> response_writer \<times> 'r world" where
  "respond rw w = (Returned, rw, w)"

text \<open>\<open>net.SplitHostPort\<close>: the host part, None where it reports an error.\<close>

definition last_index :: "char \<Rightarrow> string \<Rightarrow> nat option" where
  "last_index c s = (if c \<in> set s then Some (length s - 1 - length (takeWhile (\<lambda>x. x \<noteq> c) (rev s))) else None)"

definition split_host :: "string \<Rightarrow> string option" where
  "split_host s =
     (case last_index (CHR '':'') s of
        None \<Rightarrow> None
      | Some i \<Rightarrow>
          if take 1 s = ''['' then
            (if CHR '']'' \<notin> set s then None
             else let j = length (takeWhile (\<lambda>x. x \<noteq> CHR '']'') s) in
               if j + 1 \<noteq> i then None
               else if CHR ''['' \<in> set (drop 1 s) \<or> CHR '']'' \<in> set (drop (j + 1) s) then None
               else Some (take (j - 1) (drop 1 s)))
          else
            let host = take i s in
            if CHR '':'' \<in> set host then None
            else if CHR ''['' \<in> set s \<or> CHR '']'' \<in> set s then None
            else Some host)"

lemma split_host_plain:
  assumes "CHR '':'' \<notin> set h" and "CHR ''['' \<notin> set h" and "CHR '']'' \<notin> set h" and "list_all is_digit p"
  shows "split_host (h @ '':'' @ p) = Some h"
proof -
  have p: "CHR '':'' \<notin> set p" "CHR ''['' \<notin> set p" "CHR '']'' \<notin> set p"
    using assms(4) by (auto simp: list_all_iff is_digit_def dest!: bspec)
  have all: "takeWhile (\<lambda>x. x \<noteq> CHR '':'') (rev p @ CHR '':'' # rev h) = rev p"
    using p(1) by (subst takeWhile_append2) auto
  have "last_index (CHR '':'') (h @ '':'' @ p) = Some (length h)"
    using all by (simp add: last_index_def)
  moreover have "take 1 (h @ '':'' @ p) \<noteq> ''[''" using assms(2) by (cases h) auto
  ultimately show ?thesis using assms p by (auto simp: split_host_def Let_def)
qed

end
