(* ===== verification/Rate_Limit.thy ===== *)
theory Rate_Limit
  imports World
begin

text \<open>
  \<open>internal/service/rate_limit_service.go\<close>: a fixed-window counter in Redis. A request
  increments the counter of its scope and client; the increment that creates the counter
  gives it the lifetime of the window.
\<close>

record rate_limit_result =
  Allowed :: bool
  Remaining :: int
  ResetIn :: duration

definition rate_limit_key :: "string \<Rightarrow> string \<Rightarrow> string" where
  "rate_limit_key scope identifier = ''auth:rate_limit:'' @ scope @ '':'' @ identifier"

definition Allow ::
  "'r env \<Rightarrow> string \<Rightarrow> string \<Rightarrow> int \<Rightarrow> duration \<Rightarrow> 'r world \<Rightarrow> (err + rate_limit_result) \<times> 'r world" where
  "Allow E scope identifier limit window w =
     (let key = rate_limit_key scope identifier in
      case redis_do E (INCR key) w of
        (Inl e, w) \<Rightarrow> (Inl e, w)
      | (Inr r, w) \<Rightarrow>
          let count = reply_int r in
          (case (if count = 1 then redis_do E (EXPIRE key window) w else (Inr ROk, w)) of
             (Inl e, w) \<Rightarrow> (Inl e, w)
           | (Inr _, w) \<Rightarrow>
               (case redis_do E (TTL key) w of
                  (Inl e, w) \<Rightarrow> (Inl e, w)
                | (Inr r, w) \<Rightarrow>
                    let ttl = (if reply_dur r < 0 then window else reply_dur r);
                        remaining = (if wrap64 (limit - count) < 0 then 0 else wrap64 (limit - count))
                    in (Inr \<lparr>Allowed = (count \<le> limit), Remaining = remaining, ResetIn = ttl\<rparr>, w))))"

section \<open>The counter\<close>

text \<open>The requests a client has made in the window that is open, if one is.\<close>

definition count_of :: "redis_val option \<Rightarrow> int" where
  "count_of v = (case v of Some (VInt n) \<Rightarrow> n | _ \<Rightarrow> 0)"

text \<open>Keys of different clients, or of different scopes without a colon, are different.\<close>

lemma rate_limit_key_inj [keys]:
  assumes "CHR '':'' \<notin> set s" and "CHR '':'' \<notin> set s'"
  shows "rate_limit_key s i = rate_limit_key s' i' \<longleftrightarrow> s = s' \<and> i = i'"
proof
  assume "rate_limit_key s i = rate_limit_key s' i'"
  then have eq: "s @ '':'' @ i = s' @ '':'' @ i'" by (simp add: rate_limit_key_def)
  then have "hd (split_on (CHR '':'') (s @ CHR '':'' # i)) = hd (split_on (CHR '':'') (s' @ CHR '':'' # i'))"
    by simp
  then have "s = s'" using assms by (simp add: split_on_append)
  with eq show "s = s' \<and> i = i'" by simp
qed simp

text \<open>The three commands of a call on an open counter leave its deadline alone.\<close>

lemma incr_entry:
  assumes "redis_laws (redis E)" and "redis_do E (INCR k) w = (res, w')"
    and "kspace E w k = Some (VInt c, D)" and "D = None \<or> cur E w < the D"
  shows "kspace E w' k \<in> {Some (VInt c, D), Some (VInt (c + 1), D)}"
    and "res = Inr r \<Longrightarrow> kspace E w' k = Some (VInt (c + 1), D) \<and> reply_int r = c + 1"
proof -
  have live: "live (cur E w) (kspace E w) k = Some (VInt c)" "deadline (kspace E w) k = D"
    using assms(3,4) by (auto simp: live_def deadline_def split: option.splits)
  show "res = Inr r \<Longrightarrow> kspace E w' k = Some (VInt (c + 1), D) \<and> reply_int r = c + 1"
    using redis_do_ok [OF assms(1)] assms(2) live by fastforce
  show "kspace E w' k \<in> {Some (VInt c, D), Some (VInt (c + 1), D)}"
    using redis_do_ok(2) [OF assms(1)] redis_do_err(2) [OF assms(1)] assms(2,3) live by (cases res) fastforce+
qed

lemma ttl_same:
  "redis_laws (redis E) \<Longrightarrow> redis_do E (TTL k) w = (res, w') \<Longrightarrow> kspace E w' = kspace E w"
  using redis_do_ok(2) redis_do_err(2) by (cases res) fastforce+

text \<open>A call on a counter that exists (so that its increment is not the first).\<close>

lemma Allow_on_counter:
  assumes "redis_laws (redis E)" and "Allow E sc i limit window w = (res, w')"
    and "kspace E w (rate_limit_key sc i) = Some (VInt c, D)" and "D = None \<or> cur E w < the D" and "0 < c"
  shows "kspace E w' (rate_limit_key sc i) \<in> {Some (VInt c, D), Some (VInt (c + 1), D)}"
    and "res = Inr r \<Longrightarrow> kspace E w' (rate_limit_key sc i) = Some (VInt (c + 1), D) \<and> (Allowed r \<longleftrightarrow> c + 1 \<le> limit)"
proof -
  let ?k = "rate_limit_key sc i"
  obtain x w1 where x: "redis_do E (INCR ?k) w = (x, w1)" by (cases "redis_do E (INCR ?k) w")
  note incr = incr_entry [OF assms(1) x assms(3,4)]
  have *: "kspace E w' ?k = kspace E w1 ?k \<and> (\<forall>r. res = Inr r \<longrightarrow> (\<exists>y. x = Inr y \<and> (Allowed r \<longleftrightarrow> reply_int y \<le> limit)))"
  proof (cases x)
    case (Inl e)
    with assms(2) x show ?thesis by (auto simp: Allow_def Let_def)
  next
    case (Inr y)
    with incr(2) assms(5) have "reply_int y \<noteq> 1" by simp
    moreover obtain z w2 where z: "redis_do E (TTL ?k) w1 = (z, w2)" by (cases "redis_do E (TTL ?k) w1")
    ultimately have "w' = w2" "\<And>r. res = Inr r \<Longrightarrow> Allowed r \<longleftrightarrow> reply_int y \<le> limit"
      using assms(2) x Inr by (auto simp: Allow_def Let_def split: sum.splits)
    then show ?thesis using ttl_same [OF assms(1) z] Inr by simp
  qed
  then show "kspace E w' ?k \<in> {Some (VInt c, D), Some (VInt (c + 1), D)}" using incr(1) by simp
  show "res = Inr r \<Longrightarrow> kspace E w' ?k = Some (VInt (c + 1), D) \<and> (Allowed r \<longleftrightarrow> c + 1 \<le> limit)"
    using * incr(2) by fastforce
qed

section \<open>The fixed window as a contract\<close>

text \<open>
  Attempts on one counter, interleaved with steps of others that leave it alone, while the
  window is open; the number counts the attempts that were allowed.
\<close>

inductive attempts ::
  "('w \<Rightarrow> (err + bool) \<times> 'w) \<Rightarrow> ('w \<Rightarrow> 'w \<Rightarrow> bool) \<Rightarrow> ('w \<Rightarrow> bool) \<Rightarrow> nat \<Rightarrow> 'w \<Rightarrow> 'w \<Rightarrow> bool"
  for call other is_open where
  none: "attempts call other is_open 0 w w"
| allowed: "attempts call other is_open n w w1 \<Longrightarrow> is_open w1 \<Longrightarrow> call w1 = (Inr True, w2) \<Longrightarrow>
    attempts call other is_open (Suc n) w w2"
| refused: "attempts call other is_open n w w1 \<Longrightarrow> is_open w1 \<Longrightarrow> call w1 = (res, w2) \<Longrightarrow> res \<noteq> Inr True \<Longrightarrow>
    attempts call other is_open n w w2"
| elsewhere: "attempts call other is_open n w w1 \<Longrightarrow> is_open w1 \<Longrightarrow> other w1 w2 \<Longrightarrow>
    attempts call other is_open n w w2"

inductive_cases attempts_some: "attempts call other is_open (Suc n) w w'"

locale fixed_window =
  fixes call :: "'w \<Rightarrow> (err + bool) \<times> 'w"
    and other :: "'w \<Rightarrow> 'w \<Rightarrow> bool"
    and is_open :: "'w \<Rightarrow> bool"
    and count :: "'w \<Rightarrow> int"
    and limit :: int
  assumes call_counts: "is_open w \<Longrightarrow> call w = (res, w') \<Longrightarrow> count w \<le> count w'"
    and call_allowed: "is_open w \<Longrightarrow> call w = (Inr True, w') \<Longrightarrow> count w' = count w + 1 \<and> count w' \<le> limit"
    and other_counts: "is_open w \<Longrightarrow> other w w' \<Longrightarrow> count w \<le> count w'"
begin

lemma attempts_counted:
  "attempts call other is_open n w w' \<Longrightarrow> count w + int n \<le> count w' \<and> (n = 0 \<or> count w + int n \<le> limit)"
proof (induction rule: attempts.induct)
  case (allowed n w w1 w2)
  then show ?case using call_allowed [of w1 w2] by auto
next
  case (refused n w w1 res w2)
  then show ?case using call_counts [of w1 res w2] by auto
next
  case (elsewhere n w w1 w2)
  then show ?case using other_counts [of w1 w2] by auto
qed simp

lemma attempts_bounded: "attempts call other is_open n w w' \<Longrightarrow> int n \<le> max 0 (limit - count w)"
  using attempts_counted by fastforce

end

definition allow_call ::
  "'r env \<Rightarrow> string \<Rightarrow> string \<Rightarrow> int \<Rightarrow> duration \<Rightarrow> 'r world \<Rightarrow> (err + bool) \<times> 'r world" where
  "allow_call E scope identifier limit window w =
     (case Allow E scope identifier limit window w of
        (Inl e, w) \<Rightarrow> (Inl e, w) | (Inr r, w) \<Rightarrow> (Inr (Allowed r), w))"

definition window_open :: "'r env \<Rightarrow> string \<Rightarrow> instant \<Rightarrow> 'r world \<Rightarrow> bool" where
  "window_open E key D w \<longleftrightarrow>
     redis_laws (redis E) \<and> cur E w < D \<and> (\<exists>c. 0 < c \<and> kspace E w key = Some (VInt c, Some D))"

definition counter_untouched :: "'r env \<Rightarrow> string \<Rightarrow> 'r world \<Rightarrow> 'r world \<Rightarrow> bool" where
  "counter_untouched E key w w' \<longleftrightarrow> tick w \<le> tick w' \<and> kspace E w' key = kspace E w key"

definition counter_value :: "'r env \<Rightarrow> string \<Rightarrow> 'r world \<Rightarrow> int" where
  "counter_value E key w = count_of (map_option fst (kspace E w key))"

interpretation redis_window: fixed_window
  "allow_call E sc i limit window" "counter_untouched E (rate_limit_key sc i)"
  "window_open E (rate_limit_key sc i) D" "counter_value E (rate_limit_key sc i)" limit
  for E sc i limit window D
proof unfold_locales
  fix w w' :: "'a world" and res
  assume o: "window_open E (rate_limit_key sc i) D w"
  then obtain c where c: "0 < c" "kspace E w (rate_limit_key sc i) = Some (VInt c, Some D)"
    and R: "redis_laws (redis E)" and t: "cur E w < D" by (auto simp: window_open_def)
  have D: "Some D = None \<or> cur E w < the (Some D)" using t by simp
  show "counter_value E (rate_limit_key sc i) w \<le> counter_value E (rate_limit_key sc i) w'"
    if "allow_call E sc i limit window w = (res, w')"
  proof -
    from that obtain x where "Allow E sc i limit window w = (x, w')"
      by (auto simp: allow_call_def split: prod.splits sum.splits)
    from Allow_on_counter(1) [OF R this c(2) D c(1)] c show ?thesis
      by (auto simp: counter_value_def count_of_def)
  qed
  show "counter_value E (rate_limit_key sc i) w' = counter_value E (rate_limit_key sc i) w + 1
      \<and> counter_value E (rate_limit_key sc i) w' \<le> limit"
    if "allow_call E sc i limit window w = (Inr True, w')"
  proof -
    from that obtain r where call: "Allow E sc i limit window w = (Inr r, w')" and "Allowed r"
      by (auto simp: allow_call_def split: prod.splits sum.splits)
    from Allow_on_counter(2) [OF R call c(2) D c(1)] \<open>Allowed r\<close> c show ?thesis
      by (auto simp: counter_value_def count_of_def)
  qed
  show "counter_value E (rate_limit_key sc i) w \<le> counter_value E (rate_limit_key sc i) w'"
    if "counter_untouched E (rate_limit_key sc i) w w'"
    using that by (simp add: counter_untouched_def counter_value_def)
qed

section \<open>The first request of a window\<close>

lemma Allow_opens:
  assumes R: "redis_laws (redis E)" and call: "Allow E sc i limit window w = (Inr r, w')"
    and fresh: "live (cur E w) (kspace E w) (rate_limit_key sc i) = None" and win: "0 < ex_ttl window"
    and clk: "clock_laws E"
  shows "Allowed r \<longleftrightarrow> 1 \<le> limit"
    and "kspace E w' (rate_limit_key sc i) = Some (VInt 1, Some (cur E (step w) + ex_ttl window))"
proof -
  let ?k = "rate_limit_key sc i"
  obtain x w1 where x: "redis_do E (INCR ?k) w = (x, w1)" by (cases "redis_do E (INCR ?k) w")
  with call obtain y where y: "x = Inr y" by (cases x) (auto simp: Allow_def Let_def)
  note ok1 = redis_do_ok [OF R x [unfolded y]]
  have one: "reply_int y = 1" and e1: "kspace E w1 ?k = Some (VInt 1, None)"
    using ok1 fresh by auto
  obtain z w2 where z: "redis_do E (EXPIRE ?k window) w1 = (z, w2)" by (cases "redis_do E (EXPIRE ?k window) w1")
  with call x y one obtain z' where z': "z = Inr z'" by (cases z) (auto simp: Allow_def Let_def)
  have "cur E w1 = cur E (step w)" using redis_do_frame [OF x] by (simp add: cur_def)
  then have e2: "kspace E w2 ?k = Some (VInt 1, Some (cur E (step w) + ex_ttl window))"
    using redis_do_ok(2) [OF R z [unfolded z']] e1 win by (simp add: live_def)
  obtain u w3 where u: "redis_do E (TTL ?k) w2 = (u, w3)" by (cases "redis_do E (TTL ?k) w2")
  with call x y one z z' have "w' = w3" and al: "Allowed r \<longleftrightarrow> 1 \<le> limit"
    by (auto simp: Allow_def Let_def split: sum.splits)
  with e2 ttl_same [OF R u] show "kspace E w' ?k = Some (VInt 1, Some (cur E (step w) + ex_ttl window))" by simp
  show "Allowed r \<longleftrightarrow> 1 \<le> limit" by (rule al)
qed

lemma Allow_frame [frame]:
  "Allow E sc i limit window w = (res, w') \<Longrightarrow> tick w \<le> tick w' \<and> users w' = users w \<and> sessions w' = sessions w
     \<and> audit_logs w' = audit_logs w \<and> access_log w' = access_log w"
  unfolding Allow_def Let_def
  by (auto split: prod.splits sum.splits if_splits dest!: redis_do_frame)

text \<open>A call touches its own counter only.\<close>

lemma counter_command_keys:
  assumes "redis_laws (redis E)" and "redis_do E c w = (res, w')" and "c \<in> {INCR k, EXPIRE k d, TTL k}" and "k' \<noteq> k"
  shows "kspace E w' k' = kspace E w k'"
proof -
  have "redis_effect (cur E w) c (kspace E w) k' = kspace E w k'"
    using assms(3,4) by (auto split: option.splits redis_val.splits)
  then show ?thesis
    using redis_do_ok(2) [OF assms(1)] redis_do_err(2) [OF assms(1)] assms(2) by (cases res) fastforce+
qed

lemma Allow_other_keys:
  assumes R: "redis_laws (redis E)" and call: "Allow E sc i limit window w = (res, w')" and k: "k' \<noteq> rate_limit_key sc i"
  shows "kspace E w' k' = kspace E w k'"
proof -
  note keys = counter_command_keys [OF R _ _ k, of _ _ _ _ window]
  from call show ?thesis
    unfolding Allow_def Let_def by (auto elim!: call_cases split: if_splits dest!: keys)
qed

text \<open>
  The lifetime of a counter as a refused request reports it: what is left of the window, or
  the whole window where Redis knows of no deadline.
\<close>

lemma Allow_reset:
  assumes R: "redis_laws (redis E)" and clk: "clock_laws E" and call: "Allow E sc i limit window w = (Inr r, w')"
    and c: "kspace E w (rate_limit_key sc i) = Some (VInt c, D)" "D = None \<or> cur E w < the D" "0 < c"
  shows "ResetIn r = window \<or> D \<noteq> None \<and> 0 \<le> ResetIn r \<and> ResetIn r < the D - cur E w + second"
proof -
  let ?k = "rate_limit_key sc i"
  obtain x w1 where x: "redis_do E (INCR ?k) w = (Inr x, w1)"
    using call by (auto simp: Allow_def Let_def elim!: call_cases)
  have e: "kspace E w1 ?k = Some (VInt (c + 1), D)" and "reply_int x \<noteq> 1" using incr_entry(2) [OF R x c(1,2)] c(3) by auto
  with call x obtain y where y: "redis_do E (TTL ?k) w1 = (Inr y, w')"
    and reset: "ResetIn r = (if reply_dur y < 0 then window else reply_dur y)"
    by (auto simp: Allow_def Let_def elim!: call_cases)
  have t: "cur E w \<le> cur E w1" using cur_mono [OF clk, of w w1] redis_do_frame [OF x] by simp
  have "live (cur E w1) (kspace E w1) ?k = None \<and> y = RDur (- 2) \<or> deadline (kspace E w1) ?k = D \<and> y = RDur (- 1)
      \<or> (\<exists>d x. D = Some d \<and> y = RDur x \<and> 0 \<le> x \<and> x < d - cur E w1 + second)"
    using redis_do_ok(1) [OF R y] e by (auto simp: live_def deadline_def split: option.splits if_splits redis_reply.splits)
  then show ?thesis using reset t by (elim disjE conjE exE) auto
qed

end
