(* ===== verification/Middleware.thy ===== *)
theory Middleware
  imports Http Rate_Limit Token_Service
begin

text \<open>
  \<open>internal/middleware\<close>: each middleware is a function from handlers to handlers, as in the
  source. What \<open>RequestLogger\<close> and \<open>Recoverer\<close> print beyond the access log entry is left out.
\<close>

type_synonym 'r middleware = "'r handler \<Rightarrow> 'r handler"

section \<open>Context and responses\<close>

definition GetRequestID :: "http_request \<Rightarrow> string" where
  "GetRequestID r = (case rq_RequestID r of None \<Rightarrow> '''' | Some i \<Rightarrow> i)"

definition GetAuthIdentity :: "http_request \<Rightarrow> auth_identity option" where
  "GetAuthIdentity r = rq_Identity r"

definition writeJSON :: "'r env \<Rightarrow> response_writer \<Rightarrow> int \<Rightarrow> json \<Rightarrow> response_writer" where
  "writeJSON E rw statusCode payload =
     (case encode_json E payload of
        Inl e \<Rightarrow>
          Write (''{'' @ [CHR 0x22] @ ''error'' @ [CHR 0x22] @ '':{'' @ [CHR 0x22] @ ''code'' @ [CHR 0x22] @ '':''
            @ [CHR 0x22] @ ''internal_server_error'' @ [CHR 0x22] @ '','' @ [CHR 0x22] @ ''message'' @ [CHR 0x22] @ '':''
            @ [CHR 0x22] @ ''failed to encode response'' @ [CHR 0x22] @ ''}}'')
            (WriteHeader 500 (set_header ''Content-Type'' ''application/json'' rw))
      | Inr text \<Rightarrow> Write text (WriteHeader statusCode (set_header ''Content-Type'' ''application/json'' rw)))"

definition writeError :: "'r env \<Rightarrow> http_request \<Rightarrow> response_writer \<Rightarrow> int \<Rightarrow> string \<Rightarrow> string \<Rightarrow> response_writer" where
  "writeError E r rw statusCode code message =
     writeJSON E rw statusCode (error_json \<lparr>ae_Code = code, ae_Message = message\<rparr> (GetRequestID r))"

section \<open>The chain\<close>

definition Chain :: "'r handler \<Rightarrow> 'r middleware list \<Rightarrow> 'r handler" where
  "Chain handler middlewares = foldl (\<lambda>handler m. m handler) handler (rev middlewares)"

definition RequestID :: "'r env \<Rightarrow> 'r middleware" where
  "RequestID E next r rw w =
     (let requestID = trim_space (header_get (rq_Header r) ''X-Request-ID'') in
      case (if requestID = '''' then uuid_new E w else (requestID, w)) of (requestID, w) \<Rightarrow>
        next (r\<lparr>rq_RequestID := Some requestID\<rparr>) (set_header ''X-Request-ID'' requestID rw) w)"

definition RequestLogger :: "'r env \<Rightarrow> 'r middleware" where
  "RequestLogger E next r rw w =
     (case time_now E w of (start, w) \<Rightarrow>
      case next r (rw\<lparr>rw_Recorded := 200\<rparr>) w of
        (Returned, rw, w) \<Rightarrow>
          (case time_now E w of (now, w) \<Rightarrow>
             (Returned, rw, w\<lparr>access_log := access_log w @
               [\<lparr>ax_RequestID = GetRequestID r, ax_Method = rq_Method r, ax_Path = rq_Path r,
                 ax_RemoteAddr = rq_RemoteAddr r, ax_StatusCode = rw_Recorded rw\<rparr>]\<rparr>))
      | (out, rw, w) \<Rightarrow> (out, rw, w))"

definition Recoverer :: "'r env \<Rightarrow> 'r middleware" where
  "Recoverer E next r rw w =
     (case next r rw w of
        (Panicked recovered, rw, w) \<Rightarrow>
          (Returned, writeError E r rw 500 ''internal_server_error'' ''internal server error'', w)
      | (out, rw, w) \<Rightarrow> (out, rw, w))"

definition copyHeader :: "header \<Rightarrow> header \<Rightarrow> header" where
  "copyHeader dst src = (\<lambda>key. dst key @ src key)"

text \<open>
  The handler runs in a goroutine of its own on a buffer. If the deadline passes first the
  response is the timeout error; the goroutine goes on to its end, so the world is the one
  the handler leaves in either case. A panic in it is recovered by nobody.
\<close>

definition Timeout :: "'r env \<Rightarrow> duration \<Rightarrow> 'r middleware" where
  "Timeout E timeout next r rw w =
     (case next r new_writer w of
        (Returned, buf, w') \<Rightarrow>
          if deadline_passes E timeout (tick w) then
            respond (writeError E r rw 504 ''request_timeout'' ''request timed out'') w'
          else
            let rw = rw\<lparr>rw_Header := copyHeader (rw_Header rw) (rw_Header buf)\<rparr>;
                statusCode = (if rw_Status buf = 0 then 200 else rw_Status buf) in
            respond (Write (rw_Body buf) (WriteHeader statusCode rw)) w'
      | (_, buf, w') \<Rightarrow> (Crashed, rw, w'))"

fun isOriginAllowed :: "unicode \<Rightarrow> string \<Rightarrow> string list \<Rightarrow> bool" where
  "isOriginAllowed U origin [] = False"
| "isOriginAllowed U origin (allowedOrigin # rest) =
     (if allowedOrigin = ''*'' \<or> equal_fold U origin allowedOrigin then True
      else isOriginAllowed U origin rest)"

definition CORS :: "'r env \<Rightarrow> string list \<Rightarrow> string list \<Rightarrow> string list \<Rightarrow> bool \<Rightarrow> 'r middleware" where
  "CORS E allowedOrigins allowedMethods allowedHeaders allowCredentials next r rw w =
     (let origin = trim_space (header_get (rq_Header r) ''Origin'') in
      if origin = '''' \<or> allowedOrigins = [] then next r rw w
      else if \<not> isOriginAllowed (unicode_tables E) origin allowedOrigins then
        (if rq_Method r = ''OPTIONS'' then
           respond (writeError E r rw 403 ''cors_origin_denied'' ''origin is not allowed'') w
         else next r rw w)
      else
        let rw = set_header ''Access-Control-Allow-Origin'' origin rw;
            rw = set_header ''Vary'' ''Origin'' rw;
            rw = set_header ''Access-Control-Allow-Methods'' (join '', '' allowedMethods) rw;
            rw = set_header ''Access-Control-Allow-Headers'' (join '', '' allowedHeaders) rw;
            rw = (if allowCredentials then set_header ''Access-Control-Allow-Credentials'' ''true'' rw else rw) in
        if rq_Method r = ''OPTIONS'' then respond (WriteHeader 204 rw) w else next r rw w)"

definition SecurityHeaders :: "'r middleware" where
  "SecurityHeaders next r rw w =
     (let rw = set_header ''X-Content-Type-Options'' ''nosniff'' rw;
          rw = set_header ''X-Frame-Options'' ''DENY'' rw;
          rw = set_header ''Referrer-Policy'' ''no-referrer'' rw;
          rw = set_header ''X-XSS-Protection'' ''0'' rw;
          rw = (if has_prefix (rq_Path r) ''/auth/'' then set_header ''Cache-Control'' ''no-store'' rw else rw) in
      next r rw w)"

definition InstanceHeader :: "string \<Rightarrow> 'r middleware" where
  "InstanceHeader instanceName next r rw w = next r (set_header ''X-App-Instance'' instanceName rw) w"

section \<open>Rate limiting\<close>

text \<open>The client as the limiter sees it: the first forwarded address, or the peer.\<close>

definition rateLimitIdentifier :: "http_request \<Rightarrow> string" where
  "rateLimitIdentifier r =
     (let forwardedFor = trim_space (header_get (rq_Header r) ''X-Forwarded-For'');
          first = trim_space (hd (split_on (CHR '','') forwardedFor)) in
      if forwardedFor \<noteq> '''' \<and> first \<noteq> '''' then first
      else
        let remoteAddr = trim_space (rq_RemoteAddr r) in
        if remoteAddr = '''' then ''unknown''
        else (case split_host remoteAddr of
                Some host \<Rightarrow> if host \<noteq> '''' then host else remoteAddr
              | None \<Rightarrow> remoteAddr))"

text \<open>\<open>int(duration.Seconds())\<close>; the lifetimes Redis answers with are whole seconds.\<close>

definition formatRetryAfter :: "duration \<Rightarrow> string" where
  "formatRetryAfter d =
     (let seconds = quot d second;
          seconds = (if seconds < 1 then 1 else seconds) in itoa seconds)"

definition RateLimit :: "'r env \<Rightarrow> string \<Rightarrow> int \<Rightarrow> duration \<Rightarrow> 'r middleware" where
  "RateLimit E scope limit window next r rw w =
     (let identifier = rateLimitIdentifier r in
      case Allow E scope identifier limit window w of
        (Inl e, w) \<Rightarrow> respond (writeError E r rw 500 ''rate_limit_check_failed'' ''rate limit check failed'') w
      | (Inr res, w) \<Rightarrow>
          if \<not> Allowed res then
            respond (writeError E r (set_header ''Retry-After'' (formatRetryAfter (ResetIn res)) rw) 429
              ''rate_limit_exceeded'' ''too many requests, please try again later'') w
          else next r rw w)"

section \<open>Authentication\<close>

definition RequireAuth :: "'r env \<Rightarrow> token_service \<Rightarrow> 'r middleware" where
  "RequireAuth E ts next r rw w =
     (let authorization = trim_space (header_get (rq_Header r) ''Authorization'') in
      if authorization = '''' then
        respond (writeError E r rw 401 ''missing_authorization_header'' ''missing authorization header'') w
      else
        let parts = split_n2 (CHR '' '') authorization in
        if length parts \<noteq> 2 \<or> \<not> equal_fold (unicode_tables E) (parts ! 0) ''Bearer'' \<or> trim_space (parts ! 1) = '''' then
          respond (writeError E r rw 401 ''invalid_authorization_header'' ''invalid authorization header'') w
        else
          (case ValidateAccessToken E ts (trim_space (parts ! 1)) w of
             (Inl e, w) \<Rightarrow> respond (writeError E r rw 401 ''invalid_access_token'' (err_text e)) w
           | (Inr identity, w) \<Rightarrow> next (r\<lparr>rq_Identity := Some identity\<rparr>) rw w))"

end
