(* ===== verification/Health.thy ===== *)
theory Health
  imports World
begin

text \<open>
  \<open>internal/service/health_service.go\<close> and \<open>internal/repository/system_repository.go\<close>.
\<close>

record health_status =
  hs_Status :: string
  hs_Timestamp :: instant

definition CurrentTime :: "'r env \<Rightarrow> 'r world \<Rightarrow> instant \<times> 'r world" where
  "CurrentTime E w = time_now E w"

definition Check :: "'r env \<Rightarrow> 'r world \<Rightarrow> health_status \<times> 'r world" where
  "Check E w =
     (case CurrentTime E w of (t, w) \<Rightarrow> (\<lparr>hs_Status = ''ok'', hs_Timestamp = t\<rparr>, w))"

end
