(* ===== verification/Config.thy ===== *)
theory Config
  imports Go_Strings
begin

text \<open>
  \<open>internal/config/config.go\<close>: reading the configuration from the environment, the
  hardening of a production configuration and the checks that stop the process. The
  environment is a function \<open>getenv\<close> (the empty string for an unset variable) as it is
  after \<open>godotenv.Load\<close> has run; a panic is \<open>Inl\<close> of its message.
\<close>

section \<open>The data\<close>

datatype log_level = LevelDebug | LevelInfo | LevelWarn | LevelError

fun level_value :: "log_level \<Rightarrow> int" where
  "level_value LevelDebug = - 4"
| "level_value LevelInfo = 0"
| "level_value LevelWarn = 4"
| "level_value LevelError = 8"

instantiation log_level :: linorder
begin

definition less_eq_log_level :: "log_level \<Rightarrow> log_level \<Rightarrow> bool" where
  "less_eq_log_level a b = (level_value a \<le> level_value b)"

definition less_log_level :: "log_level \<Rightarrow> log_level \<Rightarrow> bool" where
  "less_log_level a b = (level_value a < level_value b)"

instance
proof
  fix a b :: log_level
  show "a \<le> b \<Longrightarrow> b \<le> a \<Longrightarrow> a = b"
    by (cases a; cases b) (simp_all add: less_eq_log_level_def)
qed (auto simp: less_eq_log_level_def less_log_level_def)

end

record config =
  AppEnv :: string
  Port :: string
  AppName :: string
  DBHost :: string
  DBPort :: string
  DBUser :: string
  DBPassword :: string
  DBName :: string
  DBSSLMode :: string
  DatabaseURL :: string
  JWTAccessSecret :: string
  JWTAccessTTLMinutes :: int
  RefreshTokenTTLHours :: int
  JWTIssuer :: string
  JWTAudience :: string
  RedisHost :: string
  RedisPort :: string
  RedisPassword :: string
  RedisDB :: int
  RedisURL :: string
  CookieDomain :: string
  CookieSecure :: bool
  CookieSameSite :: string
  RequestTimeoutSec :: int
  ShutdownTimeoutSec :: int
  TrustProxyHeaders :: bool
  LogLevel :: log_level
  CORSAllowedOrigins :: "string list"
  CORSAllowedMethods :: "string list"
  CORSAllowedHeaders :: "string list"
  CORSAllowCredentials :: bool
  LoginRateLimitRequests :: int
  LoginRateLimitWindowSec :: int
  RegisterRateLimitRequests :: int
  RegisterRateLimitWindowSec :: int
  RefreshRateLimitRequests :: int
  RefreshRateLimitWindowSec :: int
  InstanceName :: string

abbreviation "defaultAppEnv \<equiv> ''development''"
abbreviation "defaultJWTSecret \<equiv> ''change-this-in-production''"

section \<open>Reading variables\<close>

type_synonym getenv = "string \<Rightarrow> string"

definition getEnv :: "getenv \<Rightarrow> string \<Rightarrow> string \<Rightarrow> string" where
  "getEnv os key fallback = (let value = os key in if value = '''' then fallback else value)"

definition getEnvAsInt :: "getenv \<Rightarrow> string \<Rightarrow> int \<Rightarrow> int" where
  "getEnvAsInt os key fallback =
     (let value = os key in
      if value = '''' then fallback
      else case atoi value of None \<Rightarrow> fallback | Some parsedValue \<Rightarrow> parsedValue)"

definition getEnvAsBool :: "getenv \<Rightarrow> string \<Rightarrow> bool \<Rightarrow> bool" where
  "getEnvAsBool os key fallback =
     (let value = os key in
      if value = '''' then fallback
      else case parse_bool value of None \<Rightarrow> fallback | Some parsedValue \<Rightarrow> parsedValue)"

definition getEnvAsCSV :: "getenv \<Rightarrow> string \<Rightarrow> string list" where
  "getEnvAsCSV os key =
     (let value = trim_space (os key) in
      if value = '''' then []
      else filter (\<lambda>trimmed. trimmed \<noteq> '''') (map trim_space (split_on (CHR '','') value)))"

definition getEnvAsCSVWithDefault :: "getenv \<Rightarrow> string \<Rightarrow> string list \<Rightarrow> string list" where
  "getEnvAsCSVWithDefault os key fallback =
     (let values = getEnvAsCSV os key in if length values = 0 then fallback else values)"

definition getEnvAsLogLevel :: "unicode \<Rightarrow> getenv \<Rightarrow> string \<Rightarrow> string \<Rightarrow> log_level" where
  "getEnvAsLogLevel U os key fallback =
     (let level = to_upper U (trim_space (getEnv os key fallback)) in
      if level = ''DEBUG'' then LevelDebug
      else if level = ''WARN'' then LevelWarn
      else if level = ''ERROR'' then LevelError
      else LevelInfo)"

definition normalizeAppEnv :: "unicode \<Rightarrow> string \<Rightarrow> string" where
  "normalizeAppEnv U value =
     (let normalized = to_lower U (trim_space value) in
      if normalized = ''prod'' then ''production''
      else if normalized = ''stage'' then ''staging''
      else if normalized = '''' then defaultAppEnv
      else normalized)"

section \<open>Hardening and validation\<close>

definition applySecureDefaults :: "unicode \<Rightarrow> config \<Rightarrow> config" where
  "applySecureDefaults U cfg =
     (if AppEnv cfg = ''production'' then
        (let cfg = cfg\<lparr>CookieSecure := True\<rparr> in
         if equal_fold U (trim_space (DBSSLMode cfg)) ''disable'' then cfg\<lparr>DBSSLMode := ''require''\<rparr>
         else cfg)
      else cfg)"

definition validate :: "unicode \<Rightarrow> config \<Rightarrow> string + unit" where
  "validate U cfg =
     (if trim_space (JWTAccessSecret cfg) = '''' then Inl ''JWT_ACCESS_SECRET must not be empty''
      else if JWTAccessTTLMinutes cfg \<le> 0 then Inl ''JWT_ACCESS_TTL_MINUTES must be greater than zero''
      else if RefreshTokenTTLHours cfg \<le> 0 then Inl ''REFRESH_TOKEN_TTL_HOURS must be greater than zero''
      else if RequestTimeoutSec cfg \<le> 0 then Inl ''REQUEST_TIMEOUT_SECONDS must be greater than zero''
      else if ShutdownTimeoutSec cfg \<le> 0 then Inl ''SHUTDOWN_TIMEOUT_SECONDS must be greater than zero''
      else if equal_fold U (trim_space (CookieSameSite cfg)) ''none'' \<and> \<not> CookieSecure cfg
        then Inl ''COOKIE_SAMESITE=None requires COOKIE_SECURE=true''
      else if CORSAllowCredentials cfg \<and> length (CORSAllowedOrigins cfg) = 0
        then Inl ''CORS_ALLOW_CREDENTIALS requires explicit CORS_ALLOWED_ORIGINS''
      else if AppEnv cfg = ''production''
          \<and> (JWTAccessSecret cfg = defaultJWTSecret \<or> length (JWTAccessSecret cfg) < 32)
        then Inl ''production requires a strong JWT_ACCESS_SECRET with at least 32 characters''
      else Inr ())"

section \<open>Load\<close>

definition read_config :: "unicode \<Rightarrow> getenv \<Rightarrow> config" where
  "read_config U os =
     \<lparr>AppEnv = normalizeAppEnv U (getEnv os ''APP_ENV'' defaultAppEnv),
      Port = getEnv os ''PORT'' ''8080'',
      AppName = getEnv os ''APP_NAME'' ''auth-service'',
      DBHost = getEnv os ''DB_HOST'' ''localhost'',
      DBPort = getEnv os ''DB_PORT'' ''5432'',
      DBUser = getEnv os ''DB_USER'' ''postgres'',
      DBPassword = getEnv os ''DB_PASSWORD'' ''postgres'',
      DBName = getEnv os ''DB_NAME'' ''auth_service'',
      DBSSLMode = getEnv os ''DB_SSLMODE'' ''disable'',
      DatabaseURL = getEnv os ''DATABASE_URL'' '''',
      JWTAccessSecret = getEnv os ''JWT_ACCESS_SECRET'' defaultJWTSecret,
      JWTAccessTTLMinutes = getEnvAsInt os ''JWT_ACCESS_TTL_MINUTES'' 15,
      RefreshTokenTTLHours = getEnvAsInt os ''REFRESH_TOKEN_TTL_HOURS'' 168,
      JWTIssuer = getEnv os ''JWT_ISSUER'' ''auth-service'',
      JWTAudience = getEnv os ''JWT_AUDIENCE'' ''auth-clients'',
      RedisHost = getEnv os ''REDIS_HOST'' ''localhost'',
      RedisPort = getEnv os ''REDIS_PORT'' ''6379'',
      RedisPassword = getEnv os ''REDIS_PASSWORD'' '''',
      RedisDB = getEnvAsInt os ''REDIS_DB'' 0,
      RedisURL = getEnv os ''REDIS_URL'' '''',
      CookieDomain = getEnv os ''COOKIE_DOMAIN'' '''',
      CookieSecure = getEnvAsBool os ''COOKIE_SECURE'' False,
      CookieSameSite = getEnv os ''COOKIE_SAMESITE'' ''Lax'',
      RequestTimeoutSec = getEnvAsInt os ''REQUEST_TIMEOUT_SECONDS'' 15,
      ShutdownTimeoutSec = getEnvAsInt os ''SHUTDOWN_TIMEOUT_SECONDS'' 10,
      TrustProxyHeaders = getEnvAsBool os ''TRUST_PROXY_HEADERS'' True,
      LogLevel = getEnvAsLogLevel U os ''LOG_LEVEL'' ''INFO'',
      CORSAllowedOrigins = getEnvAsCSV os ''CORS_ALLOWED_ORIGINS'',
      CORSAllowedMethods =
        getEnvAsCSVWithDefault os ''CORS_ALLOWED_METHODS'' [''GET'', ''POST'', ''DELETE'', ''OPTIONS''],
      CORSAllowedHeaders =
        getEnvAsCSVWithDefault os ''CORS_ALLOWED_HEADERS'' [''Authorization'', ''Content-Type''],
      CORSAllowCredentials = getEnvAsBool os ''CORS_ALLOW_CREDENTIALS'' False,
      LoginRateLimitRequests = getEnvAsInt os ''LOGIN_RATE_LIMIT_REQUESTS'' 5,
      LoginRateLimitWindowSec = getEnvAsInt os ''LOGIN_RATE_LIMIT_WINDOW_SECONDS'' 60,
      RegisterRateLimitRequests = getEnvAsInt os ''REGISTER_RATE_LIMIT_REQUESTS'' 3,
      RegisterRateLimitWindowSec = getEnvAsInt os ''REGISTER_RATE_LIMIT_WINDOW_SECONDS'' 60,
      RefreshRateLimitRequests = getEnvAsInt os ''REFRESH_RATE_LIMIT_REQUESTS'' 10,
      RefreshRateLimitWindowSec = getEnvAsInt os ''REFRESH_RATE_LIMIT_WINDOW_SECONDS'' 60,
      InstanceName = getEnv os ''APP_INSTANCE_NAME'' ''app-instance''\<rparr>"

definition Load :: "unicode \<Rightarrow> getenv \<Rightarrow> string + config" where
  "Load U os =
     (let cfg = applySecureDefaults U (read_config U os) in
      case validate U cfg of Inl panic \<Rightarrow> Inl panic | Inr _ \<Rightarrow> Inr cfg)"

section \<open>Properties of the readers\<close>

lemma getEnvAsInt_in_range: "fallback \<in> int64_range \<Longrightarrow> getEnvAsInt os key fallback \<in> int64_range"
  by (auto simp: getEnvAsInt_def atoi_def Let_def split: option.splits if_splits)

lemma getEnvAsInt_itoa: "i \<in> int64_range \<Longrightarrow> os key = itoa i \<Longrightarrow> getEnvAsInt os key fallback = i"
proof -
  assume i: "i \<in> int64_range" "os key = itoa i"
  have "itoa i \<noteq> ''''" using nat_digits_props by (auto simp: itoa_def)
  with i show ?thesis by (simp add: getEnvAsInt_def atoi_itoa)
qed

lemma getEnvAsCSV_entries:
  "e \<in> set (getEnvAsCSV os key) \<Longrightarrow> e \<noteq> '''' \<and> trim_space e = e \<and> CHR '','' \<notin> set e"
proof -
  assume "e \<in> set (getEnvAsCSV os key)"
  then obtain part where "e \<noteq> ''''" "e = trim_space part"
    "part \<in> set (split_on (CHR '','') (trim_space (os key)))"
    by (auto simp: getEnvAsCSV_def Let_def split: if_splits)
  then show ?thesis
    using set_trim_space [of part] split_on_sep_free by fastforce
qed

lemma normalizeAppEnv_not_Nil: "normalizeAppEnv U value \<noteq> ''''"
  by (simp add: normalizeAppEnv_def Let_def)

lemma normalizeAppEnv_fixpoints:
  "normalizeAppEnv U ''production'' = ''production''" "normalizeAppEnv U ''staging'' = ''staging''"
  "normalizeAppEnv U ''development'' = ''development''"
  by (simp_all add: normalizeAppEnv_def trim_space_graphic graphic_def to_lower_def is_ascii_def
      ascii_lower_def)

lemma normalizeAppEnv_idem:
  assumes "is_ascii value"
  shows "normalizeAppEnv U (normalizeAppEnv U value) = normalizeAppEnv U value"
proof -
  let ?n = "to_lower U (trim_space value)"
  have fixp: "to_lower U (trim_space ?n) = ?n"
    using assms by (simp add: trim_to_lower is_ascii_trim)
  consider "?n = ''prod''" | "?n = ''stage''" | "?n = ''''"
    | "?n \<noteq> ''prod''" "?n \<noteq> ''stage''" "?n \<noteq> ''''" by blast
  then show ?thesis
  proof cases
    case 4
    then have "normalizeAppEnv U value = ?n" by (simp add: normalizeAppEnv_def Let_def)
    moreover from 4 have "normalizeAppEnv U ?n = ?n"
      unfolding normalizeAppEnv_def Let_def fixp by simp
    ultimately show ?thesis by simp
  qed (use normalizeAppEnv_fixpoints in \<open>simp_all add: normalizeAppEnv_def [of U value] Let_def\<close>)
qed

section \<open>What a configuration that loads guarantees\<close>

lemma require_not_disable: "\<not> equal_fold U (trim_space ''require'') ''disable''"
  by (simp add: trim_space_graphic graphic_def equal_fold_def is_ascii_def ascii_lower_def)

lemma applySecureDefaults_frame:
  "AppEnv (applySecureDefaults U cfg) = AppEnv cfg"
  "JWTAccessSecret (applySecureDefaults U cfg) = JWTAccessSecret cfg"
  "JWTAccessTTLMinutes (applySecureDefaults U cfg) = JWTAccessTTLMinutes cfg"
  "RefreshTokenTTLHours (applySecureDefaults U cfg) = RefreshTokenTTLHours cfg"
  by (simp_all add: applySecureDefaults_def Let_def)

lemma applySecureDefaults_production:
  "AppEnv cfg = ''production'' \<Longrightarrow> CookieSecure (applySecureDefaults U cfg)
     \<and> \<not> equal_fold U (trim_space (DBSSLMode (applySecureDefaults U cfg))) ''disable''"
  using require_not_disable by (simp add: applySecureDefaults_def Let_def)

lemma applySecureDefaults_idem:
  "applySecureDefaults U (applySecureDefaults U cfg) = applySecureDefaults U cfg"
  using require_not_disable by (simp add: applySecureDefaults_def Let_def)

definition config_ok :: "unicode \<Rightarrow> config \<Rightarrow> bool" where
  "config_ok U cfg \<longleftrightarrow>
     trim_space (JWTAccessSecret cfg) \<noteq> '''' \<and> 0 < JWTAccessTTLMinutes cfg \<and> 0 < RefreshTokenTTLHours cfg
     \<and> 0 < RequestTimeoutSec cfg \<and> 0 < ShutdownTimeoutSec cfg
     \<and> (equal_fold U (trim_space (CookieSameSite cfg)) ''none'' \<longrightarrow> CookieSecure cfg)
     \<and> (CORSAllowCredentials cfg \<longrightarrow> CORSAllowedOrigins cfg \<noteq> [])
     \<and> (AppEnv cfg = ''production'' \<longrightarrow> 32 \<le> length (JWTAccessSecret cfg))"

lemma validate_iff: "is_ok (validate U cfg) \<longleftrightarrow> config_ok U cfg"
proof -
  have "JWTAccessSecret cfg = defaultJWTSecret \<Longrightarrow> length (JWTAccessSecret cfg) < 32" by simp
  then show ?thesis
    unfolding validate_def config_ok_def by (auto simp: not_le)
qed

lemma Load_Inr_iff:
  "Load U os = Inr cfg \<longleftrightarrow> cfg = applySecureDefaults U (read_config U os) \<and> config_ok U cfg"
  unfolding Load_def Let_def validate_iff [symmetric] by (auto split: sum.splits)

end
