(* ===== verification/Handler.thy ===== *)
theory Handler
  imports Middleware Auth_Service Health Config
begin

text \<open>
  \<open>internal/handler\<close>: the HTTP handlers over the services, the cookies, and the routes with
  their middleware chain.
\<close>

record 'r http_server =
  hs_config :: config
  hs_authService :: "'r auth_service"
  hs_tokenService :: token_service

definition NewHandler :: "config \<Rightarrow> 'r auth_service \<Rightarrow> token_service \<Rightarrow> 'r http_server" where
  "NewHandler cfg auth ts = \<lparr>hs_config = cfg, hs_authService = auth, hs_tokenService = ts\<rparr>"

abbreviation refreshTokenCookieName :: string where
  "refreshTokenCookieName \<equiv> ''refresh_token''"

section \<open>Request and cookie helpers\<close>

definition parseSameSite :: "unicode \<Rightarrow> string \<Rightarrow> same_site" where
  "parseSameSite U value =
     (let v = to_lower U (trim_space value) in
      if v = ''strict'' then SameSiteStrictMode
      else if v = ''none'' then SameSiteNoneMode
      else SameSiteLaxMode)"

definition refresh_cookie :: "'r env \<Rightarrow> config \<Rightarrow> string \<Rightarrow> int \<Rightarrow> instant option \<Rightarrow> cookie" where
  "refresh_cookie E cfg value maxAge expires =
     \<lparr>c_Name = refreshTokenCookieName, c_Value = value, c_Path = ''/'', c_Domain = CookieDomain cfg, c_HttpOnly = True,
      c_Secure = CookieSecure cfg, c_SameSite = parseSameSite (unicode_tables E) (CookieSameSite cfg),
      c_MaxAge = maxAge, c_Expires = expires\<rparr>"

definition setRefreshTokenCookie ::
  "'r env \<Rightarrow> config \<Rightarrow> response_writer \<Rightarrow> string \<Rightarrow> 'r world \<Rightarrow> response_writer \<times> 'r world" where
  "setRefreshTokenCookie E cfg rw refreshToken w =
     (case time_now E w of (now, w) \<Rightarrow>
        (SetCookie E (refresh_cookie E cfg refreshToken (wrap64 (RefreshTokenTTLHours cfg * 60 * 60))
           (Some (now + dur_mul (RefreshTokenTTLHours cfg) hour))) rw, w))"

definition clearRefreshTokenCookie :: "'r env \<Rightarrow> config \<Rightarrow> response_writer \<Rightarrow> response_writer" where
  "clearRefreshTokenCookie E cfg rw = SetCookie E (refresh_cookie E cfg '''' (- 1) None) rw"

definition readRefreshTokenCookie :: "http_request \<Rightarrow> err + string" where
  "readRefreshTokenCookie r =
     (case map_of (rq_Cookies r) refreshTokenCookieName of
        None \<Rightarrow> Inl ErrNoCookie
      | Some value \<Rightarrow> let value = trim_space value in if value = '''' then Inl ErrNoCookie else Inr value)"

definition resolveClientIP :: "http_request \<Rightarrow> bool \<Rightarrow> string" where
  "resolveClientIP r trustProxyHeaders =
     (let forwardedFor = trim_space (header_get (rq_Header r) ''X-Forwarded-For'');
          first = trim_space (hd (split_on (CHR '','') forwardedFor)) in
      if trustProxyHeaders \<and> forwardedFor \<noteq> '''' \<and> first \<noteq> '''' then first else trim_space (rq_RemoteAddr r))"

definition requestMetadata :: "config \<Rightarrow> http_request \<Rightarrow> request_metadata" where
  "requestMetadata cfg r =
     (let userAgent = trim_space (header_get (rq_Header r) ''User-Agent'') in
      \<lparr>UserAgent = userAgent, IPAddress = resolveClientIP r (TrustProxyHeaders cfg), DeviceName = userAgent\<rparr>)"

section \<open>Handlers\<close>

definition method_not_allowed :: "'r env \<Rightarrow> 'r handler" where
  "method_not_allowed E r rw w = respond (writeError E r rw 405 ''method_not_allowed'' ''method not allowed'') w"

definition handleRoot :: "'r env \<Rightarrow> 'r http_server \<Rightarrow> 'r handler" where
  "handleRoot E h r rw w =
     (if rq_Method r \<noteq> ''GET'' then method_not_allowed E r rw w
      else respond (writeJSON E rw 200
        (JObj [(''app_name'', JStr (AppName (hs_config h))), (''instance_name'', JStr (InstanceName (hs_config h))),
               (''message'', JStr ''authentication service base is running'')])) w)"

definition handleHealth :: "'r env \<Rightarrow> 'r http_server \<Rightarrow> 'r handler" where
  "handleHealth E h r rw w =
     (if rq_Method r \<noteq> ''GET'' then method_not_allowed E r rw w
      else (case Check E w of (status, w) \<Rightarrow>
        respond (writeJSON E rw 200
          (JObj [(''instance_name'', JStr (InstanceName (hs_config h))), (''status'', JStr (hs_Status status)),
                 (''timestamp'', JTime (hs_Timestamp status))])) w))"

definition handleMe :: "'r env \<Rightarrow> 'r handler" where
  "handleMe E r rw w =
     (if rq_Method r \<noteq> ''GET'' then method_not_allowed E r rw w
      else (case GetAuthIdentity r of
              None \<Rightarrow> respond (writeError E r rw 401 ''unauthorized'' ''unauthorized'') w
            | Some identity \<Rightarrow> respond (writeJSON E rw 200 (me_json identity)) w))"

definition handleSessions :: "'r env \<Rightarrow> 'r http_server \<Rightarrow> 'r handler" where
  "handleSessions E h r rw w =
     (if rq_Method r \<noteq> ''GET'' then method_not_allowed E r rw w
      else (case GetAuthIdentity r of
              None \<Rightarrow> respond (writeError E r rw 401 ''unauthorized'' ''unauthorized'') w
            | Some identity \<Rightarrow>
                (case ListSessions (hs_authService h) (ai_UserID identity) w of
                   (Inl e, w) \<Rightarrow> respond (writeError E r rw 500 ''list_sessions_failed'' ''failed to list sessions'') w
                 | (Inr response, w) \<Rightarrow> respond (writeJSON E rw 200 (sessions_json response)) w)))"

definition handleSessionByID :: "'r env \<Rightarrow> 'r http_server \<Rightarrow> 'r handler" where
  "handleSessionByID E h r rw w =
     (if rq_Method r \<noteq> ''DELETE'' then method_not_allowed E r rw w
      else (case GetAuthIdentity r of
              None \<Rightarrow> respond (writeError E r rw 401 ''unauthorized'' ''unauthorized'') w
            | Some identity \<Rightarrow>
                let sessionID = trim_space (trim_prefix (rq_Path r) ''/auth/sessions/'') in
                if sessionID = '''' then
                  respond (writeError E r rw 400 ''session_id_required'' ''session id is required'') w
                else
                  (case RevokeSession (hs_authService h) (ai_UserID identity) sessionID w of
                     (Inl e, w) \<Rightarrow>
                       respond (writeError E r rw (if e = ErrInvalidRefreshToken then 401 else 500)
                         ''revoke_session_failed'' (err_text e)) w
                   | (Inr response, w) \<Rightarrow> respond (writeJSON E rw 200 (message_json response)) w)))"

text \<open>The part that \<open>handleRegister\<close> and \<open>handleLogin\<close> share word for word: method, body, input.\<close>

definition with_credentials ::
  "'r env \<Rightarrow> (string \<Rightarrow> string \<Rightarrow> 'r handler) \<Rightarrow> 'r handler" where
  "with_credentials E k r rw w =
     (if rq_Method r \<noteq> ''POST'' then method_not_allowed E r rw w
      else (case decode_credentials E (rq_Body r) of
              DecodeEOF \<Rightarrow> respond (writeError E r rw 400 ''request_body_required'' ''request body is required'') w
            | DecodeError \<Rightarrow> respond (writeError E r rw 400 ''invalid_json'' ''invalid JSON request body'') w
            | Decoded request \<Rightarrow>
                let email = trim_space (cr_Email request); password = trim_space (cr_Password request) in
                if email = '''' \<or> password = '''' then
                  respond (writeError E r rw 400 ''email_password_required'' ''email and password are required'') w
                else k email password r rw w))"

definition register_status :: "err \<Rightarrow> int" where
  "register_status e =
     (let statusCode = 500;
          statusCode = (if e = ErrInvalidLoginInput then 400 else statusCode) in
      if e = ErrEmailAlreadyExists then 409 else statusCode)"

definition handleRegister :: "'r env \<Rightarrow> 'r http_server \<Rightarrow> 'r handler" where
  "handleRegister E h = with_credentials E (\<lambda>email password r rw w.
     case Register E (hs_authService h) email password (requestMetadata (hs_config h) r) w of
       (Inl e, w) \<Rightarrow> respond (writeError E r rw (register_status e) ''register_failed'' (err_text e)) w
     | (Inr response, w) \<Rightarrow> respond (writeJSON E rw 201 (register_json response)) w)"

definition login_status :: "err \<Rightarrow> int" where
  "login_status e =
     (let statusCode = 500;
          statusCode = (if e = ErrInvalidLoginInput then 400 else statusCode) in
      if e = ErrInvalidCredentials then 401 else statusCode)"

definition handleLogin :: "'r env \<Rightarrow> 'r http_server \<Rightarrow> 'r handler" where
  "handleLogin E h = with_credentials E (\<lambda>email password r rw w.
     case Login E (hs_authService h) email password (requestMetadata (hs_config h) r) w of
       (Inl e, w) \<Rightarrow> respond (writeError E r rw (login_status e) ''login_failed'' (err_text e)) w
     | (Inr response, w) \<Rightarrow>
         (case setRefreshTokenCookie E (hs_config h) rw (tr_RefreshToken response) w of (rw, w) \<Rightarrow>
            respond (writeJSON E rw 200 (token_json response)) w))"

definition refresh_status :: "err \<Rightarrow> int" where
  "refresh_status e =
     (let statusCode = 500;
          statusCode = (if e = ErrInvalidRefreshToken then 401 else statusCode) in
      if e = ErrRefreshTokenReuseDetected then 401 else statusCode)"

definition handleRefresh :: "'r env \<Rightarrow> 'r http_server \<Rightarrow> 'r handler" where
  "handleRefresh E h r rw w =
     (if rq_Method r \<noteq> ''POST'' then method_not_allowed E r rw w
      else (case readRefreshTokenCookie r of
              Inl e \<Rightarrow>
                respond (writeError E r rw 401 ''invalid_refresh_cookie'' ''missing or invalid refresh token cookie'') w
            | Inr refreshToken \<Rightarrow>
                (case RefreshAccessToken E (hs_authService h) refreshToken (requestMetadata (hs_config h) r) w of
                   (Inl e, w) \<Rightarrow> respond (writeError E r rw (refresh_status e) ''refresh_failed'' (err_text e)) w
                 | (Inr response, w) \<Rightarrow>
                     (case setRefreshTokenCookie E (hs_config h) rw (tr_RefreshToken response) w of (rw, w) \<Rightarrow>
                        respond (writeJSON E rw 200 (token_json response)) w))))"

definition handleLogout :: "'r env \<Rightarrow> 'r http_server \<Rightarrow> 'r handler" where
  "handleLogout E h r rw w =
     (if rq_Method r \<noteq> ''POST'' then method_not_allowed E r rw w
      else
        let refreshToken = (case readRefreshTokenCookie r of Inl e \<Rightarrow> '''' | Inr value \<Rightarrow> value) in
        (case Logout E (hs_authService h) refreshToken (requestMetadata (hs_config h) r) w of
           (Inl e, w) \<Rightarrow> respond (writeError E r rw 500 ''logout_failed'' ''failed to logout'') w
         | (Inr response, w) \<Rightarrow>
             respond (writeJSON E (clearRefreshTokenCookie E (hs_config h) rw) 200 (message_json response)) w))"

definition handleLogoutAll :: "'r env \<Rightarrow> 'r http_server \<Rightarrow> 'r handler" where
  "handleLogoutAll E h r rw w =
     (if rq_Method r \<noteq> ''POST'' then method_not_allowed E r rw w
      else (case GetAuthIdentity r of
              None \<Rightarrow> respond (writeError E r rw 401 ''unauthorized'' ''unauthorized'') w
            | Some identity \<Rightarrow>
                (case LogoutAll E (hs_authService h) (ai_UserID identity) (requestMetadata (hs_config h) r) w of
                   (Inl e, w) \<Rightarrow>
                     respond (writeError E r rw 500 ''logout_all_failed'' ''failed to logout from all devices'') w
                 | (Inr response, w) \<Rightarrow>
                     respond (writeJSON E (clearRefreshTokenCookie E (hs_config h) rw) 200 (message_json response)) w)))"

section \<open>Routes\<close>

text \<open>
  \<open>http.ServeMux\<close>: the cleaned path, the redirect to it, and the registered patterns. The
  redirect looks at the path as it was sent, the patterns at the decoded one (\<open>ServeMux\<close>
  decodes segment by segment, so a \<open>%2F\<close> within a segment is dispatched differently).
\<close>

fun clean_segments :: "string list \<Rightarrow> string list \<Rightarrow> string list" where
  "clean_segments acc [] = rev acc"
| "clean_segments acc (s # ss) =
     (if s = '''' \<or> s = ''.'' then clean_segments acc ss
      else if s = ''..'' then clean_segments (tl acc) ss
      else clean_segments (s # acc) ss)"

definition clean_path :: "string \<Rightarrow> string" where
  "clean_path p =
     (if p = '''' then ''/''
      else let np = ''/'' @ join ''/'' (clean_segments [] (split_on (CHR ''/'') p)) in
        if last p = CHR ''/'' \<and> np \<noteq> ''/'' then np @ ''/'' else np)"

definition mux_redirect :: "'r env \<Rightarrow> string \<Rightarrow> 'r handler" where
  "mux_redirect E path r rw w =
     (case redirect_text E path of (location, page) \<Rightarrow>
        let rw = set_header ''Location'' location rw;
            rw = (if rq_Method r = ''GET'' \<or> rq_Method r = ''HEAD''
                  then set_header ''Content-Type'' ''text/html; charset=utf-8'' rw else rw);
            rw = WriteHeader 301 rw in
        respond (if rq_Method r = ''GET'' then Write page rw else rw) w)"

definition rate_limited :: "'r env \<Rightarrow> string \<Rightarrow> int \<Rightarrow> int \<Rightarrow> 'r middleware" where
  "rate_limited E scope requests windowSec = RateLimit E scope requests (dur_mul windowSec second)"

definition mux_handler :: "'r env \<Rightarrow> 'r http_server \<Rightarrow> string \<Rightarrow> 'r handler" where
  "mux_handler E h path =
     (let cfg = hs_config h; auth = RequireAuth E (hs_tokenService h) in
      if path = ''/health'' then handleHealth E h
      else if path = ''/auth/register'' then
        rate_limited E ''register'' (RegisterRateLimitRequests cfg) (RegisterRateLimitWindowSec cfg) (handleRegister E h)
      else if path = ''/auth/login'' then
        rate_limited E ''login'' (LoginRateLimitRequests cfg) (LoginRateLimitWindowSec cfg) (handleLogin E h)
      else if path = ''/auth/refresh'' then
        rate_limited E ''refresh'' (RefreshRateLimitRequests cfg) (RefreshRateLimitWindowSec cfg) (handleRefresh E h)
      else if path = ''/auth/logout'' then handleLogout E h
      else if path = ''/auth/logout-all'' then auth (handleLogoutAll E h)
      else if path = ''/auth/sessions'' then auth (handleSessions E h)
      else if has_prefix path ''/auth/sessions/'' then auth (handleSessionByID E h)
      else if path = ''/auth/me'' then auth (handleMe E)
      else handleRoot E h)"

definition ServeMux :: "'r env \<Rightarrow> 'r http_server \<Rightarrow> 'r handler" where
  "ServeMux E h r rw w =
     (let path = clean_path (rq_EscapedPath r) in
      if rq_Method r \<noteq> ''CONNECT'' \<and> path \<noteq> rq_EscapedPath r then mux_redirect E path r rw w
      else mux_handler E h (rq_Path r) r rw w)"

definition known_route :: "string \<Rightarrow> bool" where
  "known_route path \<longleftrightarrow>
     \<not> (\<not> has_prefix path ''/auth/sessions/'' \<and> path \<noteq> ''/'' \<and> path \<noteq> ''/health'' \<and> path \<noteq> ''/auth/login''
        \<and> path \<noteq> ''/auth/register'' \<and> path \<noteq> ''/auth/refresh'' \<and> path \<noteq> ''/auth/logout''
        \<and> path \<noteq> ''/auth/logout-all'' \<and> path \<noteq> ''/auth/sessions'' \<and> path \<noteq> ''/auth/me'')"

definition route_filter :: "'r env \<Rightarrow> 'r http_server \<Rightarrow> 'r handler" where
  "route_filter E h r rw w =
     (if \<not> known_route (rq_Path r) then respond (writeError E r rw 404 ''route_not_found'' ''route not found'') w
      else ServeMux E h r rw w)"

text \<open>The chain \<open>Routes\<close> returns, around any innermost handler, and \<open>Routes\<close> itself.\<close>

definition route_chain :: "'r env \<Rightarrow> config \<Rightarrow> 'r handler \<Rightarrow> 'r handler" where
  "route_chain E cfg handler =
     Chain handler
       [RequestID E, InstanceHeader (InstanceName cfg), SecurityHeaders,
        CORS E (CORSAllowedOrigins cfg) (CORSAllowedMethods cfg) (CORSAllowedHeaders cfg) (CORSAllowCredentials cfg),
        RequestLogger E, Timeout E (dur_mul (RequestTimeoutSec cfg) second), Recoverer E]"

definition Routes :: "'r env \<Rightarrow> 'r http_server \<Rightarrow> 'r handler" where
  "Routes E h = route_chain E (hs_config h) (route_filter E h)"

end
