(* ===== verification/Server.thy ===== *)
theory Server
  imports Handler
begin

text \<open>
  \<open>internal/database\<close> and \<open>cmd/server/main.go\<close>: connecting, wiring and starting. The drivers
  are parameters: what \<open>sql.Open\<close> and \<open>Ping\<close> answer for a connection string, what
  \<open>redis.ParseURL\<close> makes of a URL and whether the Redis it names answers, and how \<open>Shutdown\<close> ends.
  Log lines are not modelled.
\<close>

record redis_options =
  ro_Addr :: string
  ro_Password :: string
  ro_DB :: int

record drivers =
  pg_open :: "string \<Rightarrow> err option"
  pg_ping :: "string \<Rightarrow> err option"
  redis_ParseURL :: "string \<Rightarrow> err + redis_options"
  redis_ping :: "redis_options \<Rightarrow> err option"

definition postgres_dsn :: "config \<Rightarrow> string" where
  "postgres_dsn cfg =
     (if DatabaseURL cfg \<noteq> '''' then DatabaseURL cfg
      else ''host='' @ DBHost cfg @ '' port='' @ DBPort cfg @ '' user='' @ DBUser cfg @ '' password='' @ DBPassword cfg
        @ '' dbname='' @ DBName cfg @ '' sslmode='' @ DBSSLMode cfg)"

text \<open>The pool as it is configured before the first ping.\<close>

record postgres_pool =
  pool_dsn :: string
  pool_MaxOpenConns :: int
  pool_MaxIdleConns :: int
  pool_ConnMaxLifetime :: duration
  pool_ConnMaxIdleTime :: duration

definition NewPostgresConnection :: "drivers \<Rightarrow> config \<Rightarrow> err + postgres_pool" where
  "NewPostgresConnection D cfg =
     (let dsn = postgres_dsn cfg in
      case pg_open D dsn of
        Some e \<Rightarrow> Inl e
      | None \<Rightarrow>
          let db = \<lparr>pool_dsn = dsn, pool_MaxOpenConns = 25, pool_MaxIdleConns = 25,
                    pool_ConnMaxLifetime = 5 * minute, pool_ConnMaxIdleTime = 5 * minute\<rparr> in
          (case pg_ping D dsn of Some e \<Rightarrow> Inl e | None \<Rightarrow> Inr db))"

definition NewRedisClient :: "drivers \<Rightarrow> config \<Rightarrow> err + redis_options" where
  "NewRedisClient D cfg =
     (let options = \<lparr>ro_Addr = RedisHost cfg @ '':'' @ RedisPort cfg, ro_Password = RedisPassword cfg, ro_DB = RedisDB cfg\<rparr> in
      case (if RedisURL cfg \<noteq> '''' then redis_ParseURL D (RedisURL cfg) else Inr options) of
        Inl e \<Rightarrow> Inl e
      | Inr options \<Rightarrow> (case redis_ping D options of Some e \<Rightarrow> Inl e | None \<Rightarrow> Inr options))"

section \<open>main\<close>

record 'r server =
  srv_Addr :: string
  srv_Handler :: "'r handler"
  srv_ReadHeaderTimeout :: duration
  srv_ReadTimeout :: duration
  srv_WriteTimeout :: duration
  srv_IdleTimeout :: duration

datatype 'r started = Panic string | Exit int string | Serving "'r server"

definition main_tokens :: "config \<Rightarrow> token_service" where
  "main_tokens cfg =
     NewTokenService (JWTAccessSecret cfg) (JWTAccessTTLMinutes cfg) (RefreshTokenTTLHours cfg) (JWTIssuer cfg) (JWTAudience cfg)"

definition main_handler :: "'r env \<Rightarrow> config \<Rightarrow> 'r http_server" where
  "main_handler E cfg = NewHandler cfg (auth_wiring E (main_tokens cfg)) (main_tokens cfg)"

definition main_server :: "'r env \<Rightarrow> config \<Rightarrow> 'r server" where
  "main_server E cfg =
     \<lparr>srv_Addr = ''0.0.0.0:'' @ Port cfg, srv_Handler = Routes E (main_handler E cfg),
      srv_ReadHeaderTimeout = 5 * second, srv_ReadTimeout = 10 * second, srv_WriteTimeout = 10 * second,
      srv_IdleTimeout = 60 * second\<rparr>"

definition main :: "'r env \<Rightarrow> drivers \<Rightarrow> getenv \<Rightarrow> 'r started" where
  "main E D os =
     (case Load (unicode_tables E) os of
        Inl message \<Rightarrow> Panic message
      | Inr cfg \<Rightarrow>
          (case NewPostgresConnection D cfg of
             Inl e \<Rightarrow> Exit 1 ''database connection failed''
           | Inr db \<Rightarrow>
               (case NewRedisClient D cfg of
                  Inl e \<Rightarrow> Exit 1 ''redis connection failed''
                | Inr redisClient \<Rightarrow> Serving (main_server E cfg))))"

text \<open>
  What happens to a process that serves: \<open>ListenAndServe\<close> returns in its goroutine (None is
  \<open>http.ErrServerClosed\<close>), or SIGINT or SIGTERM arrives and \<open>Shutdown\<close> gets the grace period.
\<close>

datatype process_event = ListenAndServe_returned "err option" | Quit_signal

datatype process_state = Running | Exited int string | Stopped string

fun run_process :: "(duration \<Rightarrow> err option) \<Rightarrow> config \<Rightarrow> process_event list \<Rightarrow> process_state" where
  "run_process shutdown cfg [] = Running"
| "run_process shutdown cfg (ListenAndServe_returned None # es) = run_process shutdown cfg es"
| "run_process shutdown cfg (ListenAndServe_returned (Some e) # es) = Exited 1 ''server failed''"
| "run_process shutdown cfg (Quit_signal # es) =
     (case shutdown (dur_mul (ShutdownTimeoutSec cfg) second) of
        Some e \<Rightarrow> Exited 1 ''graceful shutdown failed''
      | None \<Rightarrow> Stopped ''server stopped cleanly'')"

end
