(* ===== verification/Sample.thy ===== *)
theory Sample
  imports Availability Server
begin

text \<open>
  A concrete environment in which the hypotheses of the properties hold, for the witnesses:
  the Redis of \<open>mem_redis\<close>, a database without faults, a clock that ticks once a second,
  identifiers, random bytes and hashes that can be read off. The codec of the token records
  checks itself, so that it obeys \<open>codec_laws\<close> by construction.
\<close>

section \<open>A codec\<close>

primrec bits :: "nat \<Rightarrow> int \<Rightarrow> string" where
  "bits 0 x = []"
| "bits (Suc n) x = (if x mod 2 = 1 then CHR ''1'' else CHR ''0'') # bits n (x div 2)"

fun unbits :: "string \<Rightarrow> int" where
  "unbits [] = 0"
| "unbits (c # cs) = (if c = CHR ''1'' then 1 else 0) + 2 * unbits cs"

definition sample_unmarshal :: "string \<Rightarrow> err + refresh_token_record" where
  "sample_unmarshal s =
     (case split_on (CHR ''|'') s of
        [u, i, st, c, x] \<Rightarrow>
          Inr \<lparr>r_UserID = u, r_SessionID = i, r_Status = st, r_CreatedAt = unbits c * second, r_ExpiresAt = unbits x * second\<rparr>
      | _ \<Rightarrow> Inl (OtherErr ''json''))"

definition sample_text :: "refresh_token_record \<Rightarrow> string" where
  "sample_text r =
     join ''|'' [r_UserID r, r_SessionID r, r_Status r, bits 13 (r_CreatedAt r div second), bits 13 (r_ExpiresAt r div second)]"

definition sample_marshal :: "refresh_token_record \<Rightarrow> err + string" where
  "sample_marshal r =
     (let s = sample_text r in if sample_unmarshal s = Inr r then Inr s else Inl (OtherErr ''json''))"

section \<open>The environment\<close>

definition sample_jwt :: jwt_lib where
  "sample_jwt =
     \<lparr>jwt_SignedString = (\<lambda>m c key. Inr ''jwt''),
      jwt_Parse = (\<lambda>opts kf t tok. Inl (OtherErr ''jwt'')),
      jwt_GetSubject = (\<lambda>c. Inl (OtherErr ''jwt''))\<rparr>"

definition sample_unicode :: unicode where
  "sample_unicode = \<lparr>uni_lower = (\<lambda>s. s), uni_upper = (\<lambda>s. s), uni_equal_fold = (\<lambda>s t. s = t)\<rparr>"

definition sample_env :: "keyspace env" where
  "sample_env =
     \<lparr>clock = (\<lambda>n. int n * second),
      uuid_gen = (\<lambda>n. CHR ''i'' # replicate n (CHR ''i'')),
      rand_gen = (\<lambda>n. Inr (replicate n (CHR 0x00))),
      redis = mem_redis,
      pg_fault = (\<lambda>n. None), pg_uuid = Inr, pg_varchar = (\<lambda>n s. None), pg_text = (\<lambda>s. None),
      pg_jsonb = (\<lambda>obj. None), pg_time = (\<lambda>t. t), pg_msg = (\<lambda>code. code),
      bcrypt_generate = (\<lambda>n p. Inr (''h:'' @ p)),
      bcrypt_compare = (\<lambda>h p. if h = ''h:'' @ p then None else Some (OtherErr ''mismatch'')),
      jwt = sample_jwt, marshal_record = sample_marshal, unmarshal_record = sample_unmarshal,
      decode_credentials = (\<lambda>s. if s = '''' then DecodeEOF else Decoded \<lparr>cr_Email = s, cr_Password = ''p''\<rparr>),
      encode_json = (\<lambda>j. Inr (concat (json_strings j))), cookie_text = c_Value, redirect_text = (\<lambda>p. (p, p)),
      deadline_passes = (\<lambda>d n. False), unicode_tables = sample_unicode\<rparr>"

abbreviation sample_tokens :: token_service where
  "sample_tokens \<equiv> NewTokenService ''secret'' 15 1 ''iss'' ''aud''"

abbreviation sample_auth :: "keyspace auth_service" where
  "sample_auth \<equiv> auth_wiring sample_env sample_tokens"

abbreviation sample_meta :: request_metadata where
  "sample_meta \<equiv> \<lparr>UserAgent = ''ua'', IPAddress = ''ip'', DeviceName = ''dev''\<rparr>"

text \<open>One user with one session and one refresh token in a given state, valid for an hour.\<close>

definition sample_token :: "string \<Rightarrow> refresh_token" where
  "sample_token st =
     \<lparr>rt_Token = ''t'', rt_UserID = ''u'', rt_SessionID = ''s'', rt_Status = st, rt_ExpiresAt = 3600 * second, rt_CreatedAt = 0\<rparr>"

definition sample_keys :: "string \<Rightarrow> keyspace" where
  "sample_keys st =
     [redisRefreshTokenKey ''t'' \<mapsto> (VStr (sample_text (record_of (sample_token st))), Some (3600 * second)),
      redisUserRefreshTokensKey ''u'' \<mapsto> (VSet [''t''], None),
      redisSessionRefreshTokensKey ''s'' \<mapsto> (VSet [''t''], None)]"

definition sample_world :: "string \<Rightarrow> string \<Rightarrow> keyspace world" where
  "sample_world st sst =
     \<lparr>tick = 0, redis_db = sample_keys st,
      users = [\<lparr>u_ID = ''u'', u_Email = ''e'', u_HashedPassword = ''h:p'', u_IsEmailVerified = False, u_CreatedAt = 0, u_UpdatedAt = 0\<rparr>],
      sessions = [\<lparr>s_ID = ''s'', s_UserID = ''u'', s_DeviceName = ''dev'', s_IPAddress = ''ip'', s_Status = sst,
                   s_CreatedAt = 0, s_LastUsedAt = 0\<rparr>],
      audit_logs = [], access_log = []\<rparr>"

section \<open>The hypotheses hold\<close>

lemma sample_laws:
  "token_laws sample_env" "pg_laws sample_env" "library_errors sample_env" "bcrypt_laws sample_env"
proof -
  have "clock_laws sample_env" by (simp add: clock_laws_def sample_env_def)
  moreover have "redis_laws (redis sample_env)" by (simp add: sample_env_def mem_redis_laws)
  moreover have "external e" if "sample_unmarshal s = Inl e" for s e
    using that by (auto simp: sample_unmarshal_def split: list.splits)
  then have "codec_laws sample_env"
    by (auto simp: codec_laws_def sample_env_def sample_marshal_def Let_def split: if_splits)
  ultimately show "token_laws sample_env" by (simp add: token_laws_def)
  show "pg_laws sample_env" by (simp add: pg_laws_def sample_env_def)
  show "library_errors sample_env" by (simp add: library_errors_def sample_env_def sample_jwt_def)
  show "bcrypt_laws sample_env" by (simp add: bcrypt_laws_def sample_env_def)
qed

lemma sample_decodes:
  "sample_unmarshal (sample_text (record_of (sample_token ''ACTIVE''))) = Inr (record_of (sample_token ''ACTIVE''))"
  "sample_unmarshal (sample_text (record_of (sample_token ''USED''))) = Inr (record_of (sample_token ''USED''))"
  "sample_unmarshal (sample_text (record_of (sample_token ''REVOKED''))) = Inr (record_of (sample_token ''REVOKED''))"
  by code_simp+

lemma sample_kspace [simp]: "kspace sample_env (sample_world st sst) = sample_keys st"
  by (simp add: kspace_def sample_env_def sample_world_def mem_redis_def)

lemma sample_token_inv:
  assumes "st \<in> {''ACTIVE'', ''USED'', ''REVOKED''}"
  shows "token_inv sample_env (sample_world st sst)"
proof -
  have "sample_unmarshal (sample_text (record_of (sample_token st))) = Inr (record_of (sample_token st))"
    using assms sample_decodes by blast
  then have "keyspace_ok sample_env (sample_keys st)"
    by (auto simp: keyspace_ok_def sample_keys_def sample_env_def) (simp_all add: record_of_def sample_token_def)
  then show ?thesis using sample_laws(1) by (simp add: token_inv_def)
qed

lemma sample_kept:
  assumes "st \<in> {''ACTIVE'', ''USED'', ''REVOKED''}"
  shows "kept_tokens sample_env (sample_world st sst) ''t'' = Some (sample_token st)"
proof -
  have "sample_unmarshal (sample_text (record_of (sample_token st))) = Inr (record_of (sample_token st))"
    using assms sample_decodes by blast
  moreover have "token_of ''t'' (record_of (sample_token st)) = sample_token st" by (simp add: sample_token_def)
  ultimately show ?thesis by (simp add: kept_tokens_def sample_keys_def) (simp add: sample_env_def)
qed

lemma sample_sql_ok: "sst \<in> {''ACTIVE'', ''REVOKED''} \<Longrightarrow> sql_ok sample_env (sample_world st sst)"
proof -
  have "normal_email sample_env ''e'' = ''e''" by code_simp
  then have "''e'' \<in> range (normal_email sample_env)" by (metis rangeI)
  moreover have "pg_uuid sample_env = Inr" by (simp add: sample_env_def)
  ultimately show "sst \<in> {''ACTIVE'', ''REVOKED''} \<Longrightarrow> sql_ok sample_env (sample_world st sst)"
    using sample_laws(2) by (simp add: sql_ok_def pg_users.well_formed_def sample_world_def)
qed

lemma sample_never_drawn: "never_drawn sample_env n ''t''"
proof -
  have "raw_url_encode bytes \<noteq> ''t''" for bytes
  proof
    assume "raw_url_encode bytes = ''t''"
    then have "(4 * length bytes + 2) div 3 = 1" using raw_url_encode_length [of bytes] by simp
    then show False by presburger
  qed
  then show ?thesis by (simp add: never_drawn_def)
qed

lemma ok_result: "is_ok (fst x) \<Longrightarrow> \<exists>y w. x = (Inr y, w)"
  by (cases x) (auto simp: is_ok_iff)

text \<open>A chain of calls that is known to succeed, one call at a time.\<close>

lemma ok_chain: "(case x of (Inl e, w) \<Rightarrow> False | (Inr y, w) \<Rightarrow> P y w) \<Longrightarrow> \<exists>y w. x = (Inr y, w) \<and> P y w"
  by (auto split: prod.splits sum.splits)

section \<open>Nothing fails\<close>

lemma unbits_bits: "0 \<le> x \<Longrightarrow> x < 2 ^ n \<Longrightarrow> unbits (bits n x) = x"
proof (induction n arbitrary: x)
  case (Suc n)
  then have "unbits (bits n (x div 2)) = x div 2" by simp
  moreover have "x mod 2 + 2 * (x div 2) = x" by simp
  ultimately show ?case by (cases "x mod 2 = 1") auto
qed simp

lemma bits_free: "CHR ''|'' \<notin> set (bits n x)"
  by (induction n arbitrary: x) auto

lemma sample_marshals:
  assumes "CHR ''|'' \<notin> set u" and "CHR ''|'' \<notin> set i" and "CHR ''|'' \<notin> set st" and "0 \<le> c" and "c < 8192" and "0 \<le> x" and "x < 8192"
  shows "is_ok (marshal_record sample_env
    \<lparr>r_UserID = u, r_SessionID = i, r_Status = st, r_CreatedAt = c * second, r_ExpiresAt = x * second\<rparr>)"
proof -
  have "split_on (CHR ''|'') (u @ CHR ''|'' # i @ CHR ''|'' # st @ CHR ''|'' # bits 13 c @ CHR ''|'' # bits 13 x)
      = [u, i, st, bits 13 c, bits 13 x]"
    using assms(1-3) by (simp add: split_on_append split_on_free bits_free del: bits.simps)
  moreover have "unbits (bits 13 c) = c" "unbits (bits 13 x) = x" using assms(4-7) by (simp_all add: unbits_bits del: bits.simps)
  ultimately show ?thesis
    by (simp add: sample_env_def sample_marshal_def sample_text_def sample_unmarshal_def Let_def del: bits.simps)
qed

lemma sample_undisturbed: "m \<le> n \<Longrightarrow> n < m + 3600 \<Longrightarrow> undisturbed sample_env m n"
  by (simp add: undisturbed_def sample_env_def mem_redis_up)

lemma sample_issuable:
  assumes "CHR ''|'' \<notin> set u" and "CHR ''|'' \<notin> set i" and "n < 4000"
  shows "issuable sample_env sample_tokens u i m n"
proof -
  have "is_ok (marshal_record sample_env \<lparr>r_UserID = u, r_SessionID = i, r_Status = ''ACTIVE'',
      r_CreatedAt = int k * second, r_ExpiresAt = (int k + 3600) * second\<rparr>)" if "k < n" for k
    using that assms by (intro sample_marshals) simp_all
  then show ?thesis
    by (simp add: issuable_def NewTokenService_def sample_env_def algebra_simps)
qed

lemma sample_storable: "CHR ''|'' \<notin> set st \<Longrightarrow> storable sample_env (set_status st (sample_token st'))"
  using sample_marshals [of "''u''" "''s''" st 0 3600]
  by (simp add: storable_def record_of_def sample_token_def set_status_def)

lemma sample_signs: "signable sample_env ts u em m n" "metadata_fits sample_env md"
  by (simp_all add: signable_def metadata_fits_def sample_env_def sample_jwt_def)

section \<open>The operations succeed\<close>

abbreviation sample_active :: "keyspace world" where
  "sample_active \<equiv> sample_world ''ACTIVE'' ''ACTIVE''"

lemma sample_refresh: "is_ok (fst (RefreshAccessToken sample_env sample_auth ''t'' sample_meta sample_active))"
  by code_simp

lemma sample_reuse:
  "fst (RefreshAccessToken sample_env sample_auth ''t'' sample_meta (sample_world ''USED'' ''ACTIVE'')) = Inl ErrRefreshTokenReuseDetected"
  by code_simp

lemma sample_logout: "is_ok (fst (Logout sample_env sample_auth ''t'' sample_meta sample_active))"
  by code_simp

lemma sample_logout_all: "is_ok (fst (LogoutAll sample_env sample_auth ''u'' sample_meta sample_active))"
  by code_simp

lemma sample_revoke: "is_ok (fst (RevokeSession sample_auth ''u'' ''s'' sample_active))"
  by code_simp

lemma sample_list: "is_ok (fst (ListSessions sample_auth ''u'' sample_active))"
  by code_simp

lemma sample_login: "is_ok (fst (Login sample_env sample_auth ''E'' ''p '' sample_meta sample_active))"
  by code_simp

lemma sample_login_refused:
  "fst (Login sample_env sample_auth ''e'' ''q'' sample_meta sample_active) = Inl ErrInvalidCredentials"
  by code_simp

lemma sample_register: "is_ok (fst (Register sample_env sample_auth ''A'' ''p'' sample_meta sample_active))"
  by code_simp

lemma sample_trim [simp]: "trim_space ''t'' = ''t''" "trim_space ''u'' = ''u''" "trim_space ''s'' = ''s''" "trim_space ''e'' = ''e''"
  "trim_space ''p'' = ''p''" "trim_space ''E'' = ''E''" "trim_space ''p '' = ''p''" "trim_space ''A'' = ''A''" "trim_space ''v'' = ''v''"
  by code_simp+

lemma sample_invs [simp]:
  "token_inv sample_env (sample_world ''ACTIVE'' sst)" "token_inv sample_env (sample_world ''USED'' sst)"
  "token_inv sample_env (sample_world ''REVOKED'' sst)"
  by (rule sample_token_inv, simp)+

lemma sample_kepts [simp]:
  "kept_tokens sample_env (sample_world ''ACTIVE'' sst) ''t'' = Some (sample_token ''ACTIVE'')"
  "kept_tokens sample_env (sample_world ''USED'' sst) ''t'' = Some (sample_token ''USED'')"
  "kept_tokens sample_env (sample_world ''REVOKED'' sst) ''t'' = Some (sample_token ''REVOKED'')"
  by (rule sample_kept, simp)+

lemma sample_sqls [simp]: "sql_ok sample_env (sample_world st ''ACTIVE'')" "sql_ok sample_env (sample_world st ''REVOKED'')"
  by (rule sample_sql_ok, simp)+

lemma sample_uuid [simp]: "pg_uuid sample_env = Inr"
  by (simp add: sample_env_def)

lemma sample_interleaved:
  "case refresh_check sample_env sample_auth ''t'' sample_meta sample_active of
     (Inl e, w1) \<Rightarrow> False
   | (Inr f, w1) \<Rightarrow> (case refresh_check sample_env sample_auth ''t'' sample_meta w1 of
       (Inl e, w2) \<Rightarrow> False
     | (Inr f', w2) \<Rightarrow> fst f = sample_token ''ACTIVE'' \<and> u_ID (fst (snd f)) = ''u'' \<and> tick w2 = 10
         \<and> deadline (kspace sample_env w2) (redisRefreshTokenKey ''t'') = Some (3600 * second))"
  by code_simp

lemma sample_in_flight:
  "case refresh_check sample_env sample_auth ''t'' sample_meta sample_active of
     (Inl e, w1) \<Rightarrow> False
   | (Inr f, w1) \<Rightarrow> (case LogoutAll sample_env sample_auth ''u'' sample_meta w1 of
       (Inl e, w2) \<Rightarrow> False
     | (Inr q, w2) \<Rightarrow> fst f = sample_token ''ACTIVE'' \<and> u_ID (fst (snd f)) = ''u'' \<and> tick w2 < 100
         \<and> (case deadline (kspace sample_env w2) (redisRefreshTokenKey ''t'') of None \<Rightarrow> False | Some d \<Rightarrow> 1000 * second < d))"
  by code_simp

lemma sample_logout_rotated:
  "case RefreshAccessToken sample_env sample_auth ''t'' sample_meta sample_active of
     (Inl e, w1) \<Rightarrow> False
   | (Inr r, w1) \<Rightarrow> (case Logout sample_env sample_auth ''t'' sample_meta w1 of
       (Inl e, w2) \<Rightarrow> False
     | (Inr q, w2) \<Rightarrow> tr_RefreshToken r \<noteq> ''t''
         \<and> is_ok (fst (RefreshAccessToken sample_env sample_auth (tr_RefreshToken r) sample_meta w2)))"
  by code_simp

end
