(* ===== verification/Auth_Properties.thy ===== *)
theory Auth_Properties
  imports Sample
begin

text \<open>
  The properties of \<open>AuthService\<close> on the repositories of \<open>main\<close>, written out over the
  tables and the keyspace.
\<close>

text \<open>What can never again be exchanged for new tokens.\<close>

definition spent_for_good :: "'r env \<Rightarrow> 'r world \<Rightarrow> string \<Rightarrow> bool" where
  "spent_for_good E w t \<longleftrightarrow> token_gone E w t
     \<or> (\<forall>rt. kept_tokens E w t = Some rt \<longrightarrow> rt_Status rt \<notin> {''ACTIVE'', ''USED''})"

lemma spent_for_good_iff: "spent_for_good E w t \<longleftrightarrow> redis_cells.retired E w t"
  by (auto simp: spent_for_good_def redis_cells.retired_def unspendable_def spendable_def split: option.splits)

text \<open>Runs keep what is spent spent, and what is revoked revoked.\<close>

lemma spent_lasts:
  assumes "token_inv E w" and "spent_for_good E w t" and "never_drawn E (tick w) t"
    and "auth_run E (auth_wiring E ts) w w'"
  shows "token_inv E w' \<and> spent_for_good E w' t"
  using auth_main.lasting.run_steady [OF assms(4), of t] assms(1-3)
  by (auto simp: auth_main.advances_def spent_for_good_iff)

lemma spent_refused:
  assumes "token_inv E w" and "spent_for_good E w (trim_space v)"
  shows "\<not> is_ok (fst (RefreshAccessToken E (auth_wiring E ts) v m w))"
  using auth_main.refresh_refused assms by (simp add: spent_for_good_iff)

lemma revoked_session_lasts:
  assumes ok: "sql_ok E w" and x: "x \<in> set (sessions w)" and revoked: "s_Status x = ''REVOKED''"
    and run: "auth_run E (auth_wiring E ts) w w'"
  shows "\<exists>y \<in> set (sessions w'). s_ID y = s_ID x \<and> s_Status y = ''REVOKED''"
proof -
  have "s_Status y = ''REVOKED''" if "y \<in> set (sessions w)" "s_ID y = s_ID x" for y
    using that ok x revoked by (metis sql_ok_def distinct_map inj_onD)
  then have "pg_sessions.dead E (s_ID x) w"
    using ok x unfolding pg_sessions.dead_def pg_sessions.revoked_def
    by (auto simp: sql_ok_def has_session_id_def)
  then have "pg_sessions.dead E (s_ID x) w'"
    using auth_main.lasting.run_steady [OF run, of _ "s_ID x"] by (auto simp: auth_main.advances_def)
  then show ?thesis
    using ok x unfolding pg_sessions.dead_def pg_sessions.revoked_def
    by (fastforce simp: sql_ok_def has_session_id_def)
qed

section \<open>Refresh\<close>

text \<open>What signing a user out does to the tables.\<close>

definition sign_out_row :: "'r env \<Rightarrow> string \<Rightarrow> session \<Rightarrow> session" where
  "sign_out_row E u x =
     (if pg_uuid E u = Inr (s_UserID x) \<and> s_Status x = ''ACTIVE'' then x\<lparr>s_Status := ''REVOKED''\<rparr> else x)"

lemma signed_out_tables:
  assumes "auth_main.signed_out E u w w'"
  shows "token_inv E w'" and "users w' = users w"
    and "\<forall>t rt. kept_tokens E w' t = Some rt \<longrightarrow> rt_UserID rt = u \<longrightarrow> spent_for_good E w' t"
    and "\<forall>t. t \<notin> fst (token_indexes E w) u \<longrightarrow> kept_tokens E w' t = kept_tokens E w t"
    and "sessions w' = map (sign_out_row E u) (sessions w)"
proof -
  have "update_where (\<lambda>x. of_session_user (canon_uuid E u) x \<and> s_Status x = ''ACTIVE'') revoke xs = map (sign_out_row E u) xs" for xs
    by (auto simp: update_where_def of_session_user_def revoke_def sign_out_row_def)
  then show "token_inv E w'" and "users w' = users w"
    and "\<forall>t rt. kept_tokens E w' t = Some rt \<longrightarrow> rt_UserID rt = u \<longrightarrow> spent_for_good E w' t"
    and "\<forall>t. t \<notin> fst (token_indexes E w) u \<longrightarrow> kept_tokens E w' t = kept_tokens E w t"
    and "sessions w' = map (sign_out_row E u) (sessions w)"
    using assms by (auto simp: auth_main.signed_out_def spent_for_good_iff)
qed

text \<open>A refresh writes one entry into the audit log, if any, and none into the access log.\<close>

lemma refresh_log:
  assumes "token_inv E w" and "kept_tokens E w (trim_space v) = Some rt"
    and "RefreshAccessToken E (auth_wiring E ts) v m w = (Inr resp, w')"
  shows "logged ''refresh_success'' [(''session_id'', rt_SessionID rt)] w w' \<and> access_log w' = access_log w"
proof -
  obtain rt' u acc n w1 where c: "refresh_check E (auth_wiring E ts) v m w = (Inr (rt', u, acc, n), w1)"
    and d: "refresh_commit E (auth_wiring E ts) (rt', u, acc, n) m w1 = (Inr resp, w')"
    using assms(3) by (auto simp: RefreshAccessToken_def elim!: call_cases)
  have rt': "rt' = rt" using auth_main.refresh_check_ok(1) [OF assms(1) c] assms(2) by simp
  have "audit_logs w1 = audit_logs w \<and> access_log w1 = access_log w"
    using auth_main.refresh_check_calls [OF c]
    by (auto simp: rt_repo_defs PostgresUserRepository_def only_redis_def
        dest!: rt_Find_only_redis pg_FindUserByID_frame GenerateAccessToken_frame dest: later_only_simps(5,6))
  moreover obtain w2 new w3 w4 w5 where "rt_UpdateStatus E (rt_Token rt) ''USED'' w1 = (Inr (), w2)"
    "GenerateRefreshToken E ts (u_ID u) w2 = (Inr new, w3)"
    "rt_Create E (new\<lparr>rt_SessionID := rt_SessionID rt\<rparr>) w3 = (Inr (), w4)"
    "pg_UpdateLastUsedAt E (rt_SessionID rt) (Some (cur E w4)) (step w4) = (Inr (), w5)"
    and w': "w' = logAuthEvent E (auth_wiring E ts) (Some (u_ID u)) ''refresh_success'' m [(''session_id'', rt_SessionID rt)] w5"
    using auth_main.refresh_commit_calls [OF d] unfolding rt'
    by (auto simp: rt_repo_defs PostgresSessionRepository_def)
  then have "audit_logs w5 = audit_logs w1 \<and> access_log w5 = access_log w1"
    using rt_Update_only_redis rt_Create_only_redis later_only_simps(5,6) [OF GenerateRefreshToken_frame] pg_sessions_frame(2)
    unfolding only_redis_def only_sessions_def by (metis step_simps(5,6))
  moreover have "logged ''refresh_success'' [(''session_id'', rt_SessionID rt)] w5 w'"
    by (rule log_event_entry(1)) (simp add: w' logAuthEvent_def)
  moreover have "access_log w' = access_log w5"
    unfolding w' using auth_main.audit_frame unfolding only_audit_def by blast
  ultimately show ?thesis by (simp add: logged_def)
qed

text \<open>
  C1. A refresh that succeeds was made with a stored token in state ACTIVE that had not
  expired; it leaves that token USED and stores its successor, the token of the response,
  ACTIVE in the same session and for the same registered user. No other token changes, and the
  registries of users and sessions gain the successor only. Of the sessions nothing changes
  but the time of last use of the one the token belongs to; users and the access log stay as
  they are, and the audit log gains at most one entry, a \<open>refresh_success\<close> for that session.
\<close>

theorem refresh_rotates:
  assumes "token_inv E w" and "RefreshAccessToken E (auth_wiring E ts) v m w = (Inr resp, w')"
  shows "\<exists>rt new now ls. kept_tokens E w (trim_space v) = Some rt \<and> rt_Status rt = ''ACTIVE'' \<and> \<not> token_gone E w (trim_space v)
    \<and> kept_tokens E w' = (kept_tokens E w)(trim_space v \<mapsto> rt\<lparr>rt_Status := ''USED''\<rparr>, tr_RefreshToken resp \<mapsto> new)
    \<and> rt_Status new = ''ACTIVE'' \<and> rt_SessionID new = rt_SessionID rt
    \<and> pg_uuid E (rt_UserID rt) = Inr (rt_UserID new) \<and> (\<exists>u \<in> set (users w). u_ID u = rt_UserID new)
    \<and> token_indexes E w' = put_token new (token_indexes E w)
    \<and> sessions w' = map (\<lambda>x. if pg_uuid E (rt_SessionID rt) = Inr (s_ID x) then x\<lparr>s_LastUsedAt := now\<rparr> else x) (sessions w)
    \<and> users w' = users w \<and> access_log w' = access_log w
    \<and> audit_logs w' = audit_logs w @ ls \<and> length ls \<le> 1
    \<and> (\<forall>l \<in> set ls. al_EventType l = ''refresh_success'' \<and> al_Metadata l = [(''session_id'', rt_SessionID rt)])
    \<and> token_inv E w'"
proof -
  from auth_main.refresh_ok [OF assms] obtain rt new where
    rt: "kept_tokens E w (trim_space v) = Some rt" "rt_Status rt = ''ACTIVE''" "rt_Token rt = trim_space v"
    "\<not> token_gone E w (trim_space v)" "auth_main.rotated E rt new w w'" "rt_Token new = tr_RefreshToken resp"
    "\<exists>u \<in> set (users w). canon_uuid E (rt_UserID rt) = Some (u_ID u)" by metis
  obtain ls where "audit_logs w' = audit_logs w @ ls" "length ls \<le> 1"
    "\<forall>l \<in> set ls. al_EventType l = ''refresh_success'' \<and> al_Metadata l = [(''session_id'', rt_SessionID rt)]"
    "access_log w' = access_log w"
    using refresh_log [OF assms(1) rt(1) assms(2)] by (auto simp: logged_def list_all_iff)
  moreover obtain now where "sessions w' =
      map (\<lambda>x. if pg_uuid E (rt_SessionID rt) = Inr (s_ID x) then x\<lparr>s_LastUsedAt := now\<rparr> else x) (sessions w)"
    using rt(5) by (auto simp: auth_main.rotated_def update_where_def has_session_id_def)
  ultimately show ?thesis
    using rt unfolding auth_main.rotated_def set_status_def
    by (intro exI [of _ rt] exI [of _ new] exI [of _ now] exI [of _ ls]) auto
qed

theorem refresh_rotates_witness:
  "\<exists>resp w' rt new ls. RefreshAccessToken sample_env sample_auth ''t'' sample_meta sample_active = (Inr resp, w')
    \<and> kept_tokens sample_env sample_active ''t'' = Some rt \<and> rt_Status rt = ''ACTIVE''
    \<and> kept_tokens sample_env w' = (kept_tokens sample_env sample_active)(''t'' \<mapsto> rt\<lparr>rt_Status := ''USED''\<rparr>, tr_RefreshToken resp \<mapsto> new)
    \<and> rt_Status new = ''ACTIVE'' \<and> audit_logs w' = audit_logs sample_active @ ls \<and> length ls \<le> 1"
proof -
  obtain resp w' where call: "RefreshAccessToken sample_env sample_auth ''t'' sample_meta sample_active = (Inr resp, w')"
    using ok_result [OF sample_refresh] by blast
  from refresh_rotates [OF sample_invs(1) call] show ?thesis unfolding sample_trim using call by blast
qed

text \<open>
  C2. A token that was already exchanged is never exchanged again, and presenting it ends
  everything its user has: when the reuse is reported, every token stored for the user has
  expired or is revoked, and every ACTIVE session of the user is REVOKED. Tokens that are not
  registered for the user and all other rows are as before.
\<close>

theorem refresh_reuse_revokes:
  assumes "token_inv E w" and "pg_laws E"
    and "kept_tokens E w (trim_space v) = Some rt" and "rt_Status rt = ''USED''"
    and "RefreshAccessToken E (auth_wiring E ts) v m w = (res, w')"
  shows "\<not> is_ok res \<and> (res = Inl ErrRefreshTokenReuseDetected \<longrightarrow>
    (\<forall>t rt'. kept_tokens E w' t = Some rt' \<longrightarrow> rt_UserID rt' = rt_UserID rt \<longrightarrow> spent_for_good E w' t)
    \<and> (\<forall>t. t \<notin> fst (token_indexes E w) (rt_UserID rt) \<longrightarrow> kept_tokens E w' t = kept_tokens E w t)
    \<and> sessions w' = map (sign_out_row E (rt_UserID rt)) (sessions w))"
proof (intro conjI impI)
  show "\<not> is_ok res" by (rule auth_main.refresh_reuse(1) [OF assms])
  assume "res = Inl ErrRefreshTokenReuseDetected"
  from signed_out_tables [OF auth_main.refresh_reuse(2) [OF assms this]]
  show "\<forall>t rt'. kept_tokens E w' t = Some rt' \<longrightarrow> rt_UserID rt' = rt_UserID rt \<longrightarrow> spent_for_good E w' t"
    and "\<forall>t. t \<notin> fst (token_indexes E w) (rt_UserID rt) \<longrightarrow> kept_tokens E w' t = kept_tokens E w t"
    and "sessions w' = map (sign_out_row E (rt_UserID rt)) (sessions w)" by blast+
qed

theorem refresh_reuse_revokes_witness:
  "\<exists>w'. RefreshAccessToken sample_env sample_auth ''t'' sample_meta (sample_world ''USED'' ''ACTIVE'')
      = (Inl ErrRefreshTokenReuseDetected, w') \<and> list_all (\<lambda>x. s_UserID x \<noteq> ''u'' \<or> s_Status x \<noteq> ''ACTIVE'') (sessions w')"
proof -
  obtain w' where call: "RefreshAccessToken sample_env sample_auth ''t'' sample_meta (sample_world ''USED'' ''ACTIVE'')
      = (Inl ErrRefreshTokenReuseDetected, w')"
    using sample_reuse by (metis prod.collapse)
  have "kept_tokens sample_env (sample_world ''USED'' ''ACTIVE'') (trim_space ''t'') = Some (sample_token ''USED'')" by simp
  from refresh_reuse_revokes [OF sample_invs(2) sample_laws(2) this _ call] call show ?thesis
    by (auto simp: sample_token_def list_all_iff sign_out_row_def split: if_splits)
qed

text \<open>
  C3. Revocation is final: once a token has expired or is revoked, no later refresh with it
  succeeds, whatever requests are served in between, as long as the random generator does
  not produce that very token again.
\<close>

theorem revoked_token_stays_revoked:
  assumes "token_inv E w" and "spent_for_good E w (trim_space v)" and "never_drawn E (tick w) (trim_space v)"
    and "auth_run E (auth_wiring E ts) w w'"
  shows "\<not> is_ok (fst (RefreshAccessToken E (auth_wiring E ts) v m w'))"
  using spent_lasts [OF assms(1,2,3,4)] spent_refused by blast

theorem revoked_token_stays_revoked_witness:
  "\<not> is_ok (fst (RefreshAccessToken sample_env sample_auth ''t'' sample_meta (sample_world ''REVOKED'' ''ACTIVE'')))"
  by (rule revoked_token_stays_revoked [OF sample_invs(3) _ _ auth_run.start])
    (simp_all add: spent_for_good_def sample_token_def sample_never_drawn)

section \<open>Logout and sessions\<close>

text \<open>
  C4. \<open>LogoutAll\<close> is final for what the user had: after it, and after any further requests,
  no token that was stored for the user is exchanged again, and each of the user's sessions
  stays REVOKED.
\<close>

theorem logout_all_final:
  assumes "token_inv E w" and "sql_ok E w" and "trim_space u \<noteq> ''''"
    and "LogoutAll E (auth_wiring E ts) u m w = (Inr r, w1)"
    and "auth_run E (auth_wiring E ts) w1 w2"
  shows "(\<forall>v rt m'. kept_tokens E w1 (trim_space v) = Some rt \<and> rt_UserID rt = trim_space u
          \<and> never_drawn E (tick w1) (trim_space v) \<longrightarrow> \<not> is_ok (fst (RefreshAccessToken E (auth_wiring E ts) v m' w2)))
    \<and> (\<forall>x \<in> set (sessions w1). pg_uuid E (trim_space u) = Inr (s_UserID x) \<longrightarrow>
        (\<exists>y \<in> set (sessions w2). s_ID y = s_ID x \<and> s_Status y = ''REVOKED''))"
proof (intro conjI allI ballI impI)
  note out = auth_main.logout_all_ok [OF assms(1,3,4), unfolded auth_main.signed_out_def]
  fix v rt m'
  assume "kept_tokens E w1 (trim_space v) = Some rt \<and> rt_UserID rt = trim_space u \<and> never_drawn E (tick w1) (trim_space v)"
  with out have "token_inv E w1" "spent_for_good E w1 (trim_space v)" "never_drawn E (tick w1) (trim_space v)"
    by (auto simp: spent_for_good_iff)
  with spent_lasts [OF _ _ _ assms(5)] spent_refused
  show "\<not> is_ok (fst (RefreshAccessToken E (auth_wiring E ts) v m' w2))" by blast
next
  fix x
  assume x: "x \<in> set (sessions w1)" and owner: "pg_uuid E (trim_space u) = Inr (s_UserID x)"
  have ok1: "sql_ok E w1"
    using auth_invariants.LogoutAll_steady [of E w ts u m] assms(2,4) by (simp add: stores_kept_def)
  have "s_Status x \<noteq> ''ACTIVE''"
    using x owner unfolding signed_out_tables(5) [OF auth_main.logout_all_ok [OF assms(1,3,4)]]
    by (auto simp: sign_out_row_def split: if_splits)
  with ok1 x have "s_Status x = ''REVOKED''" by (auto simp: sql_ok_def)
  with revoked_session_lasts [OF ok1 x _ assms(5)]
  show "\<exists>y \<in> set (sessions w2). s_ID y = s_ID x \<and> s_Status y = ''REVOKED''" by blast
qed

theorem logout_all_final_witness:
  "\<exists>w1. snd (LogoutAll sample_env sample_auth ''u'' sample_meta sample_active) = w1
    \<and> list_all (\<lambda>x. \<exists>y \<in> set (sessions w1). s_ID y = s_ID x \<and> (s_UserID x \<noteq> ''u'' \<or> s_Status y = ''REVOKED'')) (sessions w1)"
proof -
  obtain r w1 where call: "LogoutAll sample_env sample_auth ''u'' sample_meta sample_active = (Inr r, w1)"
    using ok_result [OF sample_logout_all] by blast
  from logout_all_final [OF sample_invs(1) sample_sqls(1) _ call auth_run.start] call show ?thesis
    by (fastforce simp: list_all_iff)
qed

text \<open>
  C5. What \<open>LogoutAll\<close> does: every token stored for the user has expired or is revoked, and every
  ACTIVE session of the user is REVOKED. Users, the rows of other users, and tokens that are
  not registered for the user are as before.
\<close>

theorem logout_all_effect:
  assumes "token_inv E w" and "trim_space u \<noteq> ''''" and "LogoutAll E (auth_wiring E ts) u m w = (Inr r, w')"
  shows "(\<forall>t rt. kept_tokens E w' t = Some rt \<longrightarrow> rt_UserID rt = trim_space u \<longrightarrow> spent_for_good E w' t)
    \<and> (\<forall>t. t \<notin> fst (token_indexes E w) (trim_space u) \<longrightarrow> kept_tokens E w' t = kept_tokens E w t)
    \<and> sessions w' = map (sign_out_row E (trim_space u)) (sessions w) \<and> users w' = users w"
  using signed_out_tables [OF auth_main.logout_all_ok [OF assms]] by blast

theorem logout_all_effect_witness:
  "\<exists>r w'. LogoutAll sample_env sample_auth ''u'' sample_meta sample_active = (Inr r, w')
    \<and> map s_Status (sessions w') = [''REVOKED''] \<and> users w' = users sample_active"
proof -
  obtain r w' where call: "LogoutAll sample_env sample_auth ''u'' sample_meta sample_active = (Inr r, w')"
    using ok_result [OF sample_logout_all] by blast
  have "trim_space ''u'' = ''u''" by code_simp
  with logout_all_effect [OF sample_invs(1) _ call] call show ?thesis
    by (auto simp: sign_out_row_def sample_world_def sample_env_def)
qed

text \<open>
  C6. A logout that succeeds leaves the presented token expired or revoked, and the session
  it was stored for revoked (unless the token had expired); no other token changes.
\<close>

theorem logout_effect:
  assumes "token_inv E w" and "trim_space v \<noteq> ''''" and "Logout E (auth_wiring E ts) v m w = (Inr r, w')"
  shows "spent_for_good E w' (trim_space v)
    \<and> (\<forall>t. t \<noteq> trim_space v \<longrightarrow> kept_tokens E w' t = kept_tokens E w t)
    \<and> (\<forall>rt. kept_tokens E w (trim_space v) = Some rt \<and> rt_SessionID rt \<noteq> '''' \<and> \<not> token_gone E w' (trim_space v) \<longrightarrow>
        (\<forall>x \<in> set (sessions w'). pg_uuid E (rt_SessionID rt) = Inr (s_ID x) \<longrightarrow> s_Status x = ''REVOKED''))"
  using auth_main.logout_ok [OF assms]
  by (auto simp: spent_for_good_iff pg_sessions.revoked_def has_session_id_def)

theorem logout_effect_witness:
  "\<exists>r w'. Logout sample_env sample_auth ''t'' sample_meta sample_active = (Inr r, w') \<and> spent_for_good sample_env w' ''t''"
proof -
  obtain r w' where call: "Logout sample_env sample_auth ''t'' sample_meta sample_active = (Inr r, w')"
    using ok_result [OF sample_logout] by blast
  from logout_effect [OF sample_invs(1) _ call] call show ?thesis by simp
qed

text \<open>
  C7. A logout does not follow rotations: when the token presented has been exchanged, its
  successor is as it was, ACTIVE in the same session, although the session is revoked; and
  \<open>RefreshAccessToken\<close> does not look at the session.
\<close>

theorem logout_leaves_successor:
  assumes "token_inv E w" and "RefreshAccessToken E (auth_wiring E ts) v m w = (Inr resp, w1)"
    and "trim_space v \<noteq> ''''" and "tr_RefreshToken resp \<noteq> trim_space v"
    and "Logout E (auth_wiring E ts) v m' w1 = (Inr r, w2)"
  shows "\<exists>new. kept_tokens E w2 (tr_RefreshToken resp) = Some new \<and> rt_Status new = ''ACTIVE''"
proof -
  obtain rt new where r: "auth_main.rotated E rt new w w1" "rt_Token new = tr_RefreshToken resp"
    using auth_main.refresh_ok [OF assms(1,2)] by metis
  then have "kept_tokens E w1 (tr_RefreshToken resp) = Some new" "rt_Status new = ''ACTIVE''" "token_inv E w1"
    by (auto simp: auth_main.rotated_def)
  with auth_main.logout_ok(3) [OF _ assms(3,5), of "tr_RefreshToken resp"] assms(4) show ?thesis by simp
qed

theorem logout_leaves_successor_witness:
  "\<exists>resp w1 w2 new. RefreshAccessToken sample_env sample_auth ''t'' sample_meta sample_active = (Inr resp, w1)
    \<and> snd (Logout sample_env sample_auth ''t'' sample_meta w1) = w2
    \<and> kept_tokens sample_env w2 (tr_RefreshToken resp) = Some new \<and> rt_Status new = ''ACTIVE''
    \<and> is_ok (fst (RefreshAccessToken sample_env sample_auth (tr_RefreshToken resp) sample_meta w2))"
proof -
  obtain resp w1 where call: "RefreshAccessToken sample_env sample_auth ''t'' sample_meta sample_active = (Inr resp, w1)"
    using ok_result [OF sample_refresh] by blast
  note rest = sample_logout_rotated [unfolded call prod.case sum.case]
  then obtain q w2 where out: "Logout sample_env sample_auth ''t'' sample_meta w1 = (Inr q, w2)"
    by (auto split: prod.splits sum.splits)
  with rest have ne: "tr_RefreshToken resp \<noteq> trim_space ''t''"
    and again: "is_ok (fst (RefreshAccessToken sample_env sample_auth (tr_RefreshToken resp) sample_meta w2))"
    by simp_all
  have "trim_space ''t'' \<noteq> ''''" by simp
  from logout_leaves_successor [OF sample_invs(1) call this ne out] call out again show ?thesis by (metis snd_conv)
qed

text \<open>
  C8. Nobody revokes the session of somebody else: when no session of the identifier belongs
  to the caller, the request fails and sessions, users and tokens are as before.
\<close>

theorem revoke_session_foreign:
  assumes "token_inv E w"
    and "\<forall>x \<in> set (sessions w). pg_uuid E (trim_space i) = Inr (s_ID x) \<longrightarrow> s_UserID x \<noteq> trim_space u"
    and "RevokeSession (auth_wiring E ts) u i w = (res, w')"
  shows "\<not> is_ok res \<and> sessions w' = sessions w \<and> users w' = users w \<and> kept_tokens E w' = kept_tokens E w"
  using auth_main.foreign_session_kept [OF _ assms(3)] assms(1,2) token_view_quiet by auto

theorem revoke_session_foreign_witness:
  "\<not> is_ok (fst (RevokeSession sample_auth ''v'' ''s'' sample_active))
    \<and> sessions (snd (RevokeSession sample_auth ''v'' ''s'' sample_active)) = sessions sample_active"
  using revoke_session_foreign [OF sample_invs(1), of "''ACTIVE''" "''s''" "''v''" sample_tokens
      "fst (RevokeSession sample_auth ''v'' ''s'' sample_active)" "snd (RevokeSession sample_auth ''v'' ''s'' sample_active)"]
  by (simp add: sample_world_def)

text \<open>
  C9. Revoking one's own session revokes exactly that row, and leaves no token that is
  stored for the session to be exchanged; tokens change at most by revocation, and those that
  are not registered for the session not at all.
\<close>

theorem revoke_session_effect:
  assumes "token_inv E w" and "pg_laws E" and "RevokeSession (auth_wiring E ts) u i w = (Inr r, w')"
  shows "\<exists>x \<in> set (sessions w). pg_uuid E (trim_space i) = Inr (s_ID x) \<and> s_UserID x = trim_space u
    \<and> sessions w' = map (\<lambda>y. if s_ID y = s_ID x then y\<lparr>s_Status := ''REVOKED''\<rparr> else y) (sessions w)
    \<and> (\<forall>t rt. kept_tokens E w' t = Some rt \<and> rt_SessionID rt = s_ID x \<longrightarrow> spent_for_good E w' t)
    \<and> (\<forall>t. kept_tokens E w' t = kept_tokens E w t
          \<or> t \<in> snd (token_indexes E w) (s_ID x) \<and> kept_tokens E w' t = map_option (set_status ''REVOKED'') (kept_tokens E w t))"
proof -
  obtain x where x: "x \<in> set (sessions w)" "canon_uuid E (trim_space i) = Some (s_ID x)" "s_UserID x = trim_space u"
    "sessions w' = update_where (has_session_id (Some (s_ID x))) revoke (sessions w)"
    "\<And>t. revoked_from (kept_tokens E w t) (kept_tokens E w' t)"
    "\<And>t rt. kept_tokens E w' t = Some rt \<Longrightarrow> rt_SessionID rt = s_ID x \<Longrightarrow> redis_cells.retired E w' t"
    "\<And>t. t \<notin> snd (token_indexes E w) (s_ID x) \<Longrightarrow> kept_tokens E w' t = kept_tokens E w t"
    using auth_main.revoke_session_ok [OF assms] by metis
  have "update_where (has_session_id (Some (s_ID x))) revoke (sessions w)
      = map (\<lambda>y. if s_ID y = s_ID x then y\<lparr>s_Status := ''REVOKED''\<rparr> else y) (sessions w)"
    by (auto simp: update_where_def has_session_id_def revoke_def)
  with x show ?thesis
    by (intro bexI [of _ x]) (auto simp: spent_for_good_iff revoked_from_def)
qed

theorem revoke_session_effect_witness:
  "\<exists>r w' (x :: session). RevokeSession sample_auth ''u'' ''s'' sample_active = (Inr r, w') \<and> s_UserID x = ''u''
    \<and> sessions w' = map (\<lambda>y. if s_ID y = s_ID x then y\<lparr>s_Status := ''REVOKED''\<rparr> else y) (sessions sample_active)"
proof -
  obtain r w' where call: "RevokeSession sample_auth ''u'' ''s'' sample_active = (Inr r, w')"
    using ok_result [OF sample_revoke] by blast
  from revoke_session_effect [OF sample_invs(1) sample_laws(2) call] call show ?thesis
    unfolding sample_trim by blast
qed

text \<open>
  C10. The session list is exactly the sessions of the user, newest first, and reading it
  changes nothing.
\<close>

theorem list_sessions_exact:
  assumes "ListSessions (auth_wiring E ts) u w = (Inr r, w')"
  shows "mset (Sessions r) = mset (filter (\<lambda>x. pg_uuid E (trim_space u) = Inr (s_UserID x)) (sessions w))
    \<and> sorted_wrt (\<lambda>x y. s_CreatedAt y \<le> s_CreatedAt x) (Sessions r)
    \<and> sessions w' = sessions w \<and> kspace E w' = kspace E w"
proof -
  have "of_session_user (canon_uuid E (trim_space u)) = (\<lambda>x. pg_uuid E (trim_space u) = Inr (s_UserID x))"
    by (auto simp: of_session_user_def fun_eq_iff canon_uuid_def split: sum.splits)
  with auth_main.list_ok [OF assms] show ?thesis
    by (simp add: sorted_map redis_same_space)
qed

theorem list_sessions_exact_witness:
  "\<exists>r w'. ListSessions sample_auth ''u'' sample_active = (Inr r, w')
    \<and> mset (Sessions r) = mset (filter (\<lambda>x. s_UserID x = ''u'') (sessions sample_active))"
proof -
  obtain r w' where call: "ListSessions sample_auth ''u'' sample_active = (Inr r, w')"
    using ok_result [OF sample_list] by blast
  from list_sessions_exact [OF call] call show ?thesis by (auto simp: eq_commute [of "''u''"])
qed

section \<open>Login and registration\<close>

text \<open>
  C11. A login that succeeds was for a registered user whose address is the normal form of
  the one given and whose hash accepts the password; it appends one ACTIVE session of that
  user under an unused identifier and stores one ACTIVE token, bound to user and session.
  Nothing else about sessions, tokens and users changes.
\<close>

theorem login_effect:
  assumes "token_inv E w" and "Login E (auth_wiring E ts) email password m w = (Inr resp, w')"
  shows "\<exists>u x rt. u \<in> set (users w) \<and> u_Email u = normal_email E (trim_space email)
    \<and> bcrypt_compare E (u_HashedPassword u) (trim_space password) = None
    \<and> sessions w' = sessions w @ [x] \<and> s_ID x \<notin> s_ID ` set (sessions w) \<and> s_Status x = ''ACTIVE''
    \<and> pg_uuid E (u_ID u) = Inr (s_UserID x)
    \<and> kept_tokens E w' = (kept_tokens E w)(tr_RefreshToken resp \<mapsto> rt)
    \<and> rt_Status rt = ''ACTIVE'' \<and> rt_UserID rt = u_ID u \<and> pg_uuid E (rt_SessionID rt) = Inr (s_ID x)
    \<and> users w' = users w \<and> token_inv E w'"
proof -
  obtain u x rt where "u \<in> set (users w)" "u_Email u = normal_email E (trim_space email)"
    "bcrypt_compare E (u_HashedPassword u) (trim_space password) = None"
    "sessions w' = sessions w @ [x]" "fresh_session (sessions w) x" "s_Status x = ''ACTIVE''"
    "canon_uuid E (u_ID u) = Some (s_UserID x)" "canon_uuid E (rt_SessionID rt) = Some (s_ID x)"
    "token_inv E w'" "kept_tokens E w' = (kept_tokens E w)(tr_RefreshToken resp \<mapsto> rt)" "users w' = users w"
    "rt_Token rt = tr_RefreshToken resp" "rt_Status rt = ''ACTIVE''" "rt_UserID rt = u_ID u"
    by (rule auth_main.login_ok [OF assms])
  then show ?thesis
    by (intro exI [of _ u] exI [of _ x] exI [of _ rt]) (simp add: fresh_session_iff)
qed

theorem login_effect_witness:
  "\<exists>resp w' x. Login sample_env sample_auth ''E'' ''p '' sample_meta sample_active = (Inr resp, w')
    \<and> sessions w' = sessions sample_active @ [x] \<and> s_Status x = ''ACTIVE''"
proof -
  obtain resp w' where call: "Login sample_env sample_auth ''E'' ''p '' sample_meta sample_active = (Inr resp, w')"
    using ok_result [OF sample_login] by blast
  from login_effect [OF sample_invs(1) call] call show ?thesis by blast
qed

text \<open>When the store does not take the refresh token of a login.\<close>

lemma issue_error_origin:
  assumes "token_inv E w" and "auth_main.issue_error E ts e w w'"
  shows "external e \<or> e = ErrRefreshTokenNotFound \<and> cur E w + dur_mul (ts_refreshTTLHours ts) hour \<le> cur E w'"
proof (rule disjCI)
  assume "\<not> (e = ErrRefreshTokenNotFound \<and> cur E w + dur_mul (ts_refreshTTLHours ts) hour \<le> cur E w')"
  moreover have "cur E w + dur_mul (ts_refreshTTLHours ts) hour \<le> cur E w'"
    if w3: "tick w \<le> tick w3" and inv: "token_inv E w4" and g: "GenerateRefreshToken E ts i w3 = (Inr rt, w4)"
      and c: "rt_Create E (rt\<lparr>rt_SessionID := j\<rparr>) w4 = (Inl ErrRefreshTokenNotFound, w')" for i rt j w3 w4
  proof -
    note L = token_inv_laws(3) [OF assms(1)] and new = GenerateRefreshToken_ok [OF g]
    have "rt_ExpiresAt rt \<le> cur E w4" "w' = step w4" using rt_Create_refusals [OF inv c] by auto
    moreover have "cur E w \<le> cur E (step w3)" "cur E w4 \<le> cur E (step w4)" using w3 by (auto intro: cur_mono [OF L])
    ultimately show ?thesis using new by simp
  qed
  ultimately show "external e" using assms(2) by (auto simp: auth_main.issue_error_def rt_repo_defs)
qed

text \<open>
  C12. A login that is refused for its input or its credentials leaves sessions, tokens and
  users as they were (only the audit log may grow). Every other error is one a library or a
  store reported itself, or the store's \<open>ErrRefreshTokenNotFound\<close>, which means that the
  configured lifetime of the refresh token was over before the token could be stored.
\<close>

theorem login_refused_effect:
  assumes "token_inv E w" and "pg_laws E" and "library_errors E"
    and "Login E (auth_wiring E ts) email password m w = (Inl e, w')"
  shows "external e
    \<or> (e = ErrRefreshTokenNotFound \<and> cur E w + dur_mul (ts_refreshTTLHours ts) hour \<le> cur E w')
    \<or> ((e = ErrInvalidLoginInput \<or> e = ErrInvalidCredentials)
       \<and> sessions w' = sessions w \<and> users w' = users w \<and> kspace E w' = kspace E w)"
  using auth_main.login_refused [OF assms] issue_error_origin [OF assms(1)] by (blast dest: redis_same_space)

theorem login_refused_effect_witness:
  "\<exists>w'. Login sample_env sample_auth ''e'' ''q'' sample_meta sample_active = (Inl ErrInvalidCredentials, w')
    \<and> sessions w' = sessions sample_active \<and> kspace sample_env w' = kspace sample_env sample_active"
proof -
  obtain w' where call: "Login sample_env sample_auth ''e'' ''q'' sample_meta sample_active = (Inl ErrInvalidCredentials, w')"
    using sample_login_refused by (metis prod.collapse)
  from login_refused_effect [OF sample_invs(1) sample_laws(2,3) call] call show ?thesis by simp
qed

text \<open>
  C13. A registration that succeeds appends exactly one user, with an unused identifier and
  address, the address trimmed and in lower case, and a bcrypt hash of the trimmed password;
  sessions and tokens stay as they are.
\<close>

theorem register_effect:
  assumes "Register E (auth_wiring E ts) email password m w = (Inr r, w')"
  shows "\<exists>u n. users w' = users w @ [u] \<and> u_ID u \<notin> u_ID ` set (users w) \<and> u_Email u \<notin> u_Email ` set (users w)
    \<and> u_Email u = normal_email E (to_lower (unicode_tables E) (trim_space email))
    \<and> bcrypt_generate E n (trim_space password) = Inr (u_HashedPassword u)
    \<and> rr_UserID r = u_ID u \<and> rr_Email r = u_Email u
    \<and> sessions w' = sessions w \<and> kspace E w' = kspace E w"
proof -
  obtain u n where u: "users w' = users w @ [u]" "fresh_user (users w) u"
    "u_Email u = normal_email E (to_lower (unicode_tables E) (trim_space email))"
    "bcrypt_generate E n (trim_space password) = Inr (u_HashedPassword u)"
    "rr_UserID r = u_ID u" "rr_Email r = u_Email u" "redis_same w w'" "sessions w' = sessions w"
    using auth_main.register_ok [OF assms] by metis
  then have "u_ID u \<notin> u_ID ` set (users w)" "u_Email u \<notin> u_Email ` set (users w)"
    by (auto simp: fresh_user_def list_all_iff)
  with u redis_same_space [OF u(7)] show ?thesis by (intro exI [of _ u] exI [of _ n]) simp
qed

theorem register_effect_witness:
  "\<exists>r w' u. Register sample_env sample_auth ''A'' ''p'' sample_meta sample_active = (Inr r, w')
    \<and> users w' = users sample_active @ [u] \<and> rr_UserID r = u_ID u"
proof -
  obtain r w' where call: "Register sample_env sample_auth ''A'' ''p'' sample_meta sample_active = (Inr r, w')"
    using ok_result [OF sample_register] by blast
  from register_effect [OF call] call show ?thesis by blast
qed

text \<open>A user is found again by any spelling of the address, with the password it was registered with.\<close>

lemma registered_found:
  assumes "token_inv E w" and "sql_ok E w" and "bcrypt_laws E"
    and "Register E (auth_wiring E ts) email password m w = (Inr r, w1)" and "auth_run E (auth_wiring E ts) w1 w2"
    and "is_ascii email" and "is_ascii email'" and "map ascii_lower (trim_space email') = map ascii_lower (trim_space email)"
    and "trim_space password' = trim_space password"
  obtains u where "u \<in> set (users w2)" and "u_Email u = normal_email E (trim_space email')" and "pg_text E (u_Email u) = None"
    and "pg_uuid E (u_ID u) = Inr (u_ID u)" and "bcrypt_compare E (u_HashedPassword u) (trim_space password') = None"
    and "u_ID u = rr_UserID r" and "u_Email u = rr_Email r" and "trim_space email' \<noteq> ''''" and "trim_space password' \<noteq> ''''"
    and "token_inv E w2" and "pg_users.well_formed E w2"
proof -
  have "auth_run E (auth_wiring E ts) w w1"
    using auth_run.request [OF auth_run.start, of E "auth_wiring E ts" w "RegisterRequest email password m"] assms(4) by simp
  then have run: "auth_run E (auth_wiring E ts) w w2" using assms(5) auth_run_trans by blast
  have inv: "token_inv E w2"
    using auth_main.lasting.run_steady [OF run, of "''''" "''''"] assms(1) by (simp add: auth_main.advances_def)
  have "sql_ok E w2" using auth_invariants.run_steady [OF run] assms(2) by (simp add: stores_kept_def)
  then have wf: "pg_users.well_formed E w2" and laws: "pg_laws E" by (simp_all add: sql_ok_def)
  obtain u n where u: "users w1 = users w @ [u]" "u_Email u = normal_email E (to_lower (unicode_tables E) (trim_space email))"
    "bcrypt_generate E n (trim_space password) = Inr (u_HashedPassword u)" "rr_UserID r = u_ID u" "rr_Email r = u_Email u"
    "pg_text E (u_Email u) = None" "pg_uuid E (u_ID u) = Inr (u_ID u)" "trim_space email \<noteq> ''''" "trim_space password \<noteq> ''''"
    by (rule registered_row [OF laws assms(4)])
  have "set (users w1) \<subseteq> set (users w2)"
    using auth_history.run_steady [OF assms(5)] by (simp add: history_def set_mono_prefix)
  then have "u \<in> set (users w2)" using u(1) by auto
  moreover have "is_ascii (trim_space email)" "is_ascii (trim_space email')" using assms(6,7) by (auto simp: is_ascii_trim)
  then have "normal_email E (trim_space email') = normal_email E (to_lower (unicode_tables E) (trim_space email))"
    using assms(8) by (simp add: normal_email_def trim_to_lower) (simp add: to_lower_def)
  moreover have "trim_space email' \<noteq> ''''" using u(8) assms(8) by (metis map_is_Nil_conv)
  moreover have "bcrypt_compare E (u_HashedPassword u) (trim_space password') = None"
    using assms(3,9) u(3) unfolding bcrypt_laws_def by metis
  ultimately show ?thesis using that u inv wf assms(9) by simp
qed

text \<open>
  C14. Whoever registered with an ASCII address can log in: with the same address up to
  surrounding space and the case of letters, and the same password up to surrounding
  space, a later login succeeds, whatever requests were served in between, if during the login the stores and
  the random generator do not fail, the identifier drawn for the session is unused, the
  metadata of the request fits its columns, and the tokens can be signed and encoded.
\<close>

theorem registered_can_login:
  assumes "token_inv E w" and "sql_ok E w" and "bcrypt_laws E"
    and "Register E (auth_wiring E ts) email password m w = (Inr r, w1)"
    and "auth_run E (auth_wiring E ts) w1 w2"
    and "is_ascii email" and "is_ascii email'"
    and "map ascii_lower (trim_space email') = map ascii_lower (trim_space email)"
    and "trim_space password' = trim_space password"
    and "login_ready E ts (rr_UserID r) (rr_Email r) m' w2"
  shows "\<exists>resp w3. Login E (auth_wiring E ts) email' password' m' w2 = (Inr resp, w3)"
proof -
  obtain u where u: "u \<in> set (users w2)" "u_Email u = normal_email E (trim_space email')" "pg_text E (u_Email u) = None"
    "pg_uuid E (u_ID u) = Inr (u_ID u)" "bcrypt_compare E (u_HashedPassword u) (trim_space password') = None"
    and r: "u_ID u = rr_UserID r" "u_Email u = rr_Email r" and ne: "trim_space email' \<noteq> ''''" "trim_space password' \<noteq> ''''"
    and inv: "token_inv E w2" and wf: "pg_users.well_formed E w2"
    by (rule registered_found [OF assms(1-9)])
  show ?thesis by (rule login_answers [OF inv wf assms(10) [folded r] u ne])
qed

lemma sample_registered:
  "case Register sample_env sample_auth ''A'' ''p'' sample_meta sample_active of
     (Inl e, w1) \<Rightarrow> False
   | (Inr r, w1) \<Rightarrow> CHR ''|'' \<notin> set (rr_UserID r) \<and> rr_Email r = ''a'' \<and> tick w1 < 100
       \<and> uuid_gen sample_env (tick w1 + 2) \<notin> s_ID ` set (sessions w1)"
  by code_simp

theorem registered_can_login_witness:
  "\<exists>r w1 resp w2. Register sample_env sample_auth ''A'' ''p'' sample_meta sample_active = (Inr r, w1)
    \<and> Login sample_env sample_auth ''a '' ''p '' sample_meta w1 = (Inr resp, w2)"
proof -
  obtain r w1 where call: "Register sample_env sample_auth ''A'' ''p'' sample_meta sample_active = (Inr r, w1)"
    using ok_result [OF sample_register] by blast
  note s = sample_registered [unfolded call prod.case sum.case]
  have ascii: "is_ascii ''A''" "is_ascii ''a ''" "map ascii_lower (trim_space ''a '') = map ascii_lower (trim_space ''A'')"
    by code_simp+
  have same: "trim_space ''p '' = trim_space ''p''" by simp
  have "CHR ''|'' \<notin> set (uuid_gen sample_env n)" for n by (simp add: sample_env_def)
  then have "login_ready sample_env sample_tokens (rr_UserID r) (rr_Email r) sample_meta w1"
    using s by (simp add: login_ready_def sample_undisturbed sample_issuable sample_signs)
  from registered_can_login [OF sample_invs(1) sample_sqls(1) sample_laws(4) call auth_run.start ascii same this] call
  show ?thesis by blast
qed

section \<open>Interleavings\<close>

text \<open>Different random bytes give different tokens, and a token that is never drawn is not the next one.\<close>

lemma encode_neq: "bytes \<noteq> bytes' \<Longrightarrow> raw_url_encode bytes \<noteq> raw_url_encode bytes'"
  by (metis decode_encode)

lemma not_drawn: "never_drawn E m t \<Longrightarrow> m \<le> n \<Longrightarrow> rand_gen E n = Inr bytes \<Longrightarrow> raw_url_encode bytes \<noteq> t"
  by (simp add: never_drawn_def)

text \<open>
  C18. Two refreshes with the same token, each past its checks before the other has spent
  the token, both succeed if nothing outside fails during their twenty-four ticks: Redis, the database
  and the random generator answer, the token does not expire, the new tokens differ from each other and
  from the old one, and the records can be encoded. No reuse is reported, and the store then holds two ACTIVE
  successors of one token in the same session.
\<close>

theorem interleaved_refreshes_both_succeed:
  assumes "token_inv E w"
    and "refresh_check E (auth_wiring E ts) v m w = (Inr (rt, u, acc, k), w1)"
    and "refresh_check E (auth_wiring E ts) v m' w1 = (Inr f', w2)"
    and "undisturbed E (tick w2) (tick w2 + 24)"
    and "\<not> token_gone E (at_tick w2 (tick w2 + 24)) (trim_space v)"
    and "clock E (tick w2 + 24) + millisecond \<le> rt_ExpiresAt rt"
    and "inj_on (rand_gen E) {tick w2..<tick w2 + 24}" and "never_drawn E (tick w2) (trim_space v)"
    and "storable E (set_status ''USED'' rt)" and "is_ok (pg_uuid E (rt_SessionID rt))"
    and "issuable E ts (u_ID u) (rt_SessionID rt) (tick w2) (tick w2 + 24)"
  shows "\<exists>r w3 r' w4 n n'. refresh_commit E (auth_wiring E ts) (rt, u, acc, k) m w2 = (Inr r, w3)
    \<and> refresh_commit E (auth_wiring E ts) f' m' w3 = (Inr r', w4) \<and> tr_RefreshToken r \<noteq> tr_RefreshToken r'
    \<and> kept_tokens E w4 (tr_RefreshToken r) = Some n \<and> rt_Status n = ''ACTIVE'' \<and> rt_SessionID n = rt_SessionID rt
    \<and> kept_tokens E w4 (tr_RefreshToken r') = Some n' \<and> rt_Status n' = ''ACTIVE'' \<and> rt_SessionID n' = rt_SessionID rt"
proof -
  let ?n = "tick w2 + 24" and ?t = "trim_space v"
  obtain rt' u' acc' k' where f': "f' = (rt', u', acc', k')" by (cases f')
  note c1 = auth_main.refresh_check_ok [OF assms(1) assms(2)]
  note c2 = auth_main.refresh_check_ok [OF c1(6) assms(3) [unfolded f']]
  note clock = token_inv_laws(3) [OF assms(1)]
  have rt': "rt' = rt" "u_ID u' = u_ID u" using c1(1,5,7) c2(1,5) by auto
  have t: "rt_Token rt = ?t" and k2: "kept_tokens E w2 (rt_Token rt) = Some rt" using c1(1,3,7) c2(7) by auto
  have le: "tick w2 + 12 \<le> ?n" by simp
  obtain r w3 b where r: "refresh_commit E (auth_wiring E ts) (rt, u, acc, k) m w2 = (Inr r, w3)" "tick w3 = tick w2 + 12"
    "rand_gen E (tick w2 + 3) = Inr b" "tr_RefreshToken r = raw_url_encode b"
    and alive3: "clock E ?n + millisecond \<le> rt_ExpiresAt rt \<Longrightarrow> tr_RefreshToken r \<noteq> rt_Token rt \<Longrightarrow> \<not> token_gone E (at_tick w3 ?n) (rt_Token rt)"
    by (rule refresh_commit_answers [where acc = acc and k = k and m = m,
        OF c2(6) k2 refl assms(5) [folded t] le assms(4,9,11,10)]) iprover
  have fresh: "tr_RefreshToken r \<noteq> rt_Token rt" using not_drawn [OF assms(8) _ r(3)] r(4) t by simp
  obtain n where n: "auth_main.rotated E rt n w2 w3" "rt_Token n = tr_RefreshToken r"
    using auth_main.refresh_commit_ok [OF c2(6) r(1) k2 refl c1(5)] by metis
  have inv3: "token_inv E w3" and k3: "kept_tokens E w3 (rt_Token rt) = Some (set_status ''USED'' rt)"
    using n fresh by (auto simp: auth_main.rotated_def)
  have calm3: "undisturbed E (tick w3) ?n" and iss3: "issuable E ts (u_ID u') (rt_SessionID rt) (tick w3) ?n"
    using undisturbed_part [OF assms(4) clock] issuable_part [OF assms(11)] r(2) rt'(2) by simp_all
  obtain r' w4 b' where r': "refresh_commit E (auth_wiring E ts) (rt, u', acc', k') m' w3 = (Inr r', w4)"
    "rand_gen E (tick w3 + 3) = Inr b'" "tr_RefreshToken r' = raw_url_encode b'"
    by (rule refresh_commit_answers [where acc = acc' and k = k' and m = m',
        OF inv3 k3 _ alive3 [OF assms(6) fresh] _ calm3 assms(9) iss3 assms(10)]) (use r(2) in simp_all)
  have "b \<noteq> b'"
  proof
    assume "b = b'"
    then have "rand_gen E (tick w2 + 3) = rand_gen E (tick w2 + 15)" using r(2,3) r'(2) by (simp add: add.commute)
    with inj_onD [OF assms(7) this] show False by simp
  qed
  then have differ: "tr_RefreshToken r \<noteq> tr_RefreshToken r'" using r(4) r'(3) encode_neq by simp
  have owner': "canon_uuid E (rt_UserID rt) = Some (u_ID u')" using c1(5) rt'(2) by simp
  obtain n' where n': "auth_main.rotated E rt n' w3 w4" "rt_Token n' = tr_RefreshToken r'"
    using auth_main.refresh_commit_ok [OF inv3 r'(1) k3 set_status_simps(7) owner'] by metis
  show ?thesis
    using r(1) r'(1) f' rt'(1) n n' fresh differ
    by (intro exI [of _ r] exI [of _ w3] exI [of _ r'] exI [of _ w4] exI [of _ n] exI [of _ n'])
      (auto simp: auth_main.rotated_def)
qed

theorem interleaved_refreshes_both_succeed_witness:
  "\<exists>f w1 f' w2 r w3 r' w4. refresh_check sample_env sample_auth ''t'' sample_meta sample_active = (Inr f, w1)
    \<and> refresh_check sample_env sample_auth ''t'' sample_meta w1 = (Inr f', w2)
    \<and> refresh_commit sample_env sample_auth f sample_meta w2 = (Inr r, w3)
    \<and> refresh_commit sample_env sample_auth f' sample_meta w3 = (Inr r', w4) \<and> tr_RefreshToken r \<noteq> tr_RefreshToken r'"
proof -
  obtain f w1 where f: "refresh_check sample_env sample_auth ''t'' sample_meta sample_active = (Inr f, w1)"
    using ok_chain [OF sample_interleaved] by blast
  note s1 = sample_interleaved [unfolded f prod.case sum.case]
  obtain f' w2 where f': "refresh_check sample_env sample_auth ''t'' sample_meta w1 = (Inr f', w2)"
    using ok_chain [OF s1] by blast
  note s2 = s1 [unfolded f' prod.case sum.case]
  obtain u acc k where f3: "f = (sample_token ''ACTIVE'', u, acc, k)" "u_ID u = ''u''" using s2 by (cases f) auto
  note c1 = auth_main.refresh_check_ok [OF sample_invs(1) f [unfolded f3]]
  obtain rt' u' acc' k' where f4: "f' = (rt', u', acc', k')" by (cases f')
  have kept: "kept_tokens sample_env w2 ''t'' = Some (sample_token ''ACTIVE'')"
    using auth_main.refresh_check_ok(7) [OF c1(6) f' [unfolded f4]] c1(7) by simp
  have clock: "clock sample_env n = int n * second" for n by (simp add: sample_env_def)
  have calm: "undisturbed sample_env (tick w2) (tick w2 + 24)" by (rule sample_undisturbed) simp_all
  have alive: "\<not> token_gone sample_env (at_tick w2 (tick w2 + 24)) (trim_space ''t'')"
    using kept s2 by (simp add: token_gone_at clock) (simp add: sample_token_def)
  have inj: "inj_on (rand_gen sample_env) {tick w2..<tick w2 + 24}"
    by (rule inj_onI) (simp add: sample_env_def replicate_eq_replicate)
  have long: "clock sample_env (tick w2 + 24) + millisecond \<le> rt_ExpiresAt (sample_token ''ACTIVE'')"
    using s2 by (simp add: clock sample_token_def)
  have drawn: "never_drawn sample_env (tick w2) (trim_space ''t'')" by (simp add: sample_never_drawn)
  have st: "storable sample_env (set_status ''USED'' (sample_token ''ACTIVE''))" "is_ok (pg_uuid sample_env (rt_SessionID (sample_token ''ACTIVE'')))"
    by (simp_all add: sample_storable)
  have iss: "issuable sample_env sample_tokens (u_ID u) (rt_SessionID (sample_token ''ACTIVE'')) (tick w2) (tick w2 + 24)"
    using s2 f3(2) by (intro sample_issuable) (simp_all add: sample_token_def)
  from interleaved_refreshes_both_succeed [OF sample_invs(1) f [unfolded f3(1)] f' calm alive long inj drawn st iss] f f' f3(1)
  show ?thesis by metis
qed

text \<open>
  C19. A refresh that is past its checks when the owner of its token logs out everywhere still
  completes, if nothing outside fails during its twelve ticks and the token does not expire:
  the store then holds an ACTIVE token of the user, in the session it had, although no
  session of the user is ACTIVE any more.
\<close>

theorem refresh_in_flight_survives_logout_all:
  assumes "token_inv E w"
    and "refresh_check E (auth_wiring E ts) v m w = (Inr (rt, owner, acc, k), w1)"
    and "trim_space u = rt_UserID rt" and "trim_space u \<noteq> ''''"
    and "LogoutAll E (auth_wiring E ts) u m' w1 = (Inr q, w2)"
    and "undisturbed E (tick w2) (tick w2 + 12)"
    and "\<not> token_gone E (at_tick w2 (tick w2 + 12)) (trim_space v)"
    and "storable E (set_status ''USED'' rt)" and "is_ok (pg_uuid E (rt_SessionID rt))"
    and "issuable E ts (u_ID owner) (rt_SessionID rt) (tick w2) (tick w2 + 12)"
  shows "\<exists>r w3 n. refresh_commit E (auth_wiring E ts) (rt, owner, acc, k) m w2 = (Inr r, w3)
    \<and> kept_tokens E w3 (tr_RefreshToken r) = Some n \<and> rt_Status n = ''ACTIVE'' \<and> rt_SessionID n = rt_SessionID rt
    \<and> pg_uuid E (trim_space u) = Inr (rt_UserID n)
    \<and> (\<forall>x \<in> set (sessions w3). pg_uuid E (trim_space u) = Inr (s_UserID x) \<longrightarrow> s_Status x \<noteq> ''ACTIVE'')"
proof -
  note c = auth_main.refresh_check_ok [OF assms(1) assms(2)]
  note signed = auth_main.logout_all_ok [OF c(6) assms(4,5)]
  note out = signed [unfolded auth_main.signed_out_def]
  then have "\<forall>t. revoked_from (kept_tokens E w1 t) (kept_tokens E w2 t)" by blast
  moreover have "kept_tokens E w1 (rt_Token rt) = Some rt" using c(1,3,7) by simp
  ultimately obtain rt0 where rt0: "kept_tokens E w2 (rt_Token rt) = Some rt0" "set_status ''USED'' rt0 = set_status ''USED'' rt"
    unfolding revoked_from_def by (metis option.map(2) set_status_simps(7))
  have inv2: "token_inv E w2" using out by blast
  have alive: "\<not> token_gone E (at_tick w2 (tick w2 + 12)) (rt_Token rt)" using assms(7) c(3) by simp
  obtain r w3 b where r: "refresh_commit E (auth_wiring E ts) (rt, owner, acc, k) m w2 = (Inr r, w3)" "tick w3 = tick w2 + 12"
    "rand_gen E (tick w2 + 3) = Inr b" "tr_RefreshToken r = raw_url_encode b"
    by (rule refresh_commit_answers [where acc = acc and k = k and m = m, OF inv2 rt0 alive order_refl assms(6,8,10,9)]) iprover
  obtain n where n: "auth_main.rotated E rt n w2 w3" "rt_Token n = tr_RefreshToken r"
    using auth_main.refresh_commit_ok [OF inv2 r(1) rt0 c(5)] by metis
  have "s_Status x \<noteq> ''ACTIVE''" if "x \<in> set (sessions w2)" "pg_uuid E (trim_space u) = Inr (s_UserID x)" for x
    using that unfolding signed_out_tables(5) [OF signed] by (auto simp: sign_out_row_def split: if_splits)
  moreover obtain now where "sessions w3 =
      update_where (has_session_id (canon_uuid E (rt_SessionID rt))) (\<lambda>x. x\<lparr>s_LastUsedAt := now\<rparr>) (sessions w2)"
    using n(1) unfolding auth_main.rotated_def by blast
  ultimately have "s_Status x \<noteq> ''ACTIVE''" if "x \<in> set (sessions w3)" "pg_uuid E (trim_space u) = Inr (s_UserID x)" for x
    using that by (auto simp: in_update_where split: if_splits)
  then show ?thesis
    using r(1) n assms(3)
    by (intro exI [of _ r] exI [of _ w3] exI [of _ n]) (auto simp: auth_main.rotated_def)
qed

theorem refresh_in_flight_survives_logout_all_witness:
  "\<exists>f w1 q w2 r w3 n. refresh_check sample_env sample_auth ''t'' sample_meta sample_active = (Inr f, w1)
    \<and> LogoutAll sample_env sample_auth ''u'' sample_meta w1 = (Inr q, w2)
    \<and> refresh_commit sample_env sample_auth f sample_meta w2 = (Inr r, w3)
    \<and> kept_tokens sample_env w3 (tr_RefreshToken r) = Some n \<and> rt_Status n = ''ACTIVE'' \<and> rt_UserID n = ''u''"
proof -
  obtain f w1 where c: "refresh_check sample_env sample_auth ''t'' sample_meta sample_active = (Inr f, w1)"
    using sample_in_flight by (auto split: prod.splits sum.splits)
  note s1 = sample_in_flight [unfolded c prod.case sum.case]
  obtain q w2 where q: "LogoutAll sample_env sample_auth ''u'' sample_meta w1 = (Inr q, w2)"
    using ok_chain [OF s1] by blast
  note s2 = s1 [unfolded q prod.case sum.case]
  obtain u acc k where f: "f = (sample_token ''ACTIVE'', u, acc, k)" "u_ID u = ''u''" using s2 by (cases f) auto
  note c1 = auth_main.refresh_check_ok [OF sample_invs(1) c [unfolded f(1)]]
  have ne: "trim_space ''u'' \<noteq> ''''" "trim_space ''u'' = rt_UserID (sample_token ''ACTIVE'')" by (simp_all add: sample_token_def)
  have "revoked_from (kept_tokens sample_env w1 ''t'') (kept_tokens sample_env w2 ''t'')"
    using auth_main.logout_all_ok [OF c1(6) ne(1) q] unfolding auth_main.signed_out_def by blast
  then obtain rt where kept: "kept_tokens sample_env w2 ''t'' = Some rt" "rt_ExpiresAt rt = 3600 * second"
    using c1(7) by (auto simp: revoked_from_def sample_token_def)
  obtain d where d: "deadline (kspace sample_env w2) (redisRefreshTokenKey ''t'') = Some d" "1000 * second < d" "tick w2 < 100"
    using s2 by (auto split: option.splits)
  have "clock sample_env n = int n * second" for n by (simp add: sample_env_def)
  then have alive: "\<not> token_gone sample_env (at_tick w2 (tick w2 + 12)) (trim_space ''t'')"
    using kept d by (simp add: token_gone_at)
  have iss: "issuable sample_env sample_tokens (u_ID u) (rt_SessionID (sample_token ''ACTIVE'')) (tick w2) (tick w2 + 12)"
    using d(3) f(2) by (intro sample_issuable) (simp_all add: sample_token_def)
  have "storable sample_env (set_status ''USED'' (sample_token ''ACTIVE''))" "is_ok (pg_uuid sample_env (rt_SessionID (sample_token ''ACTIVE'')))"
    by (simp_all add: sample_storable)
  from refresh_in_flight_survives_logout_all [OF sample_invs(1) c [unfolded f(1)] ne(2,1) q sample_undisturbed alive this iss]
  show ?thesis using c q f(1) by (auto simp: sample_trim)
qed

section \<open>Every run\<close>

text \<open>
  C15. Whatever is requested of the service, in any order: identifiers and addresses stay
  unique, sessions and audit entries belong to registered users, a session is ACTIVE or
  REVOKED, every stored token is readable, carries a lifetime, is in both of its indexes and
  is ACTIVE, USED or REVOKED.
\<close>

theorem run_keeps_stores:
  assumes "auth_run E (auth_wiring E ts) w w'" and "sql_ok E w" and "tokens_ok E w"
  shows "sql_ok E w' \<and> tokens_ok E w'"
  using auth_invariants.run_steady [OF assms(1)] assms(2,3) by (simp add: stores_kept_def)

theorem run_keeps_stores_witness:
  "sql_ok sample_env (perform sample_env sample_auth (LogoutAllRequest ''u'' sample_meta) sample_active)"
proof -
  have "pred_option known_status (kept_tokens sample_env sample_active tk)" for tk
    using sample_kepts(1) [of "''ACTIVE''"]
    by (cases "tk = ''t''") (simp_all add: kept_tokens_def sample_keys_def known_status_def sample_token_def)
  then have "tokens_ok sample_env sample_active" by (simp add: tokens_ok_def)
  then show ?thesis using run_keeps_stores [OF auth_run.request [OF auth_run.start] sample_sqls(1)] by blast
qed

text \<open>
  C16. No request alters or removes a user or an entry of the audit log: both tables only
  grow at their end.
\<close>

theorem run_keeps_history:
  assumes "auth_run E (auth_wiring E ts) w w'"
  shows "prefix (users w) (users w') \<and> prefix (audit_logs w) (audit_logs w')"
  using auth_history.run_steady [OF assms] by (simp add: history_def)

theorem run_keeps_history_witness:
  "prefix (users sample_active) (users (perform sample_env sample_auth (LogoutAllRequest ''u'' sample_meta) sample_active))"
  using run_keeps_history [OF auth_run.request [OF auth_run.start, of sample_env sample_auth sample_active "LogoutAllRequest ''u'' sample_meta"]]
  by simp

text \<open>
  C17. A revoked session is never active again.
\<close>

theorem revoked_session_stays_revoked:
  assumes "sql_ok E w" and "x \<in> set (sessions w)" and "s_Status x = ''REVOKED''"
    and "auth_run E (auth_wiring E ts) w w'"
  shows "\<forall>y \<in> set (sessions w'). s_ID y = s_ID x \<longrightarrow> s_Status y = ''REVOKED''"
proof -
  obtain y where y: "y \<in> set (sessions w')" "s_ID y = s_ID x" "s_Status y = ''REVOKED''"
    using revoked_session_lasts [OF assms] by blast
  have "sql_ok E w'" using auth_invariants.run_steady [OF assms(4)] assms(1) by (simp add: stores_kept_def)
  with y show ?thesis by (metis sql_ok_def distinct_map inj_onD)
qed

theorem revoked_session_stays_revoked_witness:
  "\<not> list_ex (\<lambda>y. s_ID y = ''s'' \<and> s_Status y \<noteq> ''REVOKED'')
    (sessions (perform sample_env sample_auth (LogoutAllRequest ''u'' sample_meta) (sample_world ''ACTIVE'' ''REVOKED'')))"
  using revoked_session_stays_revoked [OF sample_sqls(2) _ _ auth_run.request [OF auth_run.start],
      of _ "''ACTIVE''" sample_tokens "LogoutAllRequest ''u'' sample_meta"]
  by (auto simp: sample_world_def list_ex_iff)

end
