(* ===== verification/Token_Properties.thy ===== *)
theory Token_Properties
  imports Auth_Properties
begin

text \<open>
  The Redis implementation of \<open>RefreshTokenRepository\<close> refines a plain map from token values to
  tokens: \<open>token_spec\<close> says what a call may do to the map, \<open>kept_tokens\<close> is the abstraction.
\<close>

section \<open>Calls\<close>

datatype token_op =
    FindOp string
  | CreateOp refresh_token
  | UpdateOp string string
  | RevokeOp string
  | RevokeSessionOp string
  | RevokeUserOp string

definition no_value :: "(err + unit) \<times> 'w \<Rightarrow> (err + refresh_token option) \<times> 'w" where
  "no_value res = (case res of (Inl e, w) \<Rightarrow> (Inl e, w) | (Inr _, w) \<Rightarrow> (Inr None, w))"

fun token_call :: "'w token_repository \<Rightarrow> token_op \<Rightarrow> 'w \<Rightarrow> (err + refresh_token option) \<times> 'w" where
  "token_call R (FindOp t) w =
     (case rtr_FindByToken R t w of (Inl e, w) \<Rightarrow> (Inl e, w) | (Inr rt, w) \<Rightarrow> (Inr (Some rt), w))"
| "token_call R (CreateOp rt) w = no_value (rtr_Create R rt w)"
| "token_call R (UpdateOp t st) w = no_value (rtr_UpdateStatus R t st w)"
| "token_call R (RevokeOp t) w = no_value (rtr_RevokeByToken R t w)"
| "token_call R (RevokeSessionOp i) w = no_value (rtr_RevokeAllBySession R i w)"
| "token_call R (RevokeUserOp u) w = no_value (rtr_RevokeAllByUser R u w)"

section \<open>The specification\<close>

text \<open>
  The abstract store is a map, with a registry of the tokens created for each user and for each
  session, which only \<open>CreateOp\<close> extends; \<open>expired\<close> are the tokens whose time was over at the end of the
  call. A call that reports an error may or may not have had its effect, but never another.
\<close>

type_synonym token_map = "string \<Rightarrow> refresh_token option"

type_synonym registry = "(string \<Rightarrow> string set) \<times> (string \<Rightarrow> string set)"

definition registered :: "token_op \<Rightarrow> registry \<Rightarrow> registry" where
  "registered op reg = (case op of CreateOp rt \<Rightarrow> put_token rt reg | _ \<Rightarrow> reg)"

definition rewritten :: "string \<Rightarrow> string \<Rightarrow> token_map \<Rightarrow> token_map \<Rightarrow> bool" where
  "rewritten t st m m' \<longleftrightarrow> (\<exists>rt. m t = Some rt \<and> m' = m(t \<mapsto> rt\<lparr>rt_Status := st\<rparr>))"

definition mass_revoked ::
  "string set \<Rightarrow> (refresh_token \<Rightarrow> bool) \<Rightarrow> (string \<Rightarrow> bool) \<Rightarrow> (err + refresh_token option) \<Rightarrow> token_map \<Rightarrow> token_map \<Rightarrow> bool" where
  "mass_revoked S P expired res m m' \<longleftrightarrow>
     (\<forall>t. m' t = m t \<or> t \<in> S \<and> m' t = map_option (\<lambda>rt. rt\<lparr>rt_Status := ''REVOKED''\<rparr>) (m t))
   \<and> (res = Inr None \<longrightarrow> (\<forall>t rt. m' t = Some rt \<and> P rt \<longrightarrow> expired t \<or> rt_Status rt \<notin> {''ACTIVE'', ''USED''}))"

definition update_spec :: "(string \<Rightarrow> bool) \<Rightarrow> string \<Rightarrow> string \<Rightarrow> err + refresh_token option \<Rightarrow> token_map \<Rightarrow> token_map \<Rightarrow> bool" where
  "update_spec expired t st res m m' \<longleftrightarrow>
     (if is_ok res then rewritten t st m m' else m' = m \<or> rewritten t st m m')
   \<and> (res = Inl ErrRefreshTokenNotFound \<longrightarrow> m' = m \<and> (m t = None \<or> expired t))"

fun token_spec :: "registry \<Rightarrow> (string \<Rightarrow> bool) \<Rightarrow> token_op \<Rightarrow> err + refresh_token option \<Rightarrow> token_map \<Rightarrow> token_map \<Rightarrow> bool" where
  "token_spec reg expired (FindOp t) res m m' \<longleftrightarrow> m' = m
     \<and> (\<forall>x. res = Inr x \<longrightarrow> x = m t \<and> x \<noteq> None)
     \<and> (res = Inl ErrRefreshTokenNotFound \<longrightarrow> m t = None \<or> expired t)"
| "token_spec reg expired (CreateOp rt) res m m' \<longleftrightarrow>
     (if is_ok res then m' = m(rt_Token rt \<mapsto> rt) else m' = m \<or> m' = m(rt_Token rt \<mapsto> rt))"
| "token_spec reg expired (UpdateOp t st) res m m' \<longleftrightarrow> update_spec expired t st res m m'"
| "token_spec reg expired (RevokeOp t) res m m' \<longleftrightarrow> update_spec expired t ''REVOKED'' res m m'"
| "token_spec reg expired (RevokeSessionOp i) res m m' \<longleftrightarrow> mass_revoked (snd reg i) (\<lambda>rt. rt_SessionID rt = i) expired res m m'"
| "token_spec reg expired (RevokeUserOp u) res m m' \<longleftrightarrow> mass_revoked (fst reg u) (\<lambda>rt. rt_UserID rt = u) expired res m m'"

lemma no_value_cases:
  assumes "no_value x = (res, w')"
  obtains e where "x = (Inl e, w')" and "res = Inl e" | "x = (Inr (), w')" and "res = Inr None"
  using assms unfolding no_value_def by (auto split: prod.splits sum.splits)

lemma rewritten_set_status: "m t = Some rt \<and> m' = m(t \<mapsto> set_status st rt) \<Longrightarrow> rewritten t st m m'"
  unfolding rewritten_def set_status_def by blast

lemma mass_revoked_intro:
  assumes "redis_cells.revokes E w w'" and "\<forall>t. t \<notin> S \<longrightarrow> kept_tokens E w' t = kept_tokens E w t"
    and "res = Inr None \<Longrightarrow> (\<And>t rt. kept_tokens E w' t = Some rt \<Longrightarrow> P rt \<Longrightarrow> redis_cells.retired E w' t)"
  shows "mass_revoked S P (token_gone E w') res (kept_tokens E w) (kept_tokens E w')
    \<and> token_inv E w' \<and> token_indexes E w' = token_indexes E w"
proof -
  have "(\<lambda>rt. rt\<lparr>rt_Status := ''REVOKED''\<rparr>) = set_status ''REVOKED''" by (simp add: set_status_def fun_eq_iff)
  then show ?thesis
    using assms unfolding mass_revoked_def redis_cells.revokes_def revoked_from_def redis_cells.retired_def unspendable_def
    by (auto simp: spendable_def)
qed

lemma update_refines:
  assumes inv: "token_inv E w" and call: "no_value (rt_UpdateStatus E t st w) = (res, w')"
  shows "token_inv E w' \<and> token_indexes E w' = token_indexes E w
    \<and> update_spec (token_gone E w') t st res (kept_tokens E w) (kept_tokens E w')"
  using call
proof (cases rule: no_value_cases)
  case (1 e)
  with redis_cells.upd_err [OF inv 1(1)] redis_cells.upd_frame [OF inv 1(1)] redis_cells.upd_missing [OF inv, of t st w']
  show ?thesis by (auto simp: update_spec_def intro: rewritten_set_status)
next
  case 2
  with redis_cells.upd_ok [OF inv 2(1)] redis_cells.upd_frame [OF inv 2(1)] show ?thesis
    by (auto simp: update_spec_def intro: rewritten_set_status)
qed

section \<open>The refinement\<close>

text \<open>
  C20. Redis refines the map: every call of the repository, on every keyspace the program can
  produce, keeps the keyspace well formed and does to the stored tokens what the
  specification allows for its result.
\<close>

theorem redis_refines_token_map:
  assumes inv: "token_inv E w" and call: "token_call (RedisRefreshTokenRepository E) op w = (res, w')"
  shows "token_inv E w' \<and> token_spec (token_indexes E w) (token_gone E w') op res (kept_tokens E w) (kept_tokens E w')
    \<and> (token_indexes E w' = registered op (token_indexes E w) \<or> \<not> is_ok res \<and> token_indexes E w' = token_indexes E w)"
proof -
  note upd = update_refines [OF inv]
  show ?thesis
  proof (cases op)
    case (FindOp t)
    obtain f w1 where f: "rt_FindByToken E t w = (f, w1)" by (cases "rt_FindByToken E t w")
    with call FindOp redis_cells.find_frame [OF inv f] redis_cells.find_ok [OF inv, of t _ w1]
      redis_cells.find_missing [OF inv, of t w1]
    show ?thesis by (cases f) (auto simp: rt_repo_defs registered_def)
  next
    case (CreateOp rt)
    with call have "no_value (rtr_Create (RedisRefreshTokenRepository E) rt w) = (res, w')" by simp
    then show ?thesis
    proof (cases rule: no_value_cases)
      case (1 e)
      with CreateOp redis_tokens.create_err [OF inv 1(1)] redis_tokens.create_inv [OF inv 1(1)] show ?thesis
        by (auto simp: registered_def)
    next
      case 2
      with CreateOp redis_tokens.create_ok [OF inv 2(1)] redis_tokens.create_inv [OF inv 2(1)] show ?thesis
        by (auto simp: registered_def)
    qed
  next
    case (RevokeSessionOp i)
    with call have "no_value (rtr_RevokeAllBySession (RedisRefreshTokenRepository E) i w) = (res, w')" by simp
    then have "mass_revoked (snd (token_indexes E w) i) (\<lambda>rt. rt_SessionID rt = i) (token_gone E w') res (kept_tokens E w) (kept_tokens E w')
        \<and> token_inv E w' \<and> token_indexes E w' = token_indexes E w"
    proof (cases rule: no_value_cases)
      case (1 e)
      with redis_tokens.all_by_session [OF inv 1(1)] show ?thesis by (intro mass_revoked_intro) simp_all
    next
      case 2
      with redis_tokens.all_by_session [OF inv 2(1)] redis_tokens.all_by_session_owned [OF inv 2(1)] show ?thesis
        by (intro mass_revoked_intro) simp_all
    qed
    then show ?thesis by (simp add: RevokeSessionOp registered_def)
  next
    case (RevokeUserOp u)
    with call have "no_value (rtr_RevokeAllByUser (RedisRefreshTokenRepository E) u w) = (res, w')" by simp
    then have "mass_revoked (fst (token_indexes E w) u) (\<lambda>rt. rt_UserID rt = u) (token_gone E w') res (kept_tokens E w) (kept_tokens E w')
        \<and> token_inv E w' \<and> token_indexes E w' = token_indexes E w"
    proof (cases rule: no_value_cases)
      case (1 e)
      with redis_tokens.all_by_user [OF inv 1(1)] show ?thesis by (intro mass_revoked_intro) simp_all
    next
      case 2
      with redis_tokens.all_by_user [OF inv 2(1)] redis_tokens.all_by_user_owned [OF inv 2(1)] show ?thesis
        by (intro mass_revoked_intro) simp_all
    qed
    then show ?thesis by (simp add: RevokeUserOp registered_def)
  qed (use upd call in \<open>auto simp: rt_repo_defs registered_def\<close>)
qed

theorem redis_refines_token_map_witness:
  "\<exists>w'. token_call (RedisRefreshTokenRepository sample_env) (UpdateOp ''t'' ''USED'') sample_active = (Inr None, w')
    \<and> token_inv sample_env w'
    \<and> kept_tokens sample_env w' = (kept_tokens sample_env sample_active)(''t'' \<mapsto> sample_token ''USED'')"
proof -
  have "fst (token_call (RedisRefreshTokenRepository sample_env) (UpdateOp ''t'' ''USED'') sample_active) = Inr None"
    by code_simp
  then obtain w' where call: "token_call (RedisRefreshTokenRepository sample_env) (UpdateOp ''t'' ''USED'') sample_active = (Inr None, w')"
    by (metis prod.collapse)
  have "kept_tokens sample_env sample_active ''t'' = Some (sample_token ''ACTIVE'')" by simp
  moreover have "(sample_token ''ACTIVE'')\<lparr>rt_Status := ''USED''\<rparr> = sample_token ''USED''" by (simp add: sample_token_def)
  ultimately show ?thesis
    using redis_refines_token_map [OF sample_invs(1) call] call by (auto simp: update_spec_def rewritten_def)
qed

end
