(* ===== verification/Service_Properties.thy ===== *)
theory Service_Properties
  imports Sample
begin

text \<open>
  The properties of the configuration, the token service and the rate limiter.
\<close>

section \<open>Configuration\<close>

lemma load_config_ok:
  assumes "Load U os = Inr cfg"
  shows "trim_space (JWTAccessSecret cfg) \<noteq> '''' \<and> 0 < JWTAccessTTLMinutes cfg \<and> 0 < RefreshTokenTTLHours cfg
    \<and> 0 < RequestTimeoutSec cfg \<and> 0 < ShutdownTimeoutSec cfg
    \<and> (equal_fold U (trim_space (CookieSameSite cfg)) ''none'' \<longrightarrow> CookieSecure cfg)
    \<and> (CORSAllowCredentials cfg \<longrightarrow> CORSAllowedOrigins cfg \<noteq> [])
    \<and> (AppEnv cfg = ''production'' \<longrightarrow> CookieSecure cfg \<and> \<not> equal_fold U (trim_space (DBSSLMode cfg)) ''disable''
        \<and> JWTAccessSecret cfg \<noteq> defaultJWTSecret \<and> 32 \<le> length (JWTAccessSecret cfg))"
proof -
  from assms have cfg: "cfg = applySecureDefaults U (read_config U os)" and ok: "config_ok U cfg"
    unfolding Load_Inr_iff by blast+
  have "AppEnv cfg = ''production'' \<Longrightarrow> CookieSecure cfg \<and> \<not> equal_fold U (trim_space (DBSSLMode cfg)) ''disable''"
    unfolding cfg applySecureDefaults_frame by (rule applySecureDefaults_production)
  then show ?thesis using ok unfolding config_ok_def by auto
qed

text \<open>
  A configuration that loads is safe to serve with: there is a signing secret, lifetimes
  and timeouts are positive, \<open>SameSite=None\<close> comes with \<open>Secure\<close> and credentials with explicit
  origins; in production cookies are \<open>Secure\<close>, the connection to the database is not in the
  clear, and the secret is neither the default nor shorter than 32 bytes.
\<close>

definition sample_os :: getenv where
  "sample_os k =
     (if k = ''APP_ENV'' then '' Prod''
      else if k = ''JWT_ACCESS_SECRET'' then replicate 32 (CHR ''x'')
      else if k = ''CORS_ALLOWED_ORIGINS'' then ''https://a, https://b''
      else if k = ''COOKIE_SECURE'' then ''0'' else '''')"

lemma sample_loads:
  "case Load sample_unicode sample_os of Inl p \<Rightarrow> False
   | Inr cfg \<Rightarrow> AppEnv cfg = ''production'' \<and> CORSAllowedOrigins cfg = [''https://a'', ''https://b'']"
  by code_simp

text \<open>
  Lists survive the environment: entries that are visible ASCII without a comma, written
  with commas and any spaces after them, are read back in order and none is lost.
\<close>

lemma csv_entries:
  "es \<noteq> [] \<Longrightarrow> \<forall>e \<in> set es. list_all graphic e \<and> CHR '','' \<notin> set e \<Longrightarrow>
   map trim_space (split_on (CHR '','') (join '', '' es)) = es"
proof (induction "'', ''" es rule: join.induct)
  case (3 x y ys)
  have lead: "trim_space (CHR '' '' # s) = trim_space s" for s
    by (simp add: trim_space_def trim_left_def strip_front.simps [of _ "CHR '' '' # s"] space_len_def go_spaces_def has_prefix_def)
  have head: "map trim_space (split_on c (CHR '' '' # s)) = map trim_space (split_on c s)" if "c \<noteq> CHR '' ''" for c s
    using that by (auto simp: lead split: list.splits)
  have "split_on (CHR '','') (x @ '', '' @ join '', '' (y # ys)) = x # split_on (CHR '','') (CHR '' '' # join '', '' (y # ys))"
    using 3(3) split_on_append [of "CHR '',''" x] by simp
  then show ?case using 3 by (simp add: head trim_space_graphic del: split_on.simps)
qed (auto simp: split_on_free trim_space_graphic)

lemma csv_round_trip:
  assumes "es \<noteq> []" and "list_all (\<lambda>e. e \<noteq> '''' \<and> list_all graphic e \<and> CHR '','' \<notin> set e) es"
    and "trim_space (os key) = join '', '' es"
  shows "getEnvAsCSV os key = es \<and> getEnvAsCSVWithDefault os key fallback = es"
proof -
  have "join '', '' es \<noteq> ''''" using assms(1,2) by (cases "('', '', es)" rule: join.cases) auto
  moreover have "map trim_space (split_on (CHR '','') (join '', '' es)) = es"
    using assms(1,2) by (intro csv_entries) (auto simp: list_all_iff)
  moreover have "filter (\<lambda>e. e \<noteq> '''') es = es" using assms(2) by (simp add: list_all_iff filter_id_conv)
  ultimately have "getEnvAsCSV os key = es" by (simp add: getEnvAsCSV_def assms(3))
  then show ?thesis using assms(1) by (simp add: getEnvAsCSVWithDefault_def)
qed

lemma csv_round_trip_witness:
  "getEnvAsCSV (\<lambda>k. ''GET, POST'') ''CORS_ALLOWED_METHODS'' = [''GET'', ''POST'']"
proof -
  have "trim_space ''GET, POST'' = join '', '' [''GET'', ''POST'']" by code_simp
  from csv_round_trip [of "[''GET'', ''POST'']" "\<lambda>k. ''GET, POST''" "''CORS_ALLOWED_METHODS''", OF _ _ this]
  show ?thesis by (simp add: graphic_def)
qed

section \<open>Access tokens\<close>

text \<open>
  C28. An access token that was issued is accepted again until its lifetime is over, and
  yields the identity it was issued for.
\<close>

theorem access_token_round_trip:
  assumes "jwt_laws (jwt E)" and "clock_laws E"
    and "GenerateAccessToken E ts u em w = (Inr (tok, n), w')" and "u \<noteq> ''''" and "em \<noteq> ''''"
    and "tick w' \<le> tick w2" and "cur E w2 \<le> cur E w + dur_mul (ts_accessTTLMinutes ts) minute"
  shows "ValidateAccessToken E ts tok w2 = (Inr \<lparr>ai_UserID = u, ai_Email = em\<rparr>, step w2)"
proof -
  let ?xp = "cur E w + dur_mul (ts_accessTTLMinutes ts) minute"
  note ok = GenerateAccessToken_ok [OF assms(3)]
  have "cur E w \<le> cur E w2" using ok assms(6) by (intro cur_mono [OF assms(2)]) simp
  moreover have "?xp < ?xp div second * second + 30 * second"
    using pos_mod_bound [of second ?xp] by (simp add: minus_mod_eq_div_mult [symmetric])
  ultimately have "fst (ValidateAccessToken E ts tok w2) = Inr \<lparr>ai_UserID = u, ai_Email = em\<rparr>"
    using ok assms(7) by (intro signed_token_validates [OF assms(1) _ assms(4,5)]) auto
  then show ?thesis
    using ValidateAccessToken_frame [of E ts tok w2] by (metis prod.collapse)
qed

text \<open>A JWT library for one token, which obeys the laws.\<close>

definition sample_claims :: map_claims where
  "sample_claims = access_claims sample_tokens ''u'' ''e'' 0 (900 * second)"

definition one_jwt :: jwt_lib where
  "one_jwt =
     \<lparr>jwt_SignedString = (\<lambda>m c key.
        if m = SigningMethodHMAC ''HS256'' \<and> c = sample_claims \<and> key = ''secret'' then Inr ''jwt'' else Inl (OtherErr ''jwt'')),
      jwt_Parse = (\<lambda>opts kf t tok.
        if tok = ''jwt'' \<and> kf (SigningMethodHMAC ''HS256'') = Inr ''secret'' \<and> ''HS256'' \<in> set (opt_ValidMethods opts)
           \<and> claims_addressed opts sample_claims \<and> claims_timely opts sample_claims t
        then Inr \<lparr>jt_Valid = True, jt_Claims = MapClaims sample_claims\<rparr> else Inl (OtherErr ''jwt'')),
      jwt_GetSubject = (\<lambda>c. case c ''sub'' of None \<Rightarrow> Inr '''' | Some (JString s) \<Rightarrow> Inr s | Some _ \<Rightarrow> Inl (OtherErr ''jwt''))\<rparr>"

lemma one_jwt_laws: "jwt_laws one_jwt"
  unfolding jwt_laws_def
proof (intro conjI)
  show "\<forall>m c key tok opts kf t. jwt_SignedString one_jwt m c key = Inr tok \<longrightarrow> kf m = Inr key \<longrightarrow>
      method_alg m \<in> set (opt_ValidMethods opts) \<longrightarrow> claims_addressed opts c \<longrightarrow> claims_timely opts c t \<longrightarrow>
      (\<exists>c'. jwt_Parse one_jwt opts kf t tok = Inr \<lparr>jt_Valid = True, jt_Claims = MapClaims c'\<rparr> \<and> string_members_agree c c')"
    by (auto simp: one_jwt_def string_members_agree_def split: if_splits)
  show "\<forall>opts kf t tok jt. jwt_Parse one_jwt opts kf t tok = Inr jt \<longrightarrow> jt_Valid jt \<longrightarrow>
      (\<exists>m key. method_alg m \<in> set (opt_ValidMethods opts) \<and> kf m = Inr key)
      \<and> (\<forall>c. jt_Claims jt = MapClaims c \<longrightarrow> claims_addressed opts c \<and> claims_timely opts c t)"
    by (auto simp: one_jwt_def split: if_splits intro!: exI [of _ "SigningMethodHMAC ''HS256''"])
qed (simp_all add: one_jwt_def)

lemma sample_tokens_simps [simp]:
  "ts_accessSecret sample_tokens = ''secret''" "ts_accessTTLMinutes sample_tokens = 15"
  by (simp_all add: NewTokenService_def)

lemma one_jwt_signs:
  "jwt_SignedString one_jwt (SigningMethodHMAC ''HS256'') (access_claims sample_tokens ''u'' ''e'' 0 900000000000) ''secret'' = Inr ''jwt''"
  by (simp add: one_jwt_def sample_claims_def)

lemma one_jwt_accepts:
  assumes "0 \<le> t" and "t < 930 * second"
  shows "jwt_Parse one_jwt (access_options sample_tokens) (access_keyfunc sample_tokens) t ''jwt''
      = Inr \<lparr>jt_Valid = True, jt_Claims = MapClaims sample_claims\<rparr>"
    and "jwt_GetSubject one_jwt sample_claims = Inr ''u''" and "sample_claims ''email'' = Some (JString ''e'')"
  using assms
  by (simp_all add: one_jwt_def claims_addressed_def claims_timely_def sample_claims_def access_options_def
      access_keyfunc_def NewTokenService_def)

abbreviation jwt_env :: "keyspace env" where
  "jwt_env \<equiv> sample_env\<lparr>jwt := one_jwt\<rparr>"

lemma sample_clock: "clock_laws sample_env" "clock_laws jwt_env" "cur jwt_env w = int (tick w) * second"
  "cur sample_env w = int (tick w) * second" "tick (sample_world st sst) = 0" "dur_mul 15 60000000000 = 900000000000"
  by (simp_all add: clock_laws_def sample_env_def cur_def sample_world_def dur_mul_def int64_range_def)

lemma jwt_env_issues:
  "GenerateAccessToken jwt_env sample_tokens ''u'' ''e'' sample_active = (Inr (''jwt'', 899), step (step sample_active))"
  using one_jwt_signs by (simp add: GenerateAccessToken_def time_now_def sample_clock Let_def time_sub_def quot_def)

theorem access_token_round_trip_witness:
  "fst (ValidateAccessToken jwt_env sample_tokens ''jwt'' (step (step sample_active))) = Inr \<lparr>ai_UserID = ''u'', ai_Email = ''e''\<rparr>"
  using access_token_round_trip [OF _ sample_clock(2) jwt_env_issues, of "step (step sample_active)"] one_jwt_laws
  by (simp add: sample_clock)

text \<open>What the checks of the library come to, claim by claim.\<close>

lemma checked_claims:
  assumes "claims_addressed opts c" and "claims_timely opts c t"
  shows "opt_Issuer opts \<noteq> '''' \<Longrightarrow> c ''iss'' = Some (JString (opt_Issuer opts))"
    and "opt_Audience opts \<noteq> '''' \<Longrightarrow> c ''aud'' = Some (JString (opt_Audience opts))
      \<or> (\<exists>auds. c ''aud'' = Some (JStrings auds) \<and> opt_Audience opts \<in> set auds)"
    and "c ''nbf'' = Some (JInt n) \<Longrightarrow> n \<noteq> 0 \<Longrightarrow> n * second - opt_Leeway opts \<le> t"
    and "c ''exp'' = Some (JInt n) \<Longrightarrow> n \<noteq> 0 \<Longrightarrow> t < n * second + opt_Leeway opts"
  using assms by (auto simp: claims_addressed_def claims_timely_def split: option.splits jwt_value.splits)

text \<open>
  C29. Whatever string is presented as an access token, validation ends in the one error
  \<open>ErrInvalidToken\<close> or in an identity that a parsed token carries. The token was parsed for
  HS256 alone, with the configured secret for HMAC methods and no key for any other; it names
  the configured issuer and audience (where they are not empty), is not used before its
  \<open>nbf\<close> or after its \<open>exp\<close> by more than 30 seconds, and its subject and e-mail are not empty.
  Validation changes nothing.
\<close>

theorem access_token_sound:
  assumes "jwt_laws (jwt E)" and "ValidateAccessToken E ts tok w = (res, w')"
  shows "w' = step w \<and> (case res of
      Inl e \<Rightarrow> e = ErrInvalidToken
    | Inr i \<Rightarrow> ai_UserID i \<noteq> '''' \<and> ai_Email i \<noteq> ''''
        \<and> (\<exists>c. jwt_Parse (jwt E)
              \<lparr>opt_ValidMethods = [''HS256''], opt_Issuer = ts_issuer ts, opt_Audience = ts_audience ts, opt_Leeway = 30 * second\<rparr>
              (\<lambda>m. case m of SigningMethodHMAC _ \<Rightarrow> Inr (ts_accessSecret ts) | SigningMethodOther _ \<Rightarrow> Inl ErrInvalidToken)
              (cur E w) tok = Inr \<lparr>jt_Valid = True, jt_Claims = MapClaims c\<rparr>
            \<and> (ts_issuer ts \<noteq> '''' \<longrightarrow> c ''iss'' = Some (JString (ts_issuer ts)))
            \<and> (ts_audience ts \<noteq> '''' \<longrightarrow> c ''aud'' = Some (JString (ts_audience ts))
                \<or> (\<exists>auds. c ''aud'' = Some (JStrings auds) \<and> ts_audience ts \<in> set auds))
            \<and> (\<forall>n. c ''nbf'' = Some (JInt n) \<and> n \<noteq> 0 \<longrightarrow> (n - 30) * second \<le> cur E w)
            \<and> (\<forall>n. c ''exp'' = Some (JInt n) \<and> n \<noteq> 0 \<longrightarrow> cur E w < (n + 30) * second)
            \<and> jwt_GetSubject (jwt E) c = Inr (ai_UserID i) \<and> c ''email'' = Some (JString (ai_Email i))))"
proof (cases res)
  case (Inl e)
  with assms(2) show ?thesis
    by (auto simp: ValidateAccessToken_def time_now_def split: sum.splits if_splits jwt_claims.splits option.splits jwt_value.splits)
next
  case (Inr i)
  with assms(2) obtain jt c where p: "jwt_Parse (jwt E) (access_options ts) (access_keyfunc ts) (cur E w) tok = Inr jt"
    "jt_Valid jt" "jt_Claims jt = MapClaims c" "jwt_GetSubject (jwt E) c = Inr (ai_UserID i)"
    "c ''email'' = Some (JString (ai_Email i))" "ai_UserID i \<noteq> ''''" "ai_Email i \<noteq> ''''" "w' = step w"
    by (auto simp: ValidateAccessToken_def time_now_def split: sum.splits if_splits jwt_claims.splits option.splits jwt_value.splits)
  have "claims_addressed (access_options ts) c" "claims_timely (access_options ts) c (cur E w)"
    using assms(1) p(1-3) unfolding jwt_laws_def by blast+
  note claims = checked_claims [OF this, unfolded access_options_def, simplified]
  have jt: "jt = \<lparr>jt_Valid = True, jt_Claims = MapClaims c\<rparr>" using p(2,3) by (cases jt) simp
  have "access_keyfunc ts = (\<lambda>m. case m of SigningMethodHMAC _ \<Rightarrow> Inr (ts_accessSecret ts) | SigningMethodOther _ \<Rightarrow> Inl ErrInvalidToken)"
    by (simp add: access_keyfunc_def fun_eq_iff)
  with p(1) [unfolded jt access_options_def] claims p(4-8) Inr show ?thesis
    by (simp add: algebra_simps)
qed

theorem access_token_sound_witness:
  "\<exists>c. c ''iss'' = Some (JString ''iss'') \<and> c ''email'' = Some (JString ''e'')
    \<and> fst (ValidateAccessToken jwt_env sample_tokens ''jwt'' sample_active) = Inr \<lparr>ai_UserID = ''u'', ai_Email = ''e''\<rparr>"
proof -
  have "ValidateAccessToken jwt_env sample_tokens ''jwt'' sample_active = (Inr \<lparr>ai_UserID = ''u'', ai_Email = ''e''\<rparr>, step sample_active)"
    using one_jwt_accepts [of 0] by (simp add: ValidateAccessToken_def time_now_def sample_clock)
  moreover have "ts_issuer sample_tokens = ''iss''" by (simp add: NewTokenService_def)
  ultimately show ?thesis
    using access_token_sound [OF _ \<open>ValidateAccessToken jwt_env sample_tokens ''jwt'' sample_active = _\<close>] one_jwt_laws by auto
qed

lemma quot_nonpos: "a \<le> 0 \<Longrightarrow> 0 < b \<Longrightarrow> quot a b \<le> 0"
  by (cases "a = 0") (simp_all add: quot_def pos_imp_zdiv_nonneg_iff)

lemma remaining_seconds:
  assumes "0 \<le> d" and "x \<le> 2 ^ 63 - 1" and "t = s + d"
  shows "0 \<le> x - d \<Longrightarrow> quot (time_sub (s + x) t) second = (x - d) div second"
    and "x - d \<le> 0 \<Longrightarrow> quot (time_sub (s + x) t) second \<le> 0"
proof -
  have eq: "time_sub (s + x) t = max (- (2 ^ 63)) (x - d)"
    using assms unfolding time_sub_def by (simp add: min_def)
  show "quot (time_sub (s + x) t) second = (x - d) div second" if "0 \<le> x - d"
    using that unfolding eq by (simp add: quot_nonneg max_absorb2)
  show "quot (time_sub (s + x) t) second \<le> 0" if "x - d \<le> 0"
    using that unfolding eq by (intro quot_nonpos) simp_all
qed

lemma whole_seconds:
  fixes k d :: int
  shows "0 \<le> d \<Longrightarrow> (k * minute - d) div second \<le> 60 * k"
    and "0 < d \<Longrightarrow> d \<le> second \<Longrightarrow> (k * minute - d) div second = 60 * k - 1"
proof -
  assume "0 \<le> d"
  then have "(k * minute - d) div second \<le> (60 * k * second) div second" by (intro zdiv_mono1) simp_all
  then show "(k * minute - d) div second \<le> 60 * k" by simp
next
  assume "0 < d" and "d \<le> second"
  then show "(k * minute - d) div second = 60 * k - 1"
    by (intro int_div_pos_eq [where r = "second - d"]) simp_all
qed

text \<open>
  C36. What \<open>expires_in\<close> says: never more than the configured lifetime, exactly it when the
  clock does not move while the token is signed, and one second less when it moves by up to
  a second (the lifetime is rounded down).
\<close>

theorem expires_in_bounds:
  assumes "clock_laws E" and "0 < ts_accessTTLMinutes ts" and "ts_accessTTLMinutes ts \<le> 153722867"
    and "GenerateAccessToken E ts u em w = (Inr (tok, n), w')"
  shows "n \<le> 60 * ts_accessTTLMinutes ts
    \<and> (cur E (step w) = cur E w \<longrightarrow> n = 60 * ts_accessTTLMinutes ts)
    \<and> (cur E w < cur E (step w) \<and> cur E (step w) \<le> cur E w + second \<longrightarrow> n = 60 * ts_accessTTLMinutes ts - 1)"
proof -
  let ?k = "ts_accessTTLMinutes ts"
  define d where "d = cur E (step w) - cur E w"
  have "cur E w \<le> cur E (step w)" by (rule cur_mono [OF assms(1)]) simp
  then have d: "0 \<le> d" "cur E (step w) = cur E w + d" by (simp_all add: d_def)
  have "?k * minute \<le> 2 ^ 63 - 1" using assms(3) by simp
  note left = remaining_seconds [OF d(1) this d(2)]
  have n: "n = quot (time_sub (cur E w + ?k * minute) (cur E (step w))) second"
    using GenerateAccessToken_ok [OF assms(4)] dur_mul_minutes [OF assms(2,3)] by simp
  have k: "second \<le> ?k * minute" using assms(2) by simp
  have "n \<le> 60 * ?k"
  proof (cases "0 \<le> ?k * minute - d")
    case True
    then show ?thesis using left(1) whole_seconds(1) [OF d(1)] by (simp only: n)
  next
    case False
    then show ?thesis using left(2) assms(2) by (simp only: n) linarith
  qed
  moreover have "n = 60 * ?k" if "d = 0" using that left(1) k by (simp add: n)
  moreover have "n = 60 * ?k - 1" if "0 < d" "d \<le> second"
    using that left(1) k whole_seconds(2) [OF that] by (simp add: n)
  ultimately show ?thesis using d by auto
qed

theorem expires_in_bounds_witness:
  "\<exists>n w'. GenerateAccessToken jwt_env sample_tokens ''u'' ''e'' sample_active = (Inr (''jwt'', n), w') \<and> n = 60 * 15 - 1"
  using expires_in_bounds [OF sample_clock(2) _ _ jwt_env_issues] jwt_env_issues by (simp add: sample_clock)

section \<open>Refresh tokens\<close>

text \<open>
  C37. A refresh token is its random bytes and nothing else: they can be read back from it,
  so that different bytes give different tokens; 32 bytes give 43 characters, all visible
  ASCII, so that no trimming on the way through headers and handlers alters it.
\<close>

theorem refresh_token_encodes:
  assumes "GenerateRefreshToken E ts u w = (Inr rt, w')"
  shows "rand_gen E (tick w) = Inr (raw_url_decode (rt_Token rt))
    \<and> length (rt_Token rt) = (4 * length (raw_url_decode (rt_Token rt)) + 2) div 3
    \<and> list_all graphic (rt_Token rt) \<and> trim_space (rt_Token rt) = rt_Token rt"
  using GenerateRefreshToken_ok [OF assms]
  by (auto simp: decode_encode raw_url_encode_length raw_url_encode_graphic raw_url_encode_trim)

lemma sample_generates: "is_ok (fst (GenerateRefreshToken sample_env sample_tokens ''u'' sample_active))"
  by code_simp

theorem refresh_token_encodes_witness:
  "\<exists>rt w'. GenerateRefreshToken sample_env sample_tokens ''u'' sample_active = (Inr rt, w')
    \<and> rand_gen sample_env (tick sample_active) = Inr (raw_url_decode (rt_Token rt))"
proof -
  obtain rt w' where call: "GenerateRefreshToken sample_env sample_tokens ''u'' sample_active = (Inr rt, w')"
    using ok_result [OF sample_generates] by blast
  from refresh_token_encodes [OF call] call show ?thesis by blast
qed

lemma expired_not_created:
  assumes "rt_Create E rt w = (Inr (), w')"
  shows "cur E w < rt_ExpiresAt rt"
  using assms time_sub_nonpos_iff [of "rt_ExpiresAt rt" "cur E w"]
  by (auto simp: rt_Create_def time_now_def Let_def split: sum.splits if_splits)

lemma long_ttl_negative: "2562047 < n \<Longrightarrow> n \<le> 5124094 \<Longrightarrow> dur_mul n hour \<le> 0"
proof -
  assume "2562047 < n" and "n \<le> 5124094"
  then have "(n * hour + 2 ^ 63 - 2 ^ 64) mod 2 ^ 64 = n * hour + 2 ^ 63 - 2 ^ 64"
    by (intro mod_pos_pos_trivial) simp_all
  then have "wrap64 (n * hour) = n * hour - 2 ^ 64" unfolding wrap64_def minus_mod_self2 by simp
  with \<open>n \<le> 5124094\<close> show ?thesis by (simp add: dur_mul_def)
qed

text \<open>Further up the product is positive again: 5124096 hours come out as 25 minutes.\<close>

lemma longer_ttl_wraps: "dur_mul 5124096 hour = 1526290448384" "1526290448384 div minute = 25"
  by (simp_all add: dur_mul_def wrap64_def)

text \<open>
  C38. A refresh lifetime of 2562048 to 5124094 hours, which \<open>validate\<close> accepts, overflows
  \<open>time.Duration\<close> to a negative one: the expiry lies in the past, the store refuses the
  token, and no login succeeds. (Beyond that range the product wraps around once more.)
\<close>

theorem long_ttl_refuses_login:
  assumes "clock_laws E" and "2562047 < ts_refreshTTLHours ts" and "ts_refreshTTLHours ts \<le> 5124094"
  shows "\<not> is_ok (fst (Login E (auth_wiring E ts) email password m w))"
proof
  assume "is_ok (fst (Login E (auth_wiring E ts) email password m w))"
  then obtain resp w' where call: "Login E (auth_wiring E ts) email password m w = (Inr resp, w')"
    using ok_result by blast
  obtain u :: user and w3 and rt :: refresh_token and w4 j w5 where
    g: "GenerateRefreshToken E (tokenService (auth_wiring E ts)) (u_ID u) w3 = (Inr rt, w4)"
    and c: "rtr_Create (refreshTokenRepository (auth_wiring E ts)) (rt\<lparr>rt_SessionID := j\<rparr>) w4 = (Inr (), w5)"
    using auth_main.login_calls [OF call] that by (elim conjE exE) blast
  have "rt_ExpiresAt rt \<le> cur E (step w3)" "w4 = step (step w3)"
    using GenerateRefreshToken_ok [OF g] long_ttl_negative [OF assms(2,3)] by (simp_all add: auth_wiring_simps)
  moreover have "cur E w4 < rt_ExpiresAt rt"
    using expired_not_created [of E "rt\<lparr>rt_SessionID := j\<rparr>"] c by (simp add: auth_wiring_simps RedisRefreshTokenRepository_def)
  ultimately show False using cur_mono [OF assms(1), of "step w3" w4] by simp
qed

theorem long_ttl_refuses_login_witness:
  "\<not> is_ok (fst (Login sample_env (auth_wiring sample_env (NewTokenService ''secret'' 15 2562048 ''iss'' ''aud'')) ''e'' ''p'' sample_meta sample_active))"
  by (rule long_ttl_refuses_login) (simp_all add: sample_clock NewTokenService_def)

section \<open>Rate limiting\<close>

text \<open>
  C26. In the window that a client's first request opens no more requests are allowed than
  the limit says, whatever else the service does in between on other keys.
\<close>

theorem window_bound:
  assumes "redis_laws (redis E)" and "clock_laws E" and "0 < ex_ttl window"
    and "live (cur E w) (kspace E w) (rate_limit_key sc i) = None"
    and "Allow E sc i limit window w = (Inr r, w1)"
    and "attempts (allow_call E sc i limit window) (counter_untouched E (rate_limit_key sc i))
      (window_open E (rate_limit_key sc i) (cur E (step w) + ex_ttl window)) n w1 w2"
  shows "(if Allowed r then 1 else 0) + int n \<le> max 0 limit"
proof -
  note opens = Allow_opens [OF assms(1,5,4,3,2)]
  have "counter_value E (rate_limit_key sc i) w1 = 1" using opens(2) by (simp add: counter_value_def count_of_def)
  with redis_window.attempts_bounded [OF assms(6)] opens(1) show ?thesis by auto
qed

lemma sample_two_calls:
  "case Allow sample_env ''login'' ''c'' 2 (60 * second) sample_active of
     (Inl e, w1) \<Rightarrow> False
   | (Inr r, w1) \<Rightarrow> Allowed r \<and> fst (allow_call sample_env ''login'' ''c'' 2 (60 * second) w1) = Inr True
       \<and> cur sample_env w1 < cur sample_env (step sample_active) + ex_ttl (60 * second)"
  by code_simp

lemma sample_redis: "redis_laws (redis sample_env)" "redis_laws (redis jwt_env)" "redis_up (redis sample_env)"
  by (simp_all add: sample_env_def mem_redis_laws mem_redis_up)

lemma sample_no_counter: "live t (sample_keys st) (rate_limit_key sc i) = None"
  by (simp add: sample_keys_def live_def rate_limit_key_def redisRefreshTokenKey_def redisUserRefreshTokensKey_def
      redisSessionRefreshTokensKey_def)

theorem window_bound_witness:
  "\<exists>r w1 w2. Allow sample_env ''login'' ''c'' 2 (60 * second) sample_active = (Inr r, w1)
    \<and> allow_call sample_env ''login'' ''c'' 2 (60 * second) w1 = (Inr True, w2)
    \<and> (if Allowed r then 1 else 0) + int 1 \<le> max 0 2"
proof -
  let ?k = "rate_limit_key ''login'' ''c''" and ?D = "cur sample_env (step sample_active) + ex_ttl (60 * second)"
  obtain r w1 where call: "Allow sample_env ''login'' ''c'' 2 (60 * second) sample_active = (Inr r, w1)"
    using ok_chain [OF sample_two_calls] by blast
  note s = sample_two_calls [unfolded call prod.case sum.case]
  obtain w2 where second_call: "allow_call sample_env ''login'' ''c'' 2 (60 * second) w1 = (Inr True, w2)"
    using s by (metis prod.collapse)
  have ttl: "0 < ex_ttl (60 * second)" by (simp add: ex_ttl_def quot_def)
  have fresh: "live (cur sample_env sample_active) (kspace sample_env sample_active) ?k = None"
    by (simp add: sample_no_counter)
  from Allow_opens(2) [OF sample_redis(1) call fresh ttl sample_clock(1)] s
  have o: "window_open sample_env ?k ?D w1" by (simp add: window_open_def sample_redis)
  have "attempts (allow_call sample_env ''login'' ''c'' 2 (60 * second)) (counter_untouched sample_env ?k)
      (window_open sample_env ?k ?D) (Suc 0) w1 w2"
    by (rule attempts.allowed [OF attempts.none]) (fact o, fact second_call)
  from window_bound [OF sample_redis(1) sample_clock(1) ttl fresh call this] call second_call show ?thesis by auto
qed

lemma Allow_fresh:
  assumes "redis_laws (redis E)" and "redis_up (redis E)" and "clock_laws E" and "0 < ex_ttl window" and "1 \<le> limit"
    and fresh: "live (cur E w) (kspace E w) (rate_limit_key sc i) = None"
  shows "\<exists>r w'. Allow E sc i limit window w = (Inr r, w') \<and> Allowed r"
proof -
  let ?k = "rate_limit_key sc i"
  obtain x w1 where x: "redis_do E (INCR ?k) w = (Inr x, w1)"
    using redis_up_do [OF assms(2,1), of w "INCR ?k" "RInt 1"] fresh by auto
  have one: "reply_int x = 1" using redis_do_ok(1) [OF assms(1) x] fresh by auto
  obtain y w2 where y: "redis_do E (EXPIRE ?k window) w1 = (Inr y, w2)"
    using redis_up_do [OF assms(2,1), of w1 "EXPIRE ?k window" "RInt (if live (cur E w1) (kspace E w1) ?k = None then 0 else 1)"]
    by auto
  have "\<exists>rep. redis_answers (cur E w2) (TTL ?k) (kspace E w2) rep"
  proof (cases "live (cur E w2) (kspace E w2) ?k")
    case None
    then show ?thesis by (intro exI [of _ "RDur (- 2)"]) simp
  next
    case (Some z)
    then show ?thesis
    proof (cases "deadline (kspace E w2) ?k")
      case None
      with Some show ?thesis by (intro exI [of _ "RDur (- 1)"]) simp
    next
      case (Some d)
      with \<open>live (cur E w2) (kspace E w2) ?k = Some z\<close> live_deadline have "cur E w2 < d" by blast
      with Some \<open>live (cur E w2) (kspace E w2) ?k = Some z\<close> show ?thesis
        by (intro exI [of _ "RDur (d - cur E w2)"]) simp
    qed
  qed
  then obtain u w3 where u: "redis_do E (TTL ?k) w2 = (Inr u, w3)"
    using redis_up_do [OF assms(2,1), of w2 "TTL ?k"] by blast
  have "Allow E sc i limit window w
      = (Inr \<lparr>Allowed = True, Remaining = (if wrap64 (limit - 1) < 0 then 0 else wrap64 (limit - 1)),
              ResetIn = (if reply_dur u < 0 then window else reply_dur u)\<rparr>, w3)"
    using x y u one assms(5) by (simp add: Allow_def Let_def)
  then show ?thesis by simp
qed

text \<open>
  C27. A client is never locked out for longer than its window: once the deadline of its
  counter has passed, whatever the counter says, and as long as Redis answers, the next
  request is allowed.
\<close>

theorem window_reopens:
  assumes "redis_laws (redis E)" and "redis_up (redis E)" and "clock_laws E" and "0 < ex_ttl window" and "1 \<le> limit"
    and "kspace E w (rate_limit_key sc i) = Some (v, Some D)" and "D \<le> cur E w"
  shows "\<exists>r w'. Allow E sc i limit window w = (Inr r, w') \<and> Allowed r"
  using Allow_fresh [OF assms(1-5)] assms(6,7) by (simp add: live_def)

theorem window_reopens_witness:
  "\<exists>r w'. Allow sample_env ''login'' ''c'' 1 (60 * second)
      (sample_active\<lparr>tick := 61, redis_db := [rate_limit_key ''login'' ''c'' \<mapsto> (VInt 7, Some (60 * second))]\<rparr>) = (Inr r, w') \<and> Allowed r"
proof (rule window_reopens [OF sample_redis(1,3) sample_clock(1)])
  show "kspace sample_env (sample_active\<lparr>tick := 61, redis_db := [rate_limit_key ''login'' ''c'' \<mapsto> (VInt 7, Some (60 * second))]\<rparr>)
      (rate_limit_key ''login'' ''c'') = Some (VInt 7, Some (60 * second))"
    by (simp add: kspace_def sample_env_def mem_redis_def)
qed (simp_all add: sample_clock ex_ttl_def quot_def)

text \<open>
  C39. INCR and EXPIRE are two commands: when the second one is lost, the counter has no
  deadline, and once it has reached the limit no request of that client is allowed any more,
  now or later, and the counter stays without a deadline.
\<close>

theorem counter_without_deadline_blocks:
  assumes "redis_laws (redis E)" and "0 < c" and "limit \<le> c"
    and "kspace E w (rate_limit_key sc i) = Some (VInt c, None)" and "Allow E sc i limit window w = (res, w')"
  shows "(\<forall>r. res = Inr r \<longrightarrow> \<not> Allowed r)
    \<and> (\<exists>c' \<ge> c. kspace E w' (rate_limit_key sc i) = Some (VInt c', None))"
  using Allow_on_counter [OF assms(1,5,4) _ assms(2)] assms(3) by (cases res) fastforce+

lemma sample_blocked:
  "is_ok (fst (Allow sample_env ''login'' ''c'' 5 (60 * second)
    (sample_active\<lparr>redis_db := [rate_limit_key ''login'' ''c'' \<mapsto> (VInt 5, None)]\<rparr>)))"
  by code_simp

theorem counter_without_deadline_blocks_witness:
  "\<exists>r w'. Allow sample_env ''login'' ''c'' 5 (60 * second)
      (sample_active\<lparr>redis_db := [rate_limit_key ''login'' ''c'' \<mapsto> (VInt 5, None)]\<rparr>) = (Inr r, w') \<and> \<not> Allowed r"
proof -
  let ?w = "sample_active\<lparr>redis_db := [rate_limit_key ''login'' ''c'' \<mapsto> (VInt 5, None)]\<rparr>"
  obtain r w' where call: "Allow sample_env ''login'' ''c'' 5 (60 * second) ?w = (Inr r, w')"
    using ok_result [OF sample_blocked] by blast
  have "kspace sample_env ?w (rate_limit_key ''login'' ''c'') = Some (VInt 5, None)"
    by (simp add: kspace_def sample_env_def mem_redis_def)
  from counter_without_deadline_blocks [OF sample_redis(1) _ _ this call] call show ?thesis by auto
qed

text \<open>
  Clients and endpoints do not share counters: a request leaves the counter of every
  other client, and of every other scope, as it is.
\<close>

lemma counters_independent:
  assumes "redis_laws (redis E)" and "CHR '':'' \<notin> set sc" and "CHR '':'' \<notin> set sc'" and "(sc', i') \<noteq> (sc, i)"
    and "Allow E sc i limit window w = (res, w')"
  shows "counter_untouched E (rate_limit_key sc' i') w w'"
  using Allow_other_keys [OF assms(1,5)] Allow_frame [OF assms(5)] rate_limit_key_inj [OF assms(3,2)] assms(4)
  by (auto simp: counter_untouched_def)

lemma counters_independent_witness:
  "counter_untouched sample_env (rate_limit_key ''login'' ''d'') sample_active
    (snd (Allow sample_env ''login'' ''c'' 2 (60 * second) sample_active))"
  by (rule counters_independent [OF sample_redis(1), where sc = "''login''" and i = "''c''"]) (simp_all add: prod_eq_iff)

text \<open>
  A window of zero or fewer seconds, which \<open>validate\<close> does not refuse, switches the
  limiter off: EXPIRE deletes the counter it was to bound, and every request is the first.
\<close>

lemma zero_window_never_limits:
  assumes "redis_laws (redis E)" and "window \<le> 0" and "1 \<le> limit" and "kspace E w (rate_limit_key sc i) = None"
    and "Allow E sc i limit window w = (Inr r, w')"
  shows "Allowed r \<and> kspace E w' (rate_limit_key sc i) = None"
proof -
  let ?k = "rate_limit_key sc i"
  have ttl: "ex_ttl window \<le> 0" using assms(2) by (cases "window = 0") (simp_all add: ex_ttl_def quot_def)
  have fresh: "live (cur E w) (kspace E w) ?k = None" using assms(4) by (simp add: live_def)
  obtain x w1 where x: "redis_do E (INCR ?k) w = (Inr x, w1)"
    using assms(5) by (auto simp: Allow_def Let_def elim!: call_cases)
  note ok1 = redis_do_ok [OF assms(1) x]
  have one: "reply_int x = 1" "kspace E w1 ?k = Some (VInt 1, None)" using ok1 fresh by auto
  obtain y w2 where y: "redis_do E (EXPIRE ?k window) w1 = (Inr y, w2)"
    using assms(5) x one(1) by (auto simp: Allow_def Let_def elim!: call_cases)
  have "kspace E w2 ?k = None" using redis_do_ok(2) [OF assms(1) y] one(2) ttl by (simp add: live_def)
  moreover obtain z where z: "redis_do E (TTL ?k) w2 = (Inr z, w')" and "Allowed r \<longleftrightarrow> 1 \<le> limit"
    using assms(5) x y one(1) by (auto simp: Allow_def Let_def elim!: call_cases)
  ultimately show ?thesis using ttl_same [OF assms(1) z] assms(3) by simp
qed

lemma sample_zero_window: "is_ok (fst (Allow sample_env ''login'' ''c'' 1 0 sample_active))"
  by code_simp

lemma zero_window_never_limits_witness:
  "\<exists>r w'. Allow sample_env ''login'' ''c'' 1 0 sample_active = (Inr r, w') \<and> kspace sample_env w' (rate_limit_key ''login'' ''c'') = None"
proof -
  obtain r w' where call: "Allow sample_env ''login'' ''c'' 1 0 sample_active = (Inr r, w')"
    using ok_result [OF sample_zero_window] by blast
  have "kspace sample_env sample_active (rate_limit_key ''login'' ''c'') = None"
    by (simp add: sample_keys_def rate_limit_key_def redisRefreshTokenKey_def redisUserRefreshTokensKey_def
        redisSessionRefreshTokensKey_def)
  from zero_window_never_limits [OF sample_redis(1) _ _ this call] call show ?thesis by auto
qed

end
