(* ===== verification/Http_Frames.thy ===== *)
theory Http_Frames
  imports Handler
begin

text \<open>
  What every handler keeps, shared by the properties of the HTTP layer: it returns, it has
  written a status, and of the headers it touches at most four.
\<close>

section \<open>Answering handlers\<close>

definition body_headers :: "string set" where
  "body_headers = {''Content-Type'', ''Set-Cookie'', ''Retry-After'', ''Location''}"

lemma canonical_names [simp]:
  "canonical_header ''Content-Type'' = ''Content-Type''" "canonical_header ''Set-Cookie'' = ''Set-Cookie''"
  "canonical_header ''Retry-After'' = ''Retry-After''" "canonical_header ''Location'' = ''Location''"
  "canonical_header ''X-Request-ID'' = ''X-Request-Id''" "canonical_header ''X-App-Instance'' = ''X-App-Instance''"
  "canonical_header ''X-Content-Type-Options'' = ''X-Content-Type-Options''"
  "canonical_header ''X-Frame-Options'' = ''X-Frame-Options''" "canonical_header ''Referrer-Policy'' = ''Referrer-Policy''"
  "canonical_header ''X-XSS-Protection'' = ''X-Xss-Protection''" "canonical_header ''Cache-Control'' = ''Cache-Control''"
  "canonical_header ''Access-Control-Allow-Origin'' = ''Access-Control-Allow-Origin''" "canonical_header ''Vary'' = ''Vary''"
  "canonical_header ''Access-Control-Allow-Methods'' = ''Access-Control-Allow-Methods''"
  "canonical_header ''Access-Control-Allow-Headers'' = ''Access-Control-Allow-Headers''"
  "canonical_header ''Access-Control-Allow-Credentials'' = ''Access-Control-Allow-Credentials''"
  "canonical_header ''Authorization'' = ''Authorization''" "canonical_header ''Origin'' = ''Origin''"
  "canonical_header ''X-Forwarded-For'' = ''X-Forwarded-For''"
  by code_simp+

lemma set_header_at [simp]:
  "rw_Header (set_header k v rw) j = (if j = canonical_header k then [v] else rw_Header rw j)"
  by (simp add: set_header_def header_set_def)

definition headers_kept :: "response_writer \<Rightarrow> response_writer \<Rightarrow> bool" where
  "headers_kept rw rw' \<longleftrightarrow> rw_Status rw' = rw_Status rw \<and> (\<forall>k. k \<notin> body_headers \<longrightarrow> rw_Header rw' k = rw_Header rw k)"

definition answered :: "response_writer \<Rightarrow> outcome \<times> response_writer \<times> 'r world \<Rightarrow> bool" where
  "answered rw res \<longleftrightarrow> (\<exists>rw' w'. res = (Returned, rw', w') \<and> rw_Status rw' \<noteq> 0
     \<and> (\<forall>k. k \<notin> body_headers \<longrightarrow> rw_Header rw' k = rw_Header rw k)
     \<and> (rw_Status rw = 0 \<longrightarrow> (\<forall>k. k \<notin> body_headers \<longrightarrow> rw_Sent rw' k = rw_Header rw k)))"

lemma headers_kept_refl [simp]: "headers_kept rw rw"
  by (simp add: headers_kept_def)

lemma headers_kept_set [simp]: "canonical_header k \<in> body_headers \<Longrightarrow> headers_kept rw (set_header k v rw)"
  by (auto simp: headers_kept_def)

lemma headers_kept_cookie [simp]: "headers_kept rw (SetCookie E c rw)"
  by (auto simp: headers_kept_def SetCookie_def header_add_def body_headers_def)

lemma headers_kept_clear [simp]: "headers_kept rw (clearRefreshTokenCookie E cfg rw)"
  by (simp add: clearRefreshTokenCookie_def)

lemma answered_after: "headers_kept rw rw1 \<Longrightarrow> answered rw1 res \<Longrightarrow> answered rw res"
  unfolding headers_kept_def answered_def by (elim exE conjE) auto

lemma answered_write:
  "n \<noteq> 0 \<Longrightarrow> answered rw (respond (Write text (WriteHeader n (set_header ''Content-Type'' v rw))) w)"
  by (cases "rw_Status rw = 0") (auto simp: answered_def respond_def body_headers_def)

lemma answered_status: "n \<noteq> 0 \<Longrightarrow> answered rw (respond (WriteHeader n rw) w)"
  by (cases "rw_Status rw = 0") (auto simp: answered_def respond_def)

lemma answered_json: "n \<noteq> 0 \<Longrightarrow> answered rw (respond (writeJSON E rw n j) w)"
  by (auto simp: writeJSON_def answered_write split: sum.splits)

lemma answered_error: "n \<noteq> 0 \<Longrightarrow> answered rw (respond (writeError E r rw n c m) w)"
  by (simp add: writeError_def answered_json)

lemmas answered_intros = answered_error answered_json answered_after [OF headers_kept_cookie answered_json]
  answered_after [OF headers_kept_clear answered_json] answered_after [OF headers_kept_set answered_error]

lemma answered_case:
  assumes "\<And>e w1. f = (Inl e, w1) \<Longrightarrow> answered rw (g e w1)" and "\<And>x w1. f = (Inr x, w1) \<Longrightarrow> answered rw (k x w1)"
  shows "answered rw (case f of (Inl e, w1) \<Rightarrow> g e w1 | (Inr x, w1) \<Rightarrow> k x w1)"
  using assms by (cases f; cases "fst f") auto

section \<open>The handlers answer\<close>

lemma method_not_allowed_answers: "answered rw (method_not_allowed E r rw w)"
  by (simp add: method_not_allowed_def answered_error)

lemma set_cookie_answers:
  "n \<noteq> 0 \<Longrightarrow> answered rw (case setRefreshTokenCookie E cfg rw t w of (rw, w) \<Rightarrow> respond (writeJSON E rw n j) w)"
  by (simp add: setRefreshTokenCookie_def time_now_def answered_intros)

lemma after_set_cookie:
  "setRefreshTokenCookie E cfg rw t w = (rw1, w1) \<Longrightarrow> n \<noteq> 0 \<Longrightarrow> answered rw (respond (writeJSON E rw1 n j) w1)"
  by (auto simp: setRefreshTokenCookie_def time_now_def intro: answered_intros)

lemma statuses_not_0 [simp]: "register_status e \<noteq> 0" "login_status e \<noteq> 0" "refresh_status e \<noteq> 0"
  by (simp_all add: register_status_def login_status_def refresh_status_def Let_def)

lemma with_credentials_answers:
  "(\<And>email password r rw w. answered rw (k email password r rw w)) \<Longrightarrow> answered rw (with_credentials E k r rw w)"
  by (auto simp: with_credentials_def Let_def method_not_allowed_answers answered_intros split: decode_result.splits)

lemma handlers_answer:
  "answered rw (handleRoot E h r rw w)" "answered rw (handleHealth E h r rw w)" "answered rw (handleMe E r rw w)"
  "answered rw (handleSessions E h r rw w)" "answered rw (handleSessionByID E h r rw w)"
  "answered rw (handleRegister E h r rw w)" "answered rw (handleLogin E h r rw w)" "answered rw (handleRefresh E h r rw w)"
  "answered rw (handleLogout E h r rw w)" "answered rw (handleLogoutAll E h r rw w)"
  unfolding handleRoot_def handleHealth_def handleMe_def handleSessions_def handleSessionByID_def handleRegister_def
    handleLogin_def handleRefresh_def handleLogout_def handleLogoutAll_def Let_def
  by (auto intro!: answered_intros answered_case with_credentials_answers set_cookie_answers after_set_cookie
      method_not_allowed_answers split: option.splits sum.splits prod.splits)

lemma RateLimit_answers:
  "(\<And>w. answered rw (next r rw w)) \<Longrightarrow> answered rw (RateLimit E sc limit window next r rw w)"
  unfolding RateLimit_def Let_def
  by (auto intro!: answered_case answered_intros simp: body_headers_def split: prod.splits sum.splits)

lemma RequireAuth_answers:
  "(\<And>r w. answered rw (next r rw w)) \<Longrightarrow> answered rw (RequireAuth E ts next r rw w)"
  unfolding RequireAuth_def Let_def
  by (auto intro!: answered_case answered_intros split: prod.splits sum.splits)

lemma mux_handler_answers: "answered rw (mux_handler E h path r rw w)"
  unfolding mux_handler_def Let_def rate_limited_def
  by (auto intro!: RateLimit_answers RequireAuth_answers handlers_answer)

lemma mux_redirect_answers: "answered rw (mux_redirect E path r rw w)"
proof -
  obtain location page where "redirect_text E path = (location, page)" by (cases "redirect_text E path")
  then show ?thesis
    by (cases "rw_Status rw = 0") (auto simp: mux_redirect_def Let_def answered_def respond_def body_headers_def)
qed

lemma route_filter_answers: "answered rw (route_filter E h r rw w)"
  by (simp add: route_filter_def ServeMux_def Let_def answered_intros mux_redirect_answers mux_handler_answers)

lemma Recoverer_answers: "answered rw (next r rw w) \<Longrightarrow> answered rw (Recoverer E next r rw w)"
  by (auto simp: Recoverer_def answered_def)

lemma Timeout_answers:
  assumes "answered new_writer (next r new_writer w)"
  shows "answered rw (Timeout E d next r rw w)"
proof -
  obtain buf w1 where buf: "next r new_writer w = (Returned, buf, w1)" "rw_Status buf \<noteq> 0"
    and empty: "\<And>k. k \<notin> body_headers \<Longrightarrow> rw_Header buf k = []"
    using assms by (auto simp: answered_def new_writer_def)
  show ?thesis
  proof (cases "deadline_passes E d (tick w)")
    case True
    with buf show ?thesis by (simp add: Timeout_def answered_error)
  next
    case False
    with buf empty show ?thesis
      by (cases "rw_Status rw = 0") (auto simp: Timeout_def Let_def copyHeader_def answered_def respond_def)
  qed
qed

lemma RequestLogger_answers:
  assumes "\<And>w. answered (rw\<lparr>rw_Recorded := 200\<rparr>) (next r (rw\<lparr>rw_Recorded := 200\<rparr>) w)"
  shows "answered rw (RequestLogger E next r rw w)"
  using assms [of "step w"] by (auto simp: RequestLogger_def time_now_def answered_def)

text \<open>The part of the chain behind CORS.\<close>

definition inner_chain :: "'r env \<Rightarrow> 'r http_server \<Rightarrow> 'r handler" where
  "inner_chain E h =
     RequestLogger E (Timeout E (dur_mul (RequestTimeoutSec (hs_config h)) second) (Recoverer E (route_filter E h)))"

lemma inner_chain_answers: "answered rw (inner_chain E h r rw w)"
  unfolding inner_chain_def
  by (intro RequestLogger_answers Timeout_answers Recoverer_answers route_filter_answers)

lemma Routes_chain:
  "Routes E h =
     RequestID E (InstanceHeader (InstanceName (hs_config h)) (SecurityHeaders
       (CORS E (CORSAllowedOrigins (hs_config h)) (CORSAllowedMethods (hs_config h)) (CORSAllowedHeaders (hs_config h))
          (CORSAllowCredentials (hs_config h)) (inner_chain E h))))"
  by (simp add: Routes_def route_chain_def Chain_def inner_chain_def)

section \<open>What a request leaves alone\<close>

text \<open>Everything but the clock, the access log and the counters of the rate limiter.\<close>

definition data_kept :: "'r env \<Rightarrow> 'r world \<Rightarrow> 'r world \<Rightarrow> bool" where
  "data_kept E w w' \<longleftrightarrow> tick w \<le> tick w' \<and> users w' = users w \<and> sessions w' = sessions w \<and> audit_logs w' = audit_logs w
     \<and> (\<forall>k. (\<forall>sc i. k \<noteq> rate_limit_key sc i) \<longrightarrow> kspace E w' k = kspace E w k)"

lemma data_kept_simps [simp]:
  "data_kept E w w" "data_kept E w (step w)" "data_kept E w (w\<lparr>access_log := l\<rparr>)"
  by (simp_all add: data_kept_def kspace_def)

lemma data_kept_logged: "data_kept E w w' \<Longrightarrow> data_kept E w ((step w')\<lparr>access_log := l\<rparr>)"
  by (simp add: data_kept_def kspace_def)

lemma data_kept_trans: "data_kept E a b \<Longrightarrow> data_kept E b c \<Longrightarrow> data_kept E a c"
  by (auto simp: data_kept_def)

lemma data_kept_Allow:
  "redis_laws (redis E) \<Longrightarrow> Allow E sc i limit window w = (res, w') \<Longrightarrow> data_kept E w w'"
  using Allow_frame [of E sc i limit window w res w'] Allow_other_keys [of E sc i limit window w res w']
  by (auto simp: data_kept_def)

lemma token_keys_no_counter:
  "redisRefreshTokenKey t \<noteq> rate_limit_key sc i" "redisUserRefreshTokensKey t \<noteq> rate_limit_key sc i"
  "redisSessionRefreshTokensKey t \<noteq> rate_limit_key sc i"
  by (simp_all add: redisRefreshTokenKey_def redisUserRefreshTokensKey_def redisSessionRefreshTokensKey_def rate_limit_key_def)

lemma data_kept_tokens:
  assumes "data_kept E w w'"
  shows "kept_tokens E w' = kept_tokens E w" and "token_indexes E w' = token_indexes E w"
    and "token_inv E w \<Longrightarrow> token_inv E w'"
proof -
  have same: "kspace E w' (redisRefreshTokenKey t) = kspace E w (redisRefreshTokenKey t)"
    "kspace E w' (redisUserRefreshTokensKey t) = kspace E w (redisUserRefreshTokensKey t)"
    "kspace E w' (redisSessionRefreshTokensKey t) = kspace E w (redisSessionRefreshTokensKey t)" for t
    using assms token_keys_no_counter unfolding data_kept_def by blast+
  show "kept_tokens E w' = kept_tokens E w" "token_indexes E w' = token_indexes E w"
    by (simp_all add: kept_tokens_def token_indexes_def same fun_eq_iff)
  show "token_inv E w'" if "token_inv E w"
    using that by (auto simp: token_inv_def keyspace_ok_def same intro: token_entry_members [of "kspace E w"])
qed

lemma data_kept_list:
  "ListSessions (auth_wiring E ts) u w = (res, w') \<Longrightarrow> data_kept E w w'"
  by (auto simp: ListSessions_def auth_wiring_def NewAuthService_def PostgresSessionRepository_def
      elim!: call_cases dest!: pg_ListByUserID_frame)

text \<open>The world after a handler, and after the middlewares around it.\<close>

definition after :: "outcome \<times> response_writer \<times> 'r world \<Rightarrow> 'r world" where
  "after res = snd (snd res)"

lemma after_simps [simp]: "after (respond rw w) = w" "after (out, rw, w) = w"
  by (simp_all add: after_def respond_def)

lemma after_RateLimit:
  assumes "redis_laws (redis E)" and "\<And>w. data_kept E w (after (next r rw w))"
  shows "data_kept E w (after (RateLimit E sc limit window next r rw w))"
proof -
  obtain res w1 where call: "Allow E sc (rateLimitIdentifier r) limit window w = (res, w1)"
    by (cases "Allow E sc (rateLimitIdentifier r) limit window w")
  from data_kept_Allow [OF assms(1) call] assms(2) call show ?thesis
    by (cases res) (auto simp: RateLimit_def Let_def intro: data_kept_trans)
qed

lemma after_RequireAuth:
  assumes "\<And>i w. data_kept E w (after (next (r\<lparr>rq_Identity := i\<rparr>) rw w))"
  shows "data_kept E w (after (RequireAuth E ts next r rw w))"
  unfolding RequireAuth_def Let_def
  by (auto split: prod.splits sum.splits dest!: ValidateAccessToken_frame intro: data_kept_trans [OF data_kept_simps(2) assms])

lemma after_Timeout: "after (Timeout E d next r rw w) = after (next r new_writer w)"
  by (auto simp: Timeout_def Let_def split: prod.splits outcome.splits)

lemma after_Recoverer: "after (Recoverer E next r rw w) = after (next r rw w)"
  by (auto simp: Recoverer_def split: prod.splits outcome.splits)

lemma after_RequestLogger:
  assumes "\<And>rw w. data_kept E w (after (next r rw w))"
  shows "data_kept E w (after (RequestLogger E next r rw w))"
proof -
  obtain out rw' w' where call: "next r (rw\<lparr>rw_Recorded := 200\<rparr>) (step w) = (out, rw', w')"
    by (cases "next r (rw\<lparr>rw_Recorded := 200\<rparr>) (step w)") auto
  have "data_kept E w w'" using assms [of "step w" "rw\<lparr>rw_Recorded := 200\<rparr>"] call
    by (auto intro: data_kept_trans [OF data_kept_simps(2)])
  then show ?thesis
    using call by (cases out) (simp_all add: RequestLogger_def time_now_def data_kept_logged)
qed

section \<open>Requests that only read\<close>

lemma writers_reject:
  assumes "rq_Method r \<noteq> ''POST''"
  shows "after (handleRegister E h r rw w) = w" "after (handleLogin E h r rw w) = w" "after (handleRefresh E h r rw w) = w"
    "after (handleLogout E h r rw w) = w" "after (handleLogoutAll E h r rw w) = w"
  using assms
  by (simp_all add: handleRegister_def handleLogin_def with_credentials_def handleRefresh_def handleLogout_def
      handleLogoutAll_def method_not_allowed_def)

lemma handlers_only_read:
  assumes "hs_authService h = auth_wiring E ts" and "rq_Method r \<noteq> ''DELETE''"
  shows "data_kept E w (after (handleRoot E h r rw w))" "data_kept E w (after (handleHealth E h r rw w))"
    "data_kept E w (after (handleMe E r rw w))" "data_kept E w (after (handleSessions E h r rw w))"
    "data_kept E w (after (handleSessionByID E h r rw w))"
proof -
  show "data_kept E w (after (handleRoot E h r rw w))" "data_kept E w (after (handleHealth E h r rw w))"
    by (simp_all add: handleRoot_def handleHealth_def Check_def CurrentTime_def time_now_def method_not_allowed_def)
  show "data_kept E w (after (handleMe E r rw w))"
    by (simp add: handleMe_def method_not_allowed_def split: option.splits)
  show "data_kept E w (after (handleSessionByID E h r rw w))"
    using assms(2) by (simp add: handleSessionByID_def method_not_allowed_def)
  show "data_kept E w (after (handleSessions E h r rw w))"
  proof (cases "GetAuthIdentity r")
    case (Some i)
    obtain res w' where call: "ListSessions (auth_wiring E ts) (ai_UserID i) w = (res, w')"
      by (cases "ListSessions (auth_wiring E ts) (ai_UserID i) w")
    from data_kept_list [OF call] show ?thesis
      using Some call assms(1) by (cases res) (simp_all add: handleSessions_def method_not_allowed_def)
  qed (simp add: handleSessions_def method_not_allowed_def)
qed

lemma mux_only_reads:
  assumes "redis_laws (redis E)" and "hs_authService h = auth_wiring E ts"
    and "rq_Method r \<noteq> ''POST''" and "rq_Method r \<noteq> ''DELETE''"
  shows "data_kept E w (after (mux_handler E h path r rw w))"
proof -
  have limited: "data_kept E w (after (RateLimit E sc n d (handleRegister E h) r rw w))"
    "data_kept E w (after (RateLimit E sc n d (handleLogin E h) r rw w))"
    "data_kept E w (after (RateLimit E sc n d (handleRefresh E h) r rw w))" for sc n d
    by (rule after_RateLimit [OF assms(1)], simp add: writers_reject assms(3))+
  have authed: "data_kept E w (after (RequireAuth E tks (handleLogoutAll E h) r rw w))"
    "data_kept E w (after (RequireAuth E tks (handleSessions E h) r rw w))"
    "data_kept E w (after (RequireAuth E tks (handleSessionByID E h) r rw w))"
    "data_kept E w (after (RequireAuth E tks (handleMe E) r rw w))" for tks
    by (rule after_RequireAuth, simp add: writers_reject handlers_only_read [OF assms(2)] assms(3,4))+
  show ?thesis
    unfolding mux_handler_def Let_def rate_limited_def
    by (simp add: limited authed handlers_only_read [OF assms(2)] writers_reject assms(3,4))
qed

lemma route_filter_only_reads:
  assumes "redis_laws (redis E)" and "hs_authService h = auth_wiring E ts"
    and "rq_Method r \<noteq> ''POST''" and "rq_Method r \<noteq> ''DELETE''"
  shows "data_kept E w (after (route_filter E h r rw w))"
  using mux_only_reads [OF assms]
  by (auto simp: route_filter_def ServeMux_def mux_redirect_def Let_def split: prod.splits)

lemma inner_chain_only_reads:
  assumes "redis_laws (redis E)" and "hs_authService h = auth_wiring E ts"
    and "rq_Method r \<noteq> ''POST''" and "rq_Method r \<noteq> ''DELETE''"
  shows "data_kept E w (after (inner_chain E h r rw w))"
  unfolding inner_chain_def
  by (rule after_RequestLogger) (simp add: after_Timeout after_Recoverer route_filter_only_reads [OF assms])

end
