(* ===== verification/Http_Properties.thy ===== *)
theory Http_Properties
  imports Http_Frames Auth_Properties
begin

text \<open>
  The properties of the HTTP layer: what \<open>Routes\<close> answers to any request, and what the
  handlers and middlewares guarantee in front of the services.
\<close>

section \<open>Every response\<close>

definition cors_headers :: "string set" where
  "cors_headers = {''Access-Control-Allow-Origin'', ''Vary'', ''Access-Control-Allow-Methods'',
     ''Access-Control-Allow-Headers'', ''Access-Control-Allow-Credentials''}"

definition cors_origin :: "'r env \<Rightarrow> string list \<Rightarrow> http_request \<Rightarrow> string list" where
  "cors_origin E allowed r =
     (let origin = trim_space (header_get (rq_Header r) ''Origin'') in
      if origin \<noteq> '''' \<and> isOriginAllowed (unicode_tables E) origin allowed then [origin] else [])"

lemma answered_sends:
  assumes "answered rw res" and "rw_Status rw = 0"
  obtains rw' w' where "res = (Returned, rw', w')" and "rw_Status rw' \<noteq> 0"
    and "\<And>k. k \<notin> body_headers \<Longrightarrow> rw_Sent rw' k = rw_Header rw k"
  using assms by (auto simp: answered_def)

lemma CORS_sends:
  assumes "\<And>rw w. answered rw (next r rw w)" and "rw_Status rw = 0" and "rw_Header rw ''Access-Control-Allow-Origin'' = []"
  obtains rw' w' where "CORS E os ms hs cred next r rw w = (Returned, rw', w')" and "rw_Status rw' \<noteq> 0"
    and "\<And>k. k \<notin> body_headers \<union> cors_headers \<Longrightarrow> rw_Sent rw' k = rw_Header rw k"
    and "rw_Sent rw' ''Access-Control-Allow-Origin'' = cors_origin E os r"
proof -
  let ?origin = "trim_space (header_get (rq_Header r) ''Origin'')"
  have no_body: "k \<notin> body_headers" if "k \<in> cors_headers" for k using that by (auto simp: cors_headers_def body_headers_def)
  consider (skip) "?origin = '''' \<or> os = []" | (denied) "?origin \<noteq> ''''" "os \<noteq> []" "\<not> isOriginAllowed (unicode_tables E) ?origin os"
    | (ok) "?origin \<noteq> ''''" "isOriginAllowed (unicode_tables E) ?origin os"
    by blast
  then show ?thesis
  proof cases
    case skip
    then have "CORS E os ms hs cred next r rw w = next r rw w" "cors_origin E os r = []"
      by (auto simp: CORS_def cors_origin_def Let_def)
    then show ?thesis
      using answered_sends [OF assms(1,2)] that assms(3) no_body [of "''Access-Control-Allow-Origin''"]
      by (metis UnI1 UnI2 cors_headers_def insertI1)
  next
    case denied
    then have "cors_origin E os r = []" "answered rw (CORS E os ms hs cred next r rw w)"
      using assms(1) by (auto simp: CORS_def cors_origin_def Let_def answered_error)
    then show ?thesis
      using answered_sends [OF _ assms(2)] that assms(3) no_body [of "''Access-Control-Allow-Origin''"]
      by (metis UnI1 UnI2 cors_headers_def insertI1)
  next
    case ok
    define rw1 where "rw1 = set_header ''Access-Control-Allow-Headers'' (join '', '' hs)
      (set_header ''Access-Control-Allow-Methods'' (join '', '' ms) (set_header ''Vary'' ''Origin''
        (set_header ''Access-Control-Allow-Origin'' ?origin rw)))"
    define rw2 where "rw2 = (if cred then set_header ''Access-Control-Allow-Credentials'' ''true'' rw1 else rw1)"
    have "os \<noteq> []" using ok(2) by auto
    with ok have eq: "CORS E os ms hs cred next r rw w
        = (if rq_Method r = ''OPTIONS'' then respond (WriteHeader 204 rw2) w else next r rw2 w)"
      by (simp add: CORS_def Let_def rw1_def rw2_def)
    have rw2: "rw_Status rw2 = 0" "rw_Header rw2 ''Access-Control-Allow-Origin'' = [?origin]"
      "\<And>k. k \<notin> cors_headers \<Longrightarrow> rw_Header rw2 k = rw_Header rw k"
      using assms(2) by (auto simp: rw1_def rw2_def cors_headers_def)
    have "answered rw2 (CORS E os ms hs cred next r rw w)" unfolding eq using assms(1) by (simp add: answered_status)
    from answered_sends [OF this rw2(1)] obtain rw' w' where
      "CORS E os ms hs cred next r rw w = (Returned, rw', w')" "rw_Status rw' \<noteq> 0"
      and sent: "\<And>k. k \<notin> body_headers \<Longrightarrow> rw_Sent rw' k = rw_Header rw2 k" by blast
    moreover have "rw_Sent rw' ''Access-Control-Allow-Origin'' = cors_origin E os r"
      using sent [OF no_body] rw2(2) ok by (simp add: cors_headers_def cors_origin_def Let_def)
    ultimately show ?thesis using that rw2(3) by simp
  qed
qed

text \<open>The identifier of a request, and the writer and the request as they reach CORS.\<close>

definition request_id :: "'r env \<Rightarrow> http_request \<Rightarrow> 'r world \<Rightarrow> string" where
  "request_id E r w =
     (let own = trim_space (header_get (rq_Header r) ''X-Request-ID'') in if own = '''' then uuid_gen E (tick w) else own)"

definition outer_writer :: "'r http_server \<Rightarrow> http_request \<Rightarrow> string \<Rightarrow> response_writer" where
  "outer_writer h r i =
     (let rw = set_header ''X-Request-ID'' i new_writer;
          rw = set_header ''X-App-Instance'' (InstanceName (hs_config h)) rw;
          rw = set_header ''X-Content-Type-Options'' ''nosniff'' rw;
          rw = set_header ''X-Frame-Options'' ''DENY'' rw;
          rw = set_header ''Referrer-Policy'' ''no-referrer'' rw;
          rw = set_header ''X-XSS-Protection'' ''0'' rw in
      if has_prefix (rq_Path r) ''/auth/'' then set_header ''Cache-Control'' ''no-store'' rw else rw)"

lemma outer_writer_headers:
  "rw_Status (outer_writer h r i) = 0" "rw_Header (outer_writer h r i) ''X-Request-Id'' = [i]"
  "rw_Header (outer_writer h r i) ''X-App-Instance'' = [InstanceName (hs_config h)]"
  "rw_Header (outer_writer h r i) ''X-Content-Type-Options'' = [''nosniff'']"
  "rw_Header (outer_writer h r i) ''X-Frame-Options'' = [''DENY'']"
  "rw_Header (outer_writer h r i) ''Referrer-Policy'' = [''no-referrer'']"
  "rw_Header (outer_writer h r i) ''X-Xss-Protection'' = [''0'']"
  "rw_Header (outer_writer h r i) ''Cache-Control'' = (if has_prefix (rq_Path r) ''/auth/'' then [''no-store''] else [])"
  "rw_Header (outer_writer h r i) ''Access-Control-Allow-Origin'' = []"
  by (simp_all add: outer_writer_def Let_def new_writer_def)

lemma Routes_outer:
  obtains w1 where "data_kept E w w1" and "Routes E h r new_writer w =
    CORS E (CORSAllowedOrigins (hs_config h)) (CORSAllowedMethods (hs_config h)) (CORSAllowedHeaders (hs_config h))
      (CORSAllowCredentials (hs_config h)) (inner_chain E h) (r\<lparr>rq_RequestID := Some (request_id E r w)\<rparr>)
      (outer_writer h r (request_id E r w)) w1"
proof (rule that)
  let ?w1 = "if trim_space (header_get (rq_Header r) ''X-Request-ID'') = '''' then step w else w"
  show "data_kept E w ?w1" by simp
  show "Routes E h r new_writer w =
    CORS E (CORSAllowedOrigins (hs_config h)) (CORSAllowedMethods (hs_config h)) (CORSAllowedHeaders (hs_config h))
      (CORSAllowCredentials (hs_config h)) (inner_chain E h) (r\<lparr>rq_RequestID := Some (request_id E r w)\<rparr>)
      (outer_writer h r (request_id E r w)) ?w1"
    by (simp add: Routes_chain RequestID_def InstanceHeader_def SecurityHeaders_def uuid_new_def request_id_def outer_writer_def Let_def)
qed

lemma Routes_sends:
  "\<exists>rw' w'. Routes E h r new_writer w = (Returned, rw', w') \<and> rw_Status rw' \<noteq> 0
    \<and> (\<forall>k. k \<notin> body_headers \<union> cors_headers \<longrightarrow> rw_Sent rw' k = rw_Header (outer_writer h r (request_id E r w)) k)
    \<and> rw_Sent rw' ''Access-Control-Allow-Origin'' = cors_origin E (CORSAllowedOrigins (hs_config h)) r"
proof -
  let ?r = "r\<lparr>rq_RequestID := Some (request_id E r w)\<rparr>" and ?rw = "outer_writer h r (request_id E r w)" and ?cfg = "hs_config h"
  obtain w1 where eq: "Routes E h r new_writer w =
    CORS E (CORSAllowedOrigins ?cfg) (CORSAllowedMethods ?cfg) (CORSAllowedHeaders ?cfg) (CORSAllowCredentials ?cfg)
      (inner_chain E h) ?r ?rw w1"
    by (rule Routes_outer)
  obtain rw' w' where "CORS E (CORSAllowedOrigins ?cfg) (CORSAllowedMethods ?cfg) (CORSAllowedHeaders ?cfg)
      (CORSAllowCredentials ?cfg) (inner_chain E h) ?r ?rw w1 = (Returned, rw', w')" "rw_Status rw' \<noteq> 0"
    "\<And>k. k \<notin> body_headers \<union> cors_headers \<Longrightarrow> rw_Sent rw' k = rw_Header ?rw k"
    "rw_Sent rw' ''Access-Control-Allow-Origin'' = cors_origin E (CORSAllowedOrigins ?cfg) ?r"
    by (rule CORS_sends [of "inner_chain E h" ?r ?rw E "CORSAllowedOrigins ?cfg" "CORSAllowedMethods ?cfg"
          "CORSAllowedHeaders ?cfg" "CORSAllowCredentials ?cfg" w1, OF inner_chain_answers outer_writer_headers(1,9)]) blast
  moreover have "cors_origin E (CORSAllowedOrigins ?cfg) ?r = cors_origin E (CORSAllowedOrigins ?cfg) r"
    by (simp add: cors_origin_def)
  ultimately show ?thesis unfolding eq by auto
qed

text \<open>
  C31. Every request is answered: whatever it is and whatever the stores and libraries do,
  \<open>Routes\<close> returns with a status written, and the response carries the security headers, the
  name of the instance and one request identifier, the caller's own if it sent one. Nothing
  under \<open>/auth/\<close> may be cached.
\<close>

theorem routes_always_answer:
  "\<exists>rw' w'. Routes E h r new_writer w = (Returned, rw', w') \<and> rw_Status rw' \<noteq> 0
    \<and> rw_Sent rw' ''X-Content-Type-Options'' = [''nosniff''] \<and> rw_Sent rw' ''X-Frame-Options'' = [''DENY'']
    \<and> rw_Sent rw' ''Referrer-Policy'' = [''no-referrer''] \<and> rw_Sent rw' ''X-Xss-Protection'' = [''0'']
    \<and> rw_Sent rw' ''Cache-Control'' = (if has_prefix (rq_Path r) ''/auth/'' then [''no-store''] else [])
    \<and> rw_Sent rw' ''X-App-Instance'' = [InstanceName (hs_config h)]
    \<and> rw_Sent rw' ''X-Request-Id'' =
        [let own = trim_space (header_get (rq_Header r) ''X-Request-ID'') in if own = '''' then uuid_gen E (tick w) else own]"
proof -
  obtain rw' w' where "Routes E h r new_writer w = (Returned, rw', w')" "rw_Status rw' \<noteq> 0"
    and sent: "\<And>k. k \<notin> body_headers \<union> cors_headers \<Longrightarrow> rw_Sent rw' k = rw_Header (outer_writer h r (request_id E r w)) k"
    using Routes_sends by blast
  then show ?thesis
    by (intro exI [of _ rw'] exI [of _ w'])
      (simp add: body_headers_def cors_headers_def outer_writer_headers request_id_def Let_def)
qed

text \<open>
  C33. Who may read a response across origins: \<open>Access-Control-Allow-Origin\<close> is sent only for an
  origin that the configuration lists (or \<open>*\<close>), and then names just that origin.
\<close>

theorem cors_origin_only_listed:
  "\<exists>rw' w'. Routes E h r new_writer w = (Returned, rw', w')
    \<and> rw_Sent rw' ''Access-Control-Allow-Origin'' =
        (let origin = trim_space (header_get (rq_Header r) ''Origin'') in
         if origin \<noteq> '''' \<and> list_ex (\<lambda>o'. o' = ''*'' \<or> equal_fold (unicode_tables E) origin o') (CORSAllowedOrigins (hs_config h))
         then [origin] else [])"
proof -
  have allowed: "isOriginAllowed U origin os = list_ex (\<lambda>o'. o' = ''*'' \<or> equal_fold U origin o') os" for U origin os
    by (induction os) auto
  obtain rw' w' where "Routes E h r new_writer w = (Returned, rw', w')"
    "rw_Sent rw' ''Access-Control-Allow-Origin'' = cors_origin E (CORSAllowedOrigins (hs_config h)) r"
    using Routes_sends by blast
  then show ?thesis by (simp add: cors_origin_def allowed)
qed

section \<open>What requests may do\<close>

text \<open>
  C32. Only POST and DELETE change anything: a request with any other method leaves users,
  sessions, the audit log and every refresh token as they are, whatever its path, its
  cookies and its headers (so that no link, image or preflight acts for a user).
\<close>

theorem other_methods_are_safe:
  assumes "redis_laws (redis E)" and "hs_authService h = auth_wiring E ts"
    and "rq_Method r \<noteq> ''POST''" and "rq_Method r \<noteq> ''DELETE''"
    and "Routes E h r new_writer w = (out, rw', w')"
  shows "users w' = users w \<and> sessions w' = sessions w \<and> audit_logs w' = audit_logs w
    \<and> kept_tokens E w' = kept_tokens E w \<and> token_indexes E w' = token_indexes E w"
proof -
  let ?r = "r\<lparr>rq_RequestID := Some (request_id E r w)\<rparr>" and ?rw = "outer_writer h r (request_id E r w)"
  have inner: "data_kept E w1 (after (inner_chain E h ?r rw w1))" for rw w1
    using inner_chain_only_reads [OF assms(1,2), of ?r] assms(3,4) by simp
  obtain w1 where "data_kept E w w1" and eq: "Routes E h r new_writer w =
    CORS E (CORSAllowedOrigins (hs_config h)) (CORSAllowedMethods (hs_config h)) (CORSAllowedHeaders (hs_config h))
      (CORSAllowCredentials (hs_config h)) (inner_chain E h) ?r ?rw w1"
    by (rule Routes_outer)
  moreover have "data_kept E w1 (after (CORS E os ms hs cred (inner_chain E h) ?r rw w1))" for os ms hs cred rw
    using inner by (simp add: CORS_def Let_def)
  ultimately have kept: "data_kept E w w'" using assms(5) data_kept_trans by (metis after_simps(2))
  then show ?thesis using data_kept_tokens [OF kept] by (simp add: data_kept_def)
qed

abbreviation sample_config :: config where
  "sample_config \<equiv> read_config sample_unicode (\<lambda>k. '''')"

abbreviation sample_server :: "keyspace http_server" where
  "sample_server \<equiv> NewHandler sample_config sample_auth sample_tokens"

abbreviation sample_request :: "string \<Rightarrow> string \<Rightarrow> http_request" where
  "sample_request meth path \<equiv>
     \<lparr>rq_Method = meth, rq_Path = path, rq_EscapedPath = path, rq_RemoteAddr = ''1.2.3.4:5'', rq_Header = (\<lambda>k. []),
      rq_Cookies = [(''refresh_token'', ''t'')], rq_Body = ''e'', rq_RequestID = None, rq_Identity = None\<rparr>"

lemma sample_wired: "hs_authService sample_server = sample_auth" "hs_config sample_server = sample_config"
  "hs_tokenService sample_server = sample_tokens"
  by (simp_all add: NewHandler_def)

lemma sample_redis_laws: "redis_laws (redis sample_env)"
  by (simp add: sample_env_def mem_redis_laws)

theorem other_methods_are_safe_witness:
  "sessions (after (Routes sample_env sample_server (sample_request ''GET'' ''/auth/logout'') new_writer sample_active))
    = sessions sample_active"
proof -
  obtain out rw' w' where call: "Routes sample_env sample_server (sample_request ''GET'' ''/auth/logout'') new_writer sample_active = (out, rw', w')"
    by (metis prod.collapse)
  from other_methods_are_safe [OF sample_redis_laws sample_wired(1) _ _ call] call show ?thesis by simp
qed

definition bearer_token :: "unicode \<Rightarrow> http_request \<Rightarrow> string option" where
  "bearer_token U r =
     (let authorization = trim_space (header_get (rq_Header r) ''Authorization'') in
      case split_n2 (CHR '' '') authorization of
        [scheme, token] \<Rightarrow> if equal_fold U scheme ''Bearer'' \<and> trim_space token \<noteq> '''' then Some (trim_space token) else None
      | _ \<Rightarrow> None)"

lemma RequireAuth_cases:
  obtains c m w' where "RequireAuth E ts next r rw w = (Returned, writeError E r rw 401 c m, w')" and "w' = w \<or> w' = step w"
  | tok i where "bearer_token (unicode_tables E) r = Some tok" and "ValidateAccessToken E ts tok w = (Inr i, step w)"
    and "RequireAuth E ts next r rw w = next (r\<lparr>rq_Identity := Some i\<rparr>) rw (step w)"
proof -
  let ?a = "trim_space (header_get (rq_Header r) ''Authorization'')"
  show ?thesis
  proof (cases "bearer_token (unicode_tables E) r")
    case None
    then have "\<exists>c m. RequireAuth E ts next r rw w = (Returned, writeError E r rw 401 c m, w)"
      unfolding bearer_token_def RequireAuth_def Let_def respond_def
      by (auto simp: split_n2_def)
    then show ?thesis using that(1) by blast
  next
    case (Some tok)
    then have "?a \<noteq> ''''" and eq: "RequireAuth E ts next r rw w = (case ValidateAccessToken E ts tok w of
          (Inl e, w) \<Rightarrow> respond (writeError E r rw 401 ''invalid_access_token'' (err_text e)) w
        | (Inr identity, w) \<Rightarrow> next (r\<lparr>rq_Identity := Some identity\<rparr>) rw w)"
      unfolding bearer_token_def RequireAuth_def Let_def by (auto simp: split_n2_def split: if_splits)
    obtain res w' where v: "ValidateAccessToken E ts tok w = (res, w')" by (cases "ValidateAccessToken E ts tok w")
    have "w' = step w" using ValidateAccessToken_frame [OF v] .
    then show ?thesis using v eq that(1) that(2) [OF Some] by (cases res) (auto simp: respond_def)
  qed
qed

lemma protected_handler:
  assumes "path \<in> {''/auth/me'', ''/auth/sessions'', ''/auth/logout-all''} \<or> has_prefix path ''/auth/sessions/''"
  shows "\<exists>f \<in> {handleMe E, handleSessions E h, handleSessionByID E h, handleLogoutAll E h}.
    mux_handler E h path = RequireAuth E (hs_tokenService h) f"
proof (cases "has_prefix path ''/auth/sessions/''")
  case True
  have "\<not> has_prefix p ''/auth/sessions/''" if "p \<in> set [''/health'', ''/auth/register'', ''/auth/login'', ''/auth/refresh'',
      ''/auth/logout'', ''/auth/logout-all'', ''/auth/sessions'']" for p
    using that by (auto simp: has_prefix_def)
  with True have "path \<notin> set [''/health'', ''/auth/register'', ''/auth/login'', ''/auth/refresh'',
      ''/auth/logout'', ''/auth/logout-all'', ''/auth/sessions'']" by blast
  then have "mux_handler E h path = RequireAuth E (hs_tokenService h) (handleSessionByID E h)"
    using True by (simp add: mux_handler_def Let_def)
  then show ?thesis by blast
next
  case False
  with assms consider "path = ''/auth/me''" | "path = ''/auth/sessions''" | "path = ''/auth/logout-all''" by blast
  then show ?thesis by cases (use False in \<open>simp_all add: mux_handler_def Let_def\<close>)
qed

text \<open>
  C24. The four protected routes are closed without a valid access token: the request is
  answered 401 and has no effect, or its \<open>Authorization\<close> header is a bearer token that
  validates, and the handler runs with the identity it stands for.
\<close>

theorem protected_routes_need_token:
  assumes "path \<in> {''/auth/me'', ''/auth/sessions'', ''/auth/logout-all''} \<or> has_prefix path ''/auth/sessions/''"
    and "mux_handler E h path r rw w = res"
  shows "(\<exists>c m w'. res = (Returned, writeError E r rw 401 c m, w') \<and> (w' = w \<or> w' = step w))
    \<or> (\<exists>tok i. bearer_token (unicode_tables E) r = Some tok \<and> fst (ValidateAccessToken E (hs_tokenService h) tok w) = Inr i
        \<and> (\<exists>f \<in> {handleMe E, handleSessions E h, handleSessionByID E h, handleLogoutAll E h}.
              res = f (r\<lparr>rq_Identity := Some i\<rparr>) rw (step w)))"
proof -
  from protected_handler [OF assms(1)] obtain f where
    f: "f \<in> {handleMe E, handleSessions E h, handleSessionByID E h, handleLogoutAll E h}"
    and "mux_handler E h path = RequireAuth E (hs_tokenService h) f" by blast
  then show ?thesis
    using assms(2) by (cases rule: RequireAuth_cases [of E "hs_tokenService h" f r rw w]) auto
qed

lemma sample_no_bearer: "bearer_token (unicode_tables sample_env) (sample_request m p) = None"
  by (simp add: bearer_token_def header_get_def split_n2_def Let_def)

theorem protected_routes_need_token_witness:
  "\<exists>c m w'. mux_handler sample_env sample_server ''/auth/logout-all'' (sample_request ''POST'' ''/auth/logout-all'') new_writer sample_active
    = (Returned, writeError sample_env (sample_request ''POST'' ''/auth/logout-all'') new_writer 401 c m, w')"
  using protected_routes_need_token [OF _ refl, of "''/auth/logout-all''" sample_env sample_server
      "sample_request ''POST'' ''/auth/logout-all''" new_writer sample_active] sample_no_bearer by auto

section \<open>Sign-in over HTTP\<close>

lemma written_status:
  "rw_Status rw = 0 \<Longrightarrow> n \<noteq> 0 \<Longrightarrow> rw_Status (writeJSON E rw n j) \<in> {n, 500}"
  "rw_Status rw = 0 \<Longrightarrow> n \<noteq> 0 \<Longrightarrow> rw_Status (writeError E r rw n c m) \<in> {n, 500}"
  by (auto simp: writeError_def writeJSON_def WriteHeader_def Write_def commit_header_def set_header_def Let_def split: sum.splits)

lemma refused_status:
  assumes "rw_Status rw = 0" and "rw_Status rw' = 200" and "n \<noteq> 200" and "n \<noteq> 0"
  shows "respond (writeError E r rw n c m) w \<noteq> (out, rw', w')"
  using written_status(2) [OF assms(1,4), of E r c m] assms(2,3) by (auto simp: respond_def)

lemma RateLimit_success:
  assumes "RateLimit E sc n d next r rw w = (out, rw', w')" and "rw_Status rw = 0" and "rw_Status rw' = 200"
  obtains res w1 where "Allow E sc (rateLimitIdentifier r) n d w = (Inr res, w1)" and "Allowed res" and "next r rw w1 = (out, rw', w')"
proof -
  obtain a w1 where a: "Allow E sc (rateLimitIdentifier r) n d w = (a, w1)" by (cases "Allow E sc (rateLimitIdentifier r) n d w")
  show ?thesis
  proof (cases a)
    case (Inl e)
    with a assms show ?thesis by (simp add: RateLimit_def Let_def refused_status)
  next
    case (Inr res)
    with a assms that show ?thesis by (cases "Allowed res") (simp_all add: RateLimit_def Let_def refused_status)
  qed
qed

definition cookie_line :: "'r env \<Rightarrow> cookie \<Rightarrow> string list" where
  "cookie_line E c = (if cookie_text E c = '''' then [] else [cookie_text E c])"

lemma json_after_cookie:
  assumes "respond (writeJSON E (SetCookie E c rw) 200 j) w = (out, rw', w')" and "rw_Status rw = 0" and "rw_Status rw' = 200"
    and "rw_Body rw = ''''"
  shows "out = Returned" and "w' = w" and "\<exists>text. encode_json E j = Inr text \<and> rw_Body rw' = text"
    and "rw_Header rw' ''Set-Cookie'' = rw_Header rw ''Set-Cookie'' @ cookie_line E c"
  using assms
  by (auto simp: respond_def writeJSON_def cookie_line_def SetCookie_def header_add_def
      WriteHeader_def Write_def commit_header_def set_header_def header_set_def Let_def split: sum.splits if_splits)

lemma handleRefresh_success:
  assumes "handleRefresh E h r rw w = (out, rw', w')" and "rw_Status rw = 0" and "rw_Body rw = ''''" and "rw_Status rw' = 200"
  obtains v resp w1 where "map_of (rq_Cookies r) ''refresh_token'' = Some v"
    and "RefreshAccessToken E (hs_authService h) (trim_space v) (requestMetadata (hs_config h) r) w = (Inr resp, w1)"
    and "w' = step w1" and "rw_Header rw' ''Set-Cookie'' = rw_Header rw ''Set-Cookie'' @ cookie_line E
      (refresh_cookie E (hs_config h) (tr_RefreshToken resp) (wrap64 (RefreshTokenTTLHours (hs_config h) * 60 * 60))
        (Some (cur E w1 + dur_mul (RefreshTokenTTLHours (hs_config h)) hour)))"
proof -
  have post: "rq_Method r = ''POST''"
    using assms by (auto simp: handleRefresh_def method_not_allowed_def refused_status split: if_splits)
  obtain ck where c: "readRefreshTokenCookie r = Inr ck"
    using assms post by (cases "readRefreshTokenCookie r") (auto simp: handleRefresh_def refused_status)
  then obtain v where v: "map_of (rq_Cookies r) ''refresh_token'' = Some v" "ck = trim_space v"
    by (auto simp: readRefreshTokenCookie_def Let_def split: option.splits if_splits)
  obtain res w1 where call: "RefreshAccessToken E (hs_authService h) ck (requestMetadata (hs_config h) r) w = (res, w1)"
    by (cases "RefreshAccessToken E (hs_authService h) ck (requestMetadata (hs_config h) r) w")
  have status: "refresh_status e \<noteq> 200" "refresh_status e \<noteq> 0" for e by (simp_all add: refresh_status_def Let_def)
  obtain resp where resp: "res = Inr resp"
    using assms post c call by (cases res) (auto simp: handleRefresh_def refused_status status)
  have "respond (writeJSON E (SetCookie E (refresh_cookie E (hs_config h) (tr_RefreshToken resp) (wrap64 (RefreshTokenTTLHours (hs_config h) * 60 * 60))
        (Some (cur E w1 + dur_mul (RefreshTokenTTLHours (hs_config h)) hour))) rw) 200 (token_json resp)) (step w1) = (out, rw', w')"
    using assms(1) post c call resp by (simp add: handleRefresh_def setRefreshTokenCookie_def time_now_def)
  from json_after_cookie [OF this assms(2,4,3)] show ?thesis
    using that v call resp by simp
qed

text \<open>
  C21. \<open>POST /auth/refresh\<close>, end to end: when it is answered 200, the cookie held a stored ACTIVE
  token, which is now USED; its successor is ACTIVE in the same session and is what the
  \<open>Set-Cookie\<close> header carries. No other token changed, the rate limiter's work included.
\<close>

theorem http_refresh_rotates:
  assumes "token_inv E w" and "hs_authService h = auth_wiring E ts"
    and "mux_handler E h ''/auth/refresh'' r new_writer w = (out, rw', w')" and "rw_Status rw' = 200"
  shows "\<exists>v rt new maxAge expires. map_of (rq_Cookies r) ''refresh_token'' = Some v
    \<and> kept_tokens E w (trim_space v) = Some rt \<and> rt_Status rt = ''ACTIVE''
    \<and> kept_tokens E w' = (kept_tokens E w)(trim_space v \<mapsto> rt\<lparr>rt_Status := ''USED''\<rparr>, rt_Token new \<mapsto> new)
    \<and> rt_Status new = ''ACTIVE'' \<and> rt_SessionID new = rt_SessionID rt
    \<and> rw_Header rw' ''Set-Cookie'' = cookie_line E (refresh_cookie E (hs_config h) (rt_Token new) maxAge expires)"
proof -
  have limited: "RateLimit E ''refresh'' (RefreshRateLimitRequests (hs_config h)) (dur_mul (RefreshRateLimitWindowSec (hs_config h)) second)
      (handleRefresh E h) r new_writer w = (out, rw', w')"
    using assms(3) by (simp add: mux_handler_def rate_limited_def Let_def)
  have new: "rw_Status new_writer = 0" "rw_Body new_writer = ''''" "rw_Header new_writer ''Set-Cookie'' = []"
    by (simp_all add: new_writer_def)
  obtain res w1 where allow: "Allow E ''refresh'' (rateLimitIdentifier r) (RefreshRateLimitRequests (hs_config h))
      (dur_mul (RefreshRateLimitWindowSec (hs_config h)) second) w = (Inr res, w1)"
    and handle: "handleRefresh E h r new_writer w1 = (out, rw', w')"
    by (rule RateLimit_success [OF limited new(1) assms(4)])
  have "redis_laws (redis E)" using assms(1) by (rule token_inv_laws)
  note kept1 = data_kept_tokens [OF data_kept_Allow [OF this allow]]
  obtain v resp w2 where v: "map_of (rq_Cookies r) ''refresh_token'' = Some v"
    and call: "RefreshAccessToken E (auth_wiring E ts) (trim_space v) (requestMetadata (hs_config h) r) w1 = (Inr resp, w2)"
    and w': "w' = step w2" and cookie: "rw_Header rw' ''Set-Cookie'' = cookie_line E (refresh_cookie E (hs_config h)
        (tr_RefreshToken resp) (wrap64 (RefreshTokenTTLHours (hs_config h) * 60 * 60))
        (Some (cur E w2 + dur_mul (RefreshTokenTTLHours (hs_config h)) hour)))"
    using handleRefresh_success [OF handle new(1,2) assms(4)] new(3) assms(2) by auto
  obtain rt n where "kept_tokens E w1 (trim_space v) = Some rt" "rt_Status rt = ''ACTIVE''" "rt_Token rt = trim_space v"
    and "auth_main.rotated E rt n w1 w2" and "rt_Token n = tr_RefreshToken resp"
    using auth_main.refresh_ok [OF kept1(3) [OF assms(1)] call] by (metis trim_space_idem)
  then show ?thesis
    using v cookie kept1(1) kept_same_space [of E w' w2]
    by (intro exI [of _ v] exI [of _ rt] exI [of _ n]) (auto simp: auth_main.rotated_def set_status_def w')
qed

lemma sample_config_values:
  "RefreshRateLimitRequests sample_config = 10" "RefreshRateLimitWindowSec sample_config = 60" "dur_mul 60 second = 60000000000"
  "rateLimitIdentifier (sample_request m p) = ''1.2.3.4''" "readRefreshTokenCookie (sample_request m p) = Inr ''t''"
  "requestMetadata sample_config (sample_request m p) = \<lparr>UserAgent = '''', IPAddress = ''1.2.3.4:5'', DeviceName = ''''\<rparr>"
  by code_simp+

lemma sample_limited_refresh:
  "case Allow sample_env ''refresh'' ''1.2.3.4'' 10 60000000000 sample_active of
     (Inl e, w) \<Rightarrow> False
   | (Inr res, w) \<Rightarrow> Allowed res \<and> is_ok (fst (RefreshAccessToken sample_env sample_auth ''t''
       \<lparr>UserAgent = '''', IPAddress = ''1.2.3.4:5'', DeviceName = ''''\<rparr> w))"
  by code_simp

lemma sample_http_refresh:
  "rw_Status (fst (snd (mux_handler sample_env sample_server ''/auth/refresh'' (sample_request ''POST'' ''/auth/refresh'') new_writer sample_active))) = 200"
proof -
  obtain res w1 where allow: "Allow sample_env ''refresh'' ''1.2.3.4'' 10 60000000000 sample_active = (Inr res, w1)"
    using ok_chain [OF sample_limited_refresh] by blast
  note s = sample_limited_refresh [unfolded allow prod.case sum.case]
  obtain resp w2 where call: "RefreshAccessToken sample_env sample_auth ''t''
       \<lparr>UserAgent = '''', IPAddress = ''1.2.3.4:5'', DeviceName = ''''\<rparr> w1 = (Inr resp, w2)"
    using s ok_result by blast
  have "encode_json sample_env j = Inr (concat (json_strings j))" for j by (simp add: sample_env_def)
  then show ?thesis
    using s allow call
    by (simp add: mux_handler_def rate_limited_def Let_def sample_wired sample_config_values RateLimit_def handleRefresh_def
        setRefreshTokenCookie_def time_now_def writeJSON_def respond_def new_writer_def)
qed

theorem http_refresh_rotates_witness:
  "\<exists>rw' w' rt new. mux_handler sample_env sample_server ''/auth/refresh'' (sample_request ''POST'' ''/auth/refresh'') new_writer sample_active
      = (Returned, rw', w')
    \<and> kept_tokens sample_env w' = (kept_tokens sample_env sample_active)(''t'' \<mapsto> rt\<lparr>rt_Status := ''USED''\<rparr>, rt_Token new \<mapsto> new)"
proof -
  obtain out rw' w' where call: "mux_handler sample_env sample_server ''/auth/refresh''
      (sample_request ''POST'' ''/auth/refresh'') new_writer sample_active = (out, rw', w')"
    by (metis prod.collapse)
  have "rw_Status rw' = 200" using sample_http_refresh unfolding call by simp
  moreover have "answered new_writer (out, rw', w')" using mux_handler_answers unfolding call [symmetric] .
  then have "out = Returned" by (simp add: answered_def)
  ultimately obtain v rt new where "map_of (rq_Cookies (sample_request ''POST'' ''/auth/refresh'')) ''refresh_token'' = Some v"
    and kept: "kept_tokens sample_env w' = (kept_tokens sample_env sample_active)(trim_space v \<mapsto> rt\<lparr>rt_Status := ''USED''\<rparr>, rt_Token new \<mapsto> new)"
    using http_refresh_rotates [OF sample_invs(1) sample_wired(1) call] by blast
  then have "trim_space v = ''t''" by (auto intro: sample_trim)
  from kept [unfolded this] show ?thesis using call \<open>out = Returned\<close> by blast
qed

lemma answered_returned: "answered rw (out, rw', w') \<Longrightarrow> out = Returned"
  by (simp add: answered_def)

lemma with_credentials_success:
  assumes "with_credentials E k r rw w = (out, rw', w')" and "rw_Status rw = 0" and "rw_Status rw' = 200"
  obtains c where "decode_credentials E (rq_Body r) = Decoded c"
    and "k (trim_space (cr_Email c)) (trim_space (cr_Password c)) r rw w = (out, rw', w')"
  using assms
  by (cases "decode_credentials E (rq_Body r)")
    (auto simp: with_credentials_def method_not_allowed_def Let_def refused_status split: if_splits)

text \<open>
  C22. \<open>POST /auth/login\<close>: a 200 was let through by the limiter under the scope, the limit and the
  window of the login route, follows a login that succeeded with the credentials of the
  body, and hands the refresh token over in the cookie alone: the cookie is \<open>HttpOnly\<close>,
  \<open>Secure\<close> as configured, on path \<open>/\<close> with the configured lifetime; the JSON body is the same
  whatever the refresh token is.
\<close>

theorem http_login_response:
  assumes "redis_laws (redis E)" and "mux_handler E h ''/auth/login'' r new_writer w = (out, rw', w')" and "rw_Status rw' = 200"
  shows "\<exists>c resp res w1 w2 ck text. decode_credentials E (rq_Body r) = Decoded c \<and> data_kept E w w1
    \<and> Allow E ''login'' (rateLimitIdentifier r) (LoginRateLimitRequests (hs_config h))
        (dur_mul (LoginRateLimitWindowSec (hs_config h)) second) w = (Inr res, w1) \<and> Allowed res
    \<and> Login E (hs_authService h) (trim_space (cr_Email c)) (trim_space (cr_Password c)) (requestMetadata (hs_config h) r) w1 = (Inr resp, w2)
    \<and> rw_Header rw' ''Set-Cookie'' = cookie_line E ck \<and> c_Value ck = tr_RefreshToken resp \<and> c_HttpOnly ck
    \<and> c_Secure ck = CookieSecure (hs_config h) \<and> c_Path ck = ''/'' \<and> c_MaxAge ck = wrap64 (RefreshTokenTTLHours (hs_config h) * 60 * 60)
    \<and> rw_Body rw' = text \<and> (\<forall>x. encode_json E (token_json (resp\<lparr>tr_RefreshToken := x\<rparr>)) = Inr text)"
proof -
  let ?cfg = "hs_config h"
  have limited: "RateLimit E ''login'' (LoginRateLimitRequests ?cfg) (dur_mul (LoginRateLimitWindowSec ?cfg) second)
      (handleLogin E h) r new_writer w = (out, rw', w')"
    using assms(2) by (simp add: mux_handler_def rate_limited_def Let_def)
  have new: "rw_Status new_writer = 0" "rw_Body new_writer = ''''" "rw_Header new_writer ''Set-Cookie'' = []"
    by (simp_all add: new_writer_def)
  obtain res w1 where allow: "Allow E ''login'' (rateLimitIdentifier r) (LoginRateLimitRequests ?cfg)
      (dur_mul (LoginRateLimitWindowSec ?cfg) second) w = (Inr res, w1)" and "Allowed res"
    and handle: "handleLogin E h r new_writer w1 = (out, rw', w')"
    by (rule RateLimit_success [OF limited new(1) assms(3)])
  obtain c where c: "decode_credentials E (rq_Body r) = Decoded c" and login: "(case Login E (hs_authService h)
        (trim_space (cr_Email c)) (trim_space (cr_Password c)) (requestMetadata ?cfg r) w1 of
       (Inl e, w) \<Rightarrow> respond (writeError E r new_writer (login_status e) ''login_failed'' (err_text e)) w
     | (Inr response, w) \<Rightarrow>
         (case setRefreshTokenCookie E ?cfg new_writer (tr_RefreshToken response) w of (rw, w) \<Rightarrow>
            respond (writeJSON E rw 200 (token_json response)) w)) = (out, rw', w')"
    using with_credentials_success [OF handle [unfolded handleLogin_def] new(1) assms(3)] by blast
  obtain lres w2 where call: "Login E (hs_authService h) (trim_space (cr_Email c)) (trim_space (cr_Password c))
      (requestMetadata ?cfg r) w1 = (lres, w2)"
    by (cases "Login E (hs_authService h) (trim_space (cr_Email c)) (trim_space (cr_Password c)) (requestMetadata ?cfg r) w1")
  have status: "login_status e \<noteq> 200" "login_status e \<noteq> 0" for e by (simp_all add: login_status_def Let_def)
  obtain resp where resp: "lres = Inr resp"
    using login call assms(3) new(1) by (cases lres) (auto simp: refused_status status)
  let ?ck = "refresh_cookie E ?cfg (tr_RefreshToken resp) (wrap64 (RefreshTokenTTLHours ?cfg * 60 * 60))
      (Some (cur E w2 + dur_mul (RefreshTokenTTLHours ?cfg) hour))"
  have "respond (writeJSON E (SetCookie E ?ck new_writer) 200 (token_json resp)) (step w2) = (out, rw', w')"
    using login call resp by (simp add: setRefreshTokenCookie_def time_now_def)
  from json_after_cookie [OF this new(1) assms(3) new(2)] obtain body where
    "encode_json E (token_json resp) = Inr body" "rw_Body rw' = body" "rw_Header rw' ''Set-Cookie'' = cookie_line E ?ck"
    using new(3) by auto
  then show ?thesis
    using c call resp allow \<open>Allowed res\<close> data_kept_Allow [OF assms(1) allow]
    by (intro exI [of _ c] exI [of _ resp] exI [of _ res] exI [of _ w1] exI [of _ w2] exI [of _ ?ck] exI [of _ body])
      (simp add: refresh_cookie_def token_json_def)
qed

lemma sample_limited_login:
  "case Allow sample_env ''login'' ''1.2.3.4'' 5 60000000000 sample_active of
     (Inl e, w) \<Rightarrow> False
   | (Inr res, w) \<Rightarrow> Allowed res \<and> is_ok (fst (Login sample_env sample_auth ''e'' ''p''
       \<lparr>UserAgent = '''', IPAddress = ''1.2.3.4:5'', DeviceName = ''''\<rparr> w))"
  by code_simp

lemma sample_config_login: "LoginRateLimitRequests sample_config = 5" "LoginRateLimitWindowSec sample_config = 60"
  by code_simp+

lemma sample_http_login:
  "rw_Status (fst (snd (mux_handler sample_env sample_server ''/auth/login'' (sample_request ''POST'' ''/auth/login'') new_writer sample_active))) = 200"
proof -
  obtain res w1 where allow: "Allow sample_env ''login'' ''1.2.3.4'' 5 60000000000 sample_active = (Inr res, w1)"
    using ok_chain [OF sample_limited_login] by blast
  note s = sample_limited_login [unfolded allow prod.case sum.case]
  obtain resp w2 where call: "Login sample_env sample_auth ''e'' ''p''
       \<lparr>UserAgent = '''', IPAddress = ''1.2.3.4:5'', DeviceName = ''''\<rparr> w1 = (Inr resp, w2)"
    using s ok_result by blast
  have "encode_json sample_env j = Inr (concat (json_strings j))"
    "decode_credentials sample_env ''e'' = Decoded \<lparr>cr_Email = ''e'', cr_Password = ''p''\<rparr>" for j
    by (simp_all add: sample_env_def)
  then show ?thesis
    using s allow call
    by (simp add: mux_handler_def rate_limited_def Let_def sample_wired sample_config_values sample_config_login RateLimit_def
        handleLogin_def with_credentials_def setRefreshTokenCookie_def time_now_def writeJSON_def respond_def new_writer_def)
qed

theorem http_login_response_witness:
  "\<exists>rw' w' ck res w1. mux_handler sample_env sample_server ''/auth/login'' (sample_request ''POST'' ''/auth/login'') new_writer sample_active
      = (Returned, rw', w') \<and> rw_Header rw' ''Set-Cookie'' = cookie_line sample_env ck \<and> c_HttpOnly ck
    \<and> Allow sample_env ''login'' ''1.2.3.4'' 5 60000000000 sample_active = (Inr res, w1) \<and> Allowed res"
proof -
  obtain out rw' w' where call: "mux_handler sample_env sample_server ''/auth/login''
      (sample_request ''POST'' ''/auth/login'') new_writer sample_active = (out, rw', w')"
    by (metis prod.collapse)
  have "answered new_writer (out, rw', w')" using mux_handler_answers unfolding call [symmetric] .
  then have out: "out = Returned" by (rule answered_returned)
  have "rw_Status rw' = 200" using sample_http_login unfolding call by simp
  from http_login_response [OF sample_redis_laws call this] call [unfolded out] show ?thesis
    unfolding sample_wired sample_config_login sample_config_values by blast
qed

text \<open>
  C23. \<open>POST /auth/logout\<close>: a 200 deletes the cookie in the browser, and if the request carried a
  refresh token that token can never be exchanged again.
\<close>

theorem http_logout_ends:
  assumes "token_inv E w" and "hs_authService h = auth_wiring E ts"
    and "mux_handler E h ''/auth/logout'' r new_writer w = (out, rw', w')" and "rw_Status rw' = 200"
  shows "rw_Header rw' ''Set-Cookie'' = cookie_line E (refresh_cookie E (hs_config h) '''' (- 1) None)
    \<and> (\<forall>v. map_of (rq_Cookies r) ''refresh_token'' = Some v \<and> trim_space v \<noteq> '''' \<longrightarrow> spent_for_good E w' (trim_space v))"
proof -
  let ?tok = "case readRefreshTokenCookie r of Inl e \<Rightarrow> '''' | Inr v \<Rightarrow> v" and ?m = "requestMetadata (hs_config h) r"
  have new: "rw_Status new_writer = 0" "rw_Body new_writer = ''''" "rw_Header new_writer ''Set-Cookie'' = []"
    by (simp_all add: new_writer_def)
  have handle: "handleLogout E h r new_writer w = (out, rw', w')"
    using assms(3) by (simp add: mux_handler_def Let_def)
  then have post: "rq_Method r = ''POST''"
    using assms(4) new(1) by (auto simp: handleLogout_def method_not_allowed_def refused_status split: if_splits)
  obtain res w1 where call: "Logout E (auth_wiring E ts) ?tok ?m w = (res, w1)" by (cases "Logout E (auth_wiring E ts) ?tok ?m w")
  obtain resp where resp: "res = Inr resp"
    using handle post call assms(2,4) new(1) by (cases res) (auto simp: handleLogout_def Let_def refused_status)
  have "respond (writeJSON E (SetCookie E (refresh_cookie E (hs_config h) '''' (- 1) None) new_writer) 200 (message_json resp)) w1
      = (out, rw', w')"
    using handle post call resp assms(2) by (simp add: handleLogout_def clearRefreshTokenCookie_def Let_def)
  note sent = json_after_cookie [OF this new(1) assms(4) new(2)]
  have "spent_for_good E w' (trim_space v)"
    if v: "map_of (rq_Cookies r) ''refresh_token'' = Some v" "trim_space v \<noteq> ''''" for v
  proof -
    have "?tok = trim_space v" using v by (simp add: readRefreshTokenCookie_def Let_def)
    with auth_main.logout_ok(2) [OF assms(1) _ call [unfolded resp]] v(2) sent(2) show ?thesis
      by (simp add: spent_for_good_iff trim_space_idem)
  qed
  with sent(4) new(3) show ?thesis by simp
qed

lemma sample_http_logout:
  "rw_Status (fst (snd (mux_handler sample_env sample_server ''/auth/logout'' (sample_request ''POST'' ''/auth/logout'') new_writer sample_active))) = 200"
proof -
  have "is_ok (fst (Logout sample_env sample_auth ''t'' \<lparr>UserAgent = '''', IPAddress = ''1.2.3.4:5'', DeviceName = ''''\<rparr> sample_active))"
    by code_simp
  then obtain q w1 where call: "Logout sample_env sample_auth ''t''
      \<lparr>UserAgent = '''', IPAddress = ''1.2.3.4:5'', DeviceName = ''''\<rparr> sample_active = (Inr q, w1)"
    using ok_result by blast
  have "encode_json sample_env j = Inr (concat (json_strings j))" for j by (simp add: sample_env_def)
  then show ?thesis
    using call
    by (simp add: mux_handler_def Let_def sample_wired sample_config_values handleLogout_def clearRefreshTokenCookie_def
        writeJSON_def respond_def new_writer_def)
qed

theorem http_logout_ends_witness:
  "\<exists>rw' w'. mux_handler sample_env sample_server ''/auth/logout'' (sample_request ''POST'' ''/auth/logout'') new_writer sample_active
      = (Returned, rw', w') \<and> spent_for_good sample_env w' ''t''"
proof -
  obtain out rw' w' where call: "mux_handler sample_env sample_server ''/auth/logout''
      (sample_request ''POST'' ''/auth/logout'') new_writer sample_active = (out, rw', w')"
    by (metis prod.collapse)
  have "answered new_writer (out, rw', w')" using mux_handler_answers unfolding call [symmetric] .
  then have out: "out = Returned" by (rule answered_returned)
  have "rw_Status rw' = 200" using sample_http_logout unfolding call by simp
  from http_logout_ends [OF sample_invs(1) sample_wired(1) call this] have "spent_for_good sample_env w' (trim_space ''t'')" by simp
  then show ?thesis unfolding sample_trim using call [unfolded out] by blast
qed

section \<open>Middleware\<close>

text \<open>
  C34. A timed response is all or nothing: the 504 error, with none of the headers and none of
  the body the handler had written, or exactly the status, the headers and the body of the
  handler. In both cases the handler's effects stay.
\<close>

theorem timeout_all_or_nothing:
  assumes "next r new_writer w = (Returned, buf, w1)" and "rw_Status rw = 0" and "rw_Body rw = ''''"
  shows "\<exists>rw'. Timeout E d next r rw w = (Returned, rw', w1)
    \<and> (if deadline_passes E d (tick w) then rw' = writeError E r rw 504 ''request_timeout'' ''request timed out''
       else rw_Status rw' = (if rw_Status buf = 0 then 200 else rw_Status buf) \<and> rw_Body rw' = rw_Body buf
         \<and> rw_Sent rw' = (\<lambda>k. rw_Header rw k @ rw_Header buf k))"
  using assms by (auto simp: Timeout_def respond_def Let_def copyHeader_def)

lemma new_writer_simps [simp]:
  "rw_Status new_writer = 0" "rw_Body new_writer = ''''" "rw_Header new_writer k = []"
  by (simp_all add: new_writer_def)

theorem timeout_all_or_nothing_witness:
  "\<exists>rw'. Timeout sample_env (15 * second) (handleRoot sample_env sample_server) (sample_request ''GET'' ''/'') new_writer sample_active
    = (Returned, rw', sample_active) \<and> rw_Status rw' = 200"
proof -
  define buf where "buf = writeJSON sample_env new_writer 200
      (JObj [(''app_name'', JStr (AppName sample_config)), (''instance_name'', JStr (InstanceName sample_config)),
             (''message'', JStr ''authentication service base is running'')])"
  have call: "handleRoot sample_env sample_server (sample_request ''GET'' ''/'') new_writer sample_active = (Returned, buf, sample_active)"
    by (simp add: handleRoot_def respond_def buf_def sample_wired)
  have "rw_Status buf = 200" "\<not> deadline_passes sample_env d n" for d n
    by (simp_all add: buf_def writeJSON_def sample_env_def)
  with timeout_all_or_nothing [of "handleRoot sample_env sample_server" "sample_request ''GET'' ''/''" sample_active buf sample_active
      new_writer sample_env "15 * second"] call
  show ?thesis by auto
qed

text \<open>A handler that panics before it has written anything, whatever identifier the request carries.\<close>

definition panics_unwritten :: "'r handler \<Rightarrow> http_request \<Rightarrow> bool" where
  "panics_unwritten handler r \<longleftrightarrow>
     (\<forall>i w. \<exists>p buf w'. handler (r\<lparr>rq_RequestID := i\<rparr>) new_writer w = (Panicked p, buf, w') \<and> rw_Status buf = 0 \<and> rw_Body buf = '''')"

definition panic_json :: "string \<Rightarrow> json" where
  "panic_json i = error_json \<lparr>ae_Code = ''internal_server_error'', ae_Message = ''internal server error''\<rparr> i"

lemma guarded_returns:
  assumes "\<And>r rw w. fst (handler r rw w) \<noteq> Crashed"
  shows "\<exists>rw' w'. Timeout E d (Recoverer E handler) r rw w = (Returned, rw', w') \<and> rw_Status rw' \<noteq> 0"
proof -
  obtain out buf w1 where call: "handler r new_writer w = (out, buf, w1)" by (cases "handler r new_writer w")
  with assms have "out \<noteq> Crashed" by (metis fst_conv)
  with call obtain buf' where "Recoverer E handler r new_writer w = (Returned, buf', w1)"
    by (cases out) (auto simp: Recoverer_def)
  then show ?thesis
    by (cases "rw_Status rw = 0") (auto simp: Timeout_def respond_def Let_def writeError_def writeJSON_def split: sum.split)
qed

lemma guarded_panic:
  assumes "handler r new_writer w = (Panicked p, buf, w1)" and "rw_Status buf = 0" and "rw_Body buf = ''''"
    and "rw_Status rw = 0" and "rw_Body rw = ''''"
  shows "\<exists>rw'. Timeout E d (Recoverer E handler) r rw w = (Returned, rw', w1) \<and> rw_Status rw' \<in> {500, 504}
    \<and> (\<not> deadline_passes E d (tick w) \<longrightarrow> rw_Status rw' = 500
        \<and> (\<forall>text. encode_json E (panic_json (GetRequestID r)) = Inr text \<longrightarrow> rw_Body rw' = text))"
  using assms
  by (auto simp: Timeout_def Recoverer_def respond_def Let_def writeError_def writeJSON_def panic_json_def split: sum.split)

text \<open>Around the guarded part, the rest of the chain only adds headers and the access log entry, or answers itself.\<close>

lemma logged_returns:
  assumes "next r (rw\<lparr>rw_Recorded := 200\<rparr>) (step w) = (Returned, rw', w')"
  shows "\<exists>w''. RequestLogger E next r rw w = (Returned, rw', w'')"
  using assms by (simp add: RequestLogger_def time_now_def)

lemma CORS_returns:
  assumes "\<And>rw w. rw_Status rw = 0 \<Longrightarrow> rw_Body rw = '''' \<Longrightarrow> \<exists>rw' w'. next r rw w = (Returned, rw', w') \<and> P rw'"
    and "rq_Method r = ''OPTIONS'' \<Longrightarrow> \<forall>rw. rw_Status rw \<noteq> 0 \<longrightarrow> P rw" and "rw_Status rw = 0" and "rw_Body rw = ''''"
  shows "\<exists>rw' w'. CORS E os ms hs cred next r rw w = (Returned, rw', w') \<and> P rw'"
  using assms
  by (auto simp: CORS_def Let_def respond_def writeError_def writeJSON_def split: sum.split)

lemma route_chain_returns:
  assumes "\<And>i rw w. rw_Status rw = 0 \<Longrightarrow> rw_Body rw = '''' \<Longrightarrow> \<exists>rw' w'.
      Timeout E (dur_mul (RequestTimeoutSec cfg) second) (Recoverer E handler) (r\<lparr>rq_RequestID := Some i\<rparr>) rw w = (Returned, rw', w') \<and> P i rw'"
    and "\<And>i. rq_Method r = ''OPTIONS'' \<Longrightarrow> \<forall>rw. rw_Status rw \<noteq> 0 \<longrightarrow> P i rw"
  shows "\<exists>rw' w'. route_chain E cfg handler r new_writer w = (Returned, rw', w') \<and> P (request_id E r w) rw'"
proof -
  let ?inner = "RequestLogger E (Timeout E (dur_mul (RequestTimeoutSec cfg) second) (Recoverer E handler))"
  have inner: "\<exists>rw' w'. ?inner (r\<lparr>rq_RequestID := Some i\<rparr>) rw w = (Returned, rw', w') \<and> P i rw'"
    if "rw_Status rw = 0" "rw_Body rw = ''''" for i rw w
    using assms(1) [of "rw\<lparr>rw_Recorded := 200\<rparr>" i "step w"] that logged_returns by fastforce
  have "\<exists>rw' w'. CORS E os ms hs cred ?inner (r\<lparr>rq_RequestID := Some i\<rparr>) rw w = (Returned, rw', w') \<and> P i rw'"
    if "rw_Status rw = 0" "rw_Body rw = ''''" for os ms hs cred i rw w
    using inner assms(2) that by (intro CORS_returns) auto
  then show ?thesis
    by (simp add: route_chain_def Chain_def RequestID_def InstanceHeader_def SecurityHeaders_def uuid_new_def request_id_def Let_def)
qed

text \<open>
  C35. The chain of \<open>Routes\<close> answers whatever the innermost handler does, a panic included: it
  returns with a status written, and the goroutine in which \<open>Timeout\<close> runs the handler never
  takes the process down. If the handler panics before it has written anything, a request
  other than a preflight is answered 500 (or 504, if the deadline passes as well), and with the JSON error
  under the identifier of the request where that can be encoded.
\<close>

theorem recovered_panic_answers:
  assumes "\<forall>r rw w. fst (handler r rw w) \<noteq> Crashed"
  shows "\<exists>rw' w'. route_chain E cfg handler r new_writer w = (Returned, rw', w') \<and> rw_Status rw' \<noteq> 0
    \<and> (panics_unwritten handler r \<and> rq_Method r \<noteq> ''OPTIONS'' \<longrightarrow> rw_Status rw' \<in> {500, 504}
        \<and> ((\<forall>n. \<not> deadline_passes E (dur_mul (RequestTimeoutSec cfg) second) n) \<longrightarrow> rw_Status rw' = 500
            \<and> (\<forall>text. encode_json E (panic_json (request_id E r w)) = Inr text \<longrightarrow> rw_Body rw' = text)))"
proof -
  let ?d = "dur_mul (RequestTimeoutSec cfg) second"
  let ?P = "\<lambda>i rw'. rw_Status rw' \<noteq> 0 \<and> (panics_unwritten handler r \<and> rq_Method r \<noteq> ''OPTIONS'' \<longrightarrow> rw_Status rw' \<in> {500, 504}
      \<and> ((\<forall>n. \<not> deadline_passes E ?d n) \<longrightarrow> rw_Status rw' = 500
          \<and> (\<forall>text. encode_json E (panic_json i) = Inr text \<longrightarrow> rw_Body rw' = text)))"
  have "\<exists>rw' w'. Timeout E ?d (Recoverer E handler) (r\<lparr>rq_RequestID := Some i\<rparr>) rw w = (Returned, rw', w') \<and> ?P i rw'"
    if rw: "rw_Status rw = 0" "rw_Body rw = ''''" for i rw w
  proof (cases "panics_unwritten handler r")
    case True
    then obtain p buf w1 where "handler (r\<lparr>rq_RequestID := Some i\<rparr>) new_writer w = (Panicked p, buf, w1)"
      "rw_Status buf = 0" "rw_Body buf = ''''"
      unfolding panics_unwritten_def by blast
    note panic = guarded_panic [of handler "r\<lparr>rq_RequestID := Some i\<rparr>" w p buf w1 rw E ?d, OF this rw]
    moreover have "GetRequestID (r\<lparr>rq_RequestID := Some i\<rparr>) = i" by (simp add: GetRequestID_def)
    ultimately show ?thesis by fastforce
  next
    case False
    with guarded_returns [of handler E ?d] assms show ?thesis by blast
  qed
  from route_chain_returns [of E cfg handler r ?P w, OF this] show ?thesis by simp
qed

theorem recovered_panic_answers_witness:
  "\<exists>rw' w'. route_chain sample_env sample_config (\<lambda>r rw w. (Panicked ''nil'', rw, w)) (sample_request ''GET'' ''/'') new_writer sample_active
    = (Returned, rw', w') \<and> rw_Status rw' = 500"
proof -
  let ?next = "\<lambda>r rw w. (Panicked ''nil'', rw, w :: keyspace world)"
  have "panics_unwritten ?next (sample_request ''GET'' ''/'')" by (simp add: panics_unwritten_def)
  moreover have "\<not> deadline_passes sample_env d n" for d n by (simp add: sample_env_def)
  ultimately show ?thesis
    using recovered_panic_answers [of ?next sample_env sample_config "sample_request ''GET'' ''/''" sample_active] by auto
qed

end
