(* ===== verification/Spec2Isabelle.thy ===== *)
theory Spec2Isabelle
  imports Auth_Properties Token_Properties Service_Properties Http_Properties
begin

text \<open>
  A verification library for an authentication service in Go: registration and login with
  bcrypt, JWT access tokens, rotating refresh tokens in Redis, sessions and an audit trail
  in PostgreSQL, rate limiting, and the HTTP layer in front. Several instances serve behind
  a proxy and share both stores.

  \<^bold>\<open>The parts and how they interact.\<close> \<open>cmd/server/main.go\<close> loads the configuration, connects to
  the stores, wires repositories, services and handlers, and serves. A request passes the
  middleware chain of \<open>handler.Routes\<close>, is limited or authenticated according to its route, and
  reaches a handler, which calls \<open>AuthService\<close>. That service calls the repositories (users,
  sessions and audit entries in SQL, refresh tokens in Redis) and \<open>TokenService\<close>.

  \<^bold>\<open>Ground.\<close> \<open>Auth_Prelude\<close>: int64 arithmetic, durations, error values, fact collections.
  \<open>Go_Strings\<close>, \<open>Base64\<close>: the functions of \<open>strings\<close>, \<open>strconv\<close> and \<open>encoding/base64\<close> that are
  called; a Go string is its bytes. \<open>Environment\<close>, \<open>World\<close>: what lies outside as the record
  \<open>env\<close> of parameters, and all that changes as the record \<open>world\<close>: the contents of Redis,
  the tables \<open>users\<close>, \<open>sessions\<close> and \<open>audit_logs\<close>, the access log, and the counter \<open>tick\<close> that
  every external call advances. Every operation is a function of \<open>env\<close> and \<open>world\<close> and returns
  its result, an error or a value, with the new world.

  \<^bold>\<open>The model, theory by theory\<close> (paths under \<open>src/internal\<close>):
  \<^item> \<open>Config\<close> is \<open>config/config.go\<close>: \<open>Load\<close> reads, hardens (\<open>applySecureDefaults\<close>) and checks
    (\<open>validate\<close>); \<open>Model\<close> is \<open>model/\<close>, struct by struct.
  \<^item> \<open>User_Repository\<close>, \<open>Session_Repository\<close>, \<open>Audit_Log\<close>, \<open>Token_Contract\<close> and
    \<open>Refresh_Token_Repository\<close> are \<open>repository/\<close> (and \<open>service/audit_service.go\<close>): each interface
    is a record of functions, each SQL statement a function on its table with the constraints of
    \<open>db/schema.sql\<close>, each Redis command a step on a keyspace with deadlines.
  \<^item> \<open>Token_Service\<close>, \<open>Rate_Limit\<close>, \<open>Auth_Service\<close> and \<open>Health\<close> are \<open>service/\<close>.
    \<open>RefreshAccessToken\<close> is also given as \<open>refresh_check\<close> followed by \<open>refresh_commit\<close>, between
    which the requests of other instances may run.
  \<^item> \<open>Http\<close> is the part of \<open>net/http\<close> in use, \<open>Middleware\<close> is \<open>middleware/\<close>, \<open>Handler\<close> is
    \<open>handler/\<close>: a handler maps a request, a response writer and the world to an outcome
    (returned, panicked, process crashed), the writer and the world.
  \<^item> \<open>Server\<close> is \<open>database/\<close> and \<open>cmd/server/main.go\<close>, with the end of the process.

  \<^bold>\<open>Contracts.\<close> \<open>user_directory\<close>, \<open>session_store\<close>, \<open>token_cells\<close>, \<open>token_store\<close> and \<open>audit_trail\<close>
  say what a repository promises; the locale \<open>auth_stores\<close> (\<open>Auth_Contract\<close>) derives from them
  alone what \<open>AuthService\<close> promises; \<open>steady\<close> (\<open>Auth_Steps\<close>) lifts any reflexive, transitive
  relation that the repository calls keep to the seven operations and to every run of them;
  \<open>fixed_window\<close> (\<open>Rate_Limit\<close>) bounds the allowed calls of a window. Each is interpreted on the
  PostgreSQL and Redis definitions, in the theory that provides them or in \<open>Auth_Contract\<close> and
  \<open>Auth_Invariants\<close>. The abstract state of \<open>token_store\<close> is a map from token values to tokens
  (\<open>kept_tokens\<close>), which the keyspace refines.

  \<^bold>\<open>What the properties show.\<close> \<open>Auth_Properties\<close>: rotation, reuse detection, logout, sessions,
  login and registration on the tables and the keyspace; invariants of every run; and two
  interleavings that break rotation. Where a property says that a request succeeds,
  \<open>Availability\<close> has what the calls answer when nothing outside fails. \<open>Token_Properties\<close>: the
  Redis repository refines a map of tokens, call by call. \<open>Service_Properties\<close>: access and
  refresh tokens, overflow of lifetimes, the bound of a window and what voids it. \<open>Http_Frames\<close>,
  \<open>Http_Properties\<close>: every request is answered, with which headers; what an unauthenticated or a
  GET request cannot do; refresh, login and logout end to end; \<open>Timeout\<close> and the chain around a
  handler that panics. This theory: refusals by the limiter and the process as a whole. \<open>Sample\<close>
  holds the concrete environment in which the witnesses apply the properties.

  \<^bold>\<open>Hypotheses.\<close> \<open>redis_laws\<close>: a command that is answered has its documented effect and answer, one
  that fails has it or has none, a transaction is all or nothing. \<open>redis_up\<close> (only where a
  request must succeed): commands are answered. \<open>undisturbed\<close>, \<open>login_ready\<close>, \<open>issuable\<close>, \<open>signable\<close>,
  \<open>storable\<close> and \<open>metadata_fits\<close> (\<open>Availability\<close>, only where a login or a refresh must succeed): for
  the ticks of that request no SQL call and no random read fails, less than an hour passes,
  and what it has to store or sign can be encoded; a refresh takes twelve ticks after its
  checks, a login ten before its audit entry. \<open>clock_laws\<close>: the clock does not go back.
  \<open>codec_laws\<close>: a token record that was marshalled reads back. \<open>pg_laws\<close>: errors of PostgreSQL
  that are not unique violations do not look like one. \<open>jwt_laws\<close>: golang-jwt reads back what it
  signed and checks method, issuer, audience and dates as documented (that nobody else can
  sign is not used); \<open>bcrypt_laws\<close>: a hash matches its password. Random tokens are assumed not
  to collide only where a theorem says so.

  \<^bold>\<open>Bounds.\<close> Integers of the configuration are int64. A refresh lifetime up to 2562047 hours and
  an access lifetime up to 153722867 minutes fit \<open>time.Duration\<close>; beyond that \<open>dur_mul\<close> wraps, as in
  the source: a refresh lifetime of 2562048 to 5124094 hours becomes negative, a longer one another
  value again. No definition uses fuel: every loop of the source runs over a list.

  \<^bold>\<open>Not modelled.\<close> The inside of PostgreSQL, Redis and the libraries, connection pools beyond
  their settings, log lines other than the access log entry, nginx, the schema and OpenAPI files.
  \<open>int(d.Seconds())\<close> is exact division, which differs from the floating point of the source only
  for lifetimes of months within a microsecond of a whole second. When \<open>Timeout\<close> answers for a
  handler, the world returned is the one after the handler's goroutine has ended. Strings that
  are not UTF-8 are refused by the parameters that encode JSON. Concurrency appears as
  interleaving of operations, and inside \<open>RefreshAccessToken\<close>; single commands are atomic.
\<close>

section \<open>Refusals\<close>

text \<open>What \<open>formatRetryAfter\<close> makes of the time a counter has left at \<open>now\<close>.\<close>

lemma retry_after_bound:
  assumes "x = window \<or> D \<noteq> None \<and> 0 \<le> x \<and> x < the D - now + second" and "D = None \<or> now < the D"
  shows "max 1 (quot x second) = max 1 (quot window second) \<or> D \<noteq> None \<and> (max 1 (quot x second) - 1) * second < the D - now"
  using assms(1)
proof (elim disjE conjE)
  assume "D \<noteq> None" "0 \<le> x" "x < the D - now + second"
  moreover from this have "quot x second * second \<le> x"
    by (cases "x = 0") (simp_all add: quot_def minus_mod_eq_div_mult [symmetric])
  ultimately show ?thesis using assms(2) by (auto simp: max_def left_diff_distrib)
qed simp

text \<open>
  C25. With the limit of the open window spent, the handler behind the limiter does not run,
  whatever it is: no account, session, token or counter of another client changes, and
  the client is answered with 429 or, when the limiter or the encoder fails, with 500. \<open>Retry-After\<close>
  is at least a second, and if it is not the whole window, then waiting for it is less
  than a second longer than the window lasts.
\<close>

theorem spent_limit_refuses:
  assumes "redis_laws (redis E)" and "clock_laws E" and "rw_Status rw = 0"
    and "kspace E w (rate_limit_key sc (rateLimitIdentifier r)) = Some (VInt c, D)" and "D = None \<or> cur E w < the D"
    and "0 < c" and "limit \<le> c" and "RateLimit E sc limit window next r rw w = (out, rw', w')"
  shows "out = Returned \<and> same_sql w w' \<and> audit_logs w' = audit_logs w
    \<and> (\<forall>k. k \<noteq> rate_limit_key sc (rateLimitIdentifier r) \<longrightarrow> kspace E w' k = kspace E w k)
    \<and> rw_Status rw' \<in> {429, 500}
    \<and> (rw_Status rw' = 429 \<longrightarrow> (\<exists>s \<ge> 1. rw_Sent rw' ''Retry-After'' = [itoa s]
        \<and> (s = max 1 (quot window second) \<or> D \<noteq> None \<and> (s - 1) * second < the D - cur E w)))"
proof -
  let ?i = "rateLimitIdentifier r"
  obtain a where a: "Allow E sc ?i limit window w = (a, w')" and refused: "\<And>res. a = Inr res \<Longrightarrow> \<not> Allowed res"
    and answer: "out = Returned" "rw' = (case a of Inl e \<Rightarrow> writeError E r rw 500 ''rate_limit_check_failed'' ''rate limit check failed''
      | Inr res \<Rightarrow> writeError E r (set_header ''Retry-After'' (formatRetryAfter (ResetIn res)) rw) 429
          ''rate_limit_exceeded'' ''too many requests, please try again later'')"
  proof -
    obtain a w1 where a: "Allow E sc ?i limit window w = (a, w1)" by (cases "Allow E sc ?i limit window w")
    have "\<not> Allowed res" if "a = Inr res" for res
      using Allow_on_counter(2) [OF assms(1) a assms(4,5,6)] that assms(7) by fastforce
    with a assms(8) that [of a] show thesis by (cases a) (auto simp: RateLimit_def Let_def respond_def)
  qed
  have "rw_Status rw' \<in> {429, 500}"
  proof (cases a)
    case (Inl e)
    then show ?thesis using answer(2) written_status(2) [OF assms(3), of 500 E] by simp
  next
    case (Inr res)
    let ?rw = "set_header ''Retry-After'' (formatRetryAfter (ResetIn res)) rw"
    have "rw_Status ?rw = 0" using assms(3) by simp
    from written_status(2) [OF this, of 429 E] show ?thesis unfolding answer(2) Inr sum.case by simp
  qed
  moreover have "\<exists>s \<ge> 1. rw_Sent rw' ''Retry-After'' = [itoa s]
      \<and> (s = max 1 (quot window second) \<or> D \<noteq> None \<and> (s - 1) * second < the D - cur E w)" if status: "rw_Status rw' = 429"
  proof -
    have "a \<noteq> Inl e" for e using answer(2) status written_status(2) [OF assms(3), of 500 E] by auto
    then obtain res where res: "a = Inr res" by (cases a) auto
    define s where "s = max 1 (quot (ResetIn res) second)"
    have "rw_Sent rw' ''Retry-After'' = [itoa s]"
      using answer(2) assms(3) by (simp add: res writeError_def writeJSON_def formatRetryAfter_def s_def max_def Let_def split: sum.split)
    moreover have "s = max 1 (quot window second) \<or> D \<noteq> None \<and> (s - 1) * second < the D - cur E w"
      using retry_after_bound [OF Allow_reset [OF assms(1,2) a [unfolded res] assms(4,5,6)] assms(5)] by (simp add: s_def)
    ultimately show ?thesis by (intro exI [of _ s]) (simp add: s_def)
  qed
  ultimately show ?thesis
    using answer(1) Allow_frame [OF a] Allow_other_keys [OF assms(1) a] by (simp add: same_sql_def)
qed

lemma sample_spent:
  "kspace sample_env (sample_active\<lparr>redis_db := [rate_limit_key ''login'' i \<mapsto> (VInt 5, Some (60 * second))]\<rparr>)
     (rate_limit_key ''login'' i) = Some (VInt 5, Some (60 * second))"
  by (simp add: kspace_def sample_env_def mem_redis_def)

theorem spent_limit_refuses_witness:
  "fst (RateLimit sample_env ''login'' 5 (60 * second) (\<lambda>r rw w. (Crashed, rw, w\<lparr>users := []\<rparr>)) (sample_request ''POST'' ''/auth/login'') new_writer
      (sample_active\<lparr>redis_db := [rate_limit_key ''login'' (rateLimitIdentifier (sample_request ''POST'' ''/auth/login''))
         \<mapsto> (VInt 5, Some (60 * second))]\<rparr>)) = Returned"
proof -
  let ?r = "sample_request ''POST'' ''/auth/login''"
  let ?w = "sample_active\<lparr>redis_db := [rate_limit_key ''login'' (rateLimitIdentifier ?r) \<mapsto> (VInt 5, Some (60 * second))]\<rparr>"
  let ?next = "\<lambda>r rw w. (Crashed, rw, w\<lparr>users := []\<rparr>)"
  obtain out rw' w' where call: "RateLimit sample_env ''login'' 5 (60 * second) ?next ?r new_writer ?w = (out, rw', w')"
    by (metis prod.collapse)
  have "cur sample_env ?w < 60 * second" by (simp add: cur_def sample_env_def sample_world_def)
  then show ?thesis
    using spent_limit_refuses [OF sample_redis(1) sample_clock(1) _ sample_spent _ _ _ call] unfolding call by simp
qed

text \<open>
  C40. Who may set \<open>X-Forwarded-For\<close> is never limited: the limiter takes the first
  address of that header for the client, also where \<open>TRUST_PROXY_HEADERS\<close> is off and sessions and
  the audit trail record the peer. Under a name with no open counter a request passes,
  whatever the peer has requested before.
\<close>

theorem forwarded_header_evades_limit:
  assumes "redis_laws (redis E)" and "redis_up (redis E)" and "clock_laws E" and "0 < ex_ttl window" and "1 \<le> limit"
    and "header_get (rq_Header r) ''X-Forwarded-For'' = name" and "trim_space name = name" and "CHR '','' \<notin> set name" and "name \<noteq> ''''"
    and "live (cur E w) (kspace E w) (rate_limit_key sc name) = None"
  shows "(\<exists>w1. RateLimit E sc limit window next r rw w = next r rw w1 \<and> users w1 = users w \<and> sessions w1 = sessions w)
    \<and> resolveClientIP r False = trim_space (rq_RemoteAddr r)"
proof -
  have split: "split_on (CHR '','') name = [name]" using assms(8) by (rule split_on_free)
  have i: "rateLimitIdentifier r = name" using assms(6,7,9) split by (simp add: rateLimitIdentifier_def Let_def)
  obtain res w1 where "Allow E sc name limit window w = (Inr res, w1)" "Allowed res"
    using Allow_fresh [OF assms(1-5,10)] by blast
  moreover from this have "users w1 = users w \<and> sessions w1 = sessions w" using Allow_frame by blast
  ultimately show ?thesis by (auto simp: RateLimit_def i resolveClientIP_def Let_def)
qed

lemma sample_forwarded:
  "header_get (\<lambda>k. if k = ''X-Forwarded-For'' then [''c''] else []) ''X-Forwarded-For'' = ''c''" "trim_space ''c'' = ''c''"
  by code_simp+

theorem forwarded_header_evades_limit_witness:
  "\<exists>w1. RateLimit sample_env ''login'' 1 (60 * second) (\<lambda>r rw w. (Panicked ''reached'', rw, w))
      ((sample_request ''POST'' ''/auth/login'')\<lparr>rq_Header := (\<lambda>k. if k = ''X-Forwarded-For'' then [''c''] else []), rq_RemoteAddr := ''p''\<rparr>)
      new_writer (sample_active\<lparr>redis_db := [rate_limit_key ''login'' ''p'' \<mapsto> (VInt 9, Some (60 * second))]\<rparr>)
    = (Panicked ''reached'', new_writer, w1)"
proof -
  let ?r = "(sample_request ''POST'' ''/auth/login'')\<lparr>rq_Header := (\<lambda>k. if k = ''X-Forwarded-For'' then [''c''] else []), rq_RemoteAddr := ''p''\<rparr>"
  let ?w = "sample_active\<lparr>redis_db := [rate_limit_key ''login'' ''p'' \<mapsto> (VInt 9, Some (60 * second))]\<rparr>"
  have "rate_limit_key ''login'' ''c'' \<noteq> rate_limit_key ''login'' ''p''" by (simp add: rate_limit_key_def)
  then have "live (cur sample_env ?w) (kspace sample_env ?w) (rate_limit_key ''login'' ''c'') = None"
    by (simp add: live_def kspace_def sample_env_def mem_redis_def)
  then show ?thesis
    using forwarded_header_evades_limit [of sample_env "60 * second" 1 ?r "''c''" ?w "''login''" "\<lambda>r rw w. (Panicked ''reached'', rw, w)" new_writer]
      sample_redis sample_clock sample_forwarded by (auto simp: ex_ttl_def quot_def)
qed

section \<open>The process\<close>

text \<open>
  C30. A process that serves, serves safely: its configuration passed every check, the
  database and Redis answered, lifetimes are positive, credentials come with explicit
  origins, and what it listens with is the router over services that
  were wired from that same configuration. In production \<open>DB_SSLMODE\<close> is not \<open>disable\<close>,
  every refresh token cookie it sets or clears is \<open>Secure\<close> and \<open>HttpOnly\<close>, and access tokens are signed with a key of 32 bytes or
  more that is not the default.
\<close>

theorem main_serves_safely:
  assumes "main E D os = Serving srv"
  shows "\<exists>cfg. Load (unicode_tables E) os = Inr cfg
    \<and> pg_open D (postgres_dsn cfg) = None \<and> pg_ping D (postgres_dsn cfg) = None
    \<and> (\<exists>options. NewRedisClient D cfg = Inr options \<and> redis_ping D options = None)
    \<and> srv_Handler srv = Routes E (NewHandler cfg (auth_wiring E (main_tokens cfg)) (main_tokens cfg))
    \<and> 0 < JWTAccessTTLMinutes cfg \<and> 0 < RefreshTokenTTLHours cfg \<and> 0 < RequestTimeoutSec cfg
    \<and> trim_space (ts_accessSecret (main_tokens cfg)) \<noteq> []
    \<and> (CORSAllowCredentials cfg \<longrightarrow> CORSAllowedOrigins cfg \<noteq> [])
    \<and> (AppEnv cfg = ''production'' \<longrightarrow>
        \<not> equal_fold (unicode_tables E) (trim_space (DBSSLMode cfg)) ''disable'' \<and> 32 \<le> length (ts_accessSecret (main_tokens cfg)) \<and> ts_accessSecret (main_tokens cfg) \<noteq> defaultJWTSecret
        \<and> (\<forall>value maxAge expires. c_Secure (refresh_cookie E cfg value maxAge expires) \<and> c_HttpOnly (refresh_cookie E cfg value maxAge expires)))"
proof -
  from assms obtain cfg where cfg: "Load (unicode_tables E) os = Inr cfg" by (auto simp: main_def split: sum.splits)
  with assms obtain db options where db: "NewPostgresConnection D cfg = Inr db" and redis: "NewRedisClient D cfg = Inr options"
    and srv: "srv = main_server E cfg" by (auto simp: main_def split: sum.splits)
  have "pg_open D (postgres_dsn cfg) = None" "pg_ping D (postgres_dsn cfg) = None"
    using db by (auto simp: NewPostgresConnection_def Let_def split: option.splits)
  moreover have "redis_ping D options = None"
    using redis by (auto simp: NewRedisClient_def Let_def split: option.splits sum.splits if_splits)
  moreover note load_config_ok [OF cfg]
  ultimately show ?thesis
    using cfg redis srv by (auto simp: main_server_def main_handler_def main_tokens_def NewTokenService_def refresh_cookie_def)
qed

definition sample_drivers :: drivers where
  "sample_drivers =
     \<lparr>pg_open = (\<lambda>dsn. None), pg_ping = (\<lambda>dsn. None),
      redis_ParseURL = (\<lambda>url. Inr \<lparr>ro_Addr = url, ro_Password = '''', ro_DB = 0\<rparr>), redis_ping = (\<lambda>options. None)\<rparr>"

theorem main_serves_safely_witness:
  "\<exists>srv cfg. main sample_env sample_drivers sample_os = Serving srv \<and> AppEnv cfg = ''production''
    \<and> srv_Handler srv = Routes sample_env (NewHandler cfg (auth_wiring sample_env (main_tokens cfg)) (main_tokens cfg))
    \<and> c_Secure (refresh_cookie sample_env cfg ''v'' 60 None)"
proof -
  have U: "unicode_tables sample_env = sample_unicode" by (simp add: sample_env_def)
  obtain cfg where cfg: "Load sample_unicode sample_os = Inr cfg" and env: "AppEnv cfg = ''production''"
    using sample_loads by (cases "Load sample_unicode sample_os") simp_all
  have serving: "main sample_env sample_drivers sample_os = Serving (main_server sample_env cfg)"
    by (simp add: main_def U cfg NewPostgresConnection_def NewRedisClient_def sample_drivers_def Let_def)
  from main_serves_safely [OF this] cfg env have "srv_Handler (main_server sample_env cfg)
      = Routes sample_env (NewHandler cfg (auth_wiring sample_env (main_tokens cfg)) (main_tokens cfg))
    \<and> c_Secure (refresh_cookie sample_env cfg ''v'' 60 None)" by (auto simp: U)
  with serving env show ?thesis by blast
qed

text \<open>
  The hardening of a production configuration does not reach \<open>DATABASE_URL\<close>: a URL is used as
  it stands.
\<close>

lemma database_url_as_it_stands: "DatabaseURL cfg \<noteq> '''' \<Longrightarrow> postgres_dsn (applySecureDefaults U cfg) = DatabaseURL cfg"
  by (simp add: postgres_dsn_def applySecureDefaults_def Let_def)

text \<open>
  With no variable set the listener gives up on a response after ten seconds, before the
  fifteen after which \<open>Timeout\<close> would answer for the handler.
\<close>

lemma default_write_timeout:
  "srv_WriteTimeout (main_server E sample_config) < dur_mul (RequestTimeoutSec sample_config) second"
proof -
  have "RequestTimeoutSec sample_config = 15" by code_simp
  then show ?thesis by (simp add: main_server_def dur_mul_def wrap64_def)
qed

end
